(* ===== verification/Prelude.thy ===== *)
theory Prelude
  imports Main "HOL-Library.Word"
begin

text \<open>
  Shared ground of the development: the machine types of the Go sources, the
  outcome type of a Go call that may panic or fail to return within the fuel it is
  given, and the big-endian byte strings that every component reads and writes.

  \<^item> \<open>u8\<close>, \<open>u64\<close> are \<open>byte\<close> and \<open>uint64\<close>; their arithmetic wraps.
  \<^item> \<open>address\<close> and \<open>hash\<close> are \<open>common.Address\<close> (20 bytes) and \<open>common.Hash\<close>
    (32 bytes), identified with the number their bytes spell in big-endian order.
  \<^item> A \<open>*big.Int\<close> is an \<open>int\<close>.
  \<^item> A \<open>[]byte\<close> is a list of bytes; \<open>nil\<close> and the empty slice are both \<open>[]\<close> unless the
    code tells them apart, where an \<open>option\<close> is used.
\<close>

section \<open>Machine types\<close>

type_synonym u8 = "8 word"
type_synonym u64 = "64 word"
type_synonym address = "160 word"
type_synonym hash = "256 word"
type_synonym bytes = "u8 list"

named_theorems go_simps \<open>rewrite rules for the outcome type\<close>
named_theorems word_simps \<open>reading 64-bit arithmetic as arithmetic on naturals\<close>

section \<open>Outcomes of a Go call\<close>

text \<open>
  \<open>Ret x\<close> is a normal return, \<open>Panic\<close> a Go panic (an index out of range, a nil
  dereference, an explicit \<open>panic\<close>), \<open>OutOfFuel\<close> the absence of a result within the
  fuel a recursive definition was given. An \<open>error\<close> result is part of the returned value.
\<close>

datatype 'a go = OutOfFuel | Panic | Ret 'a

primrec go_bind :: "'a go \<Rightarrow> ('a \<Rightarrow> 'b go) \<Rightarrow> 'b go" where
  "go_bind OutOfFuel f = OutOfFuel"
| "go_bind Panic f = Panic"
| "go_bind (Ret x) f = f x"

lemma go_bind_eq_Ret [go_simps]: "go_bind m f = Ret y \<longleftrightarrow> (\<exists>x. m = Ret x \<and> f x = Ret y)"
  by (cases m) auto

lemma go_bind_eq_Panic [go_simps]:
  "go_bind m f = Panic \<longleftrightarrow> m = Panic \<or> (\<exists>x. m = Ret x \<and> f x = Panic)"
  by (cases m) auto

lemma go_bind_eq_OutOfFuel [go_simps]:
  "go_bind m f = OutOfFuel \<longleftrightarrow> m = OutOfFuel \<or> (\<exists>x. m = Ret x \<and> f x = OutOfFuel)"
  by (cases m) auto

lemma go_bind_assoc: "go_bind (go_bind m f) g = go_bind m (\<lambda>x. go_bind (f x) g)"
  by (cases m) auto

lemma go_bind_Ret [simp]: "go_bind m Ret = m"
  by (cases m) auto

lemma go_bind_cong [fundef_cong]:
  "m = m' \<Longrightarrow> (\<And>x. m' = Ret x \<Longrightarrow> f x = g x) \<Longrightarrow> go_bind m f = go_bind m' g"
  by (cases m') auto

definition returns :: "'a go \<Rightarrow> bool" where
  "returns m \<longleftrightarrow> (\<exists>x. m = Ret x)"

lemma returns_Ret [simp]: "returns (Ret x)"
  by (simp add: returns_def)

lemma returns_bad [simp]: "\<not> returns Panic" "\<not> returns OutOfFuel"
  by (simp_all add: returns_def)

lemma returns_bind: "returns m \<Longrightarrow> (\<And>x. m = Ret x \<Longrightarrow> returns (f x)) \<Longrightarrow> returns (go_bind m f)"
  by (cases m) auto

section \<open>Indexing and slicing with Go's bounds checks\<close>

text \<open>\<open>a[i]\<close> and \<open>a[lo:hi]\<close>; an index out of range panics.\<close>

definition go_index :: "'a list \<Rightarrow> nat \<Rightarrow> 'a go" where
  "go_index xs i = (if i < length xs then Ret (xs ! i) else Panic)"

definition go_slice :: "'a list \<Rightarrow> int \<Rightarrow> int \<Rightarrow> 'a list go" where
  "go_slice xs lo hi =
     (if 0 \<le> lo \<and> lo \<le> hi \<and> hi \<le> int (length xs)
      then Ret (take (nat (hi - lo)) (drop (nat lo) xs)) else Panic)"

lemma go_index_Ret [simp]: "i < length xs \<Longrightarrow> go_index xs i = Ret (xs ! i)"
  by (simp add: go_index_def)

lemma go_index_eq_Ret: "go_index xs i = Ret x \<longleftrightarrow> i < length xs \<and> x = xs ! i"
  by (auto simp: go_index_def)

lemma length_go_slice: "go_slice xs lo hi = Ret ys \<Longrightarrow> length ys = nat (hi - lo)"
  by (auto simp: go_slice_def split: if_splits)

lemma set_go_slice: "go_slice xs lo hi = Ret ys \<Longrightarrow> set ys \<subseteq> set xs"
  by (auto simp: go_slice_def split: if_splits dest: in_set_takeD in_set_dropD)

section \<open>Big-endian byte strings\<close>

text \<open>\<open>big.Int.SetBytes\<close> reads a byte string, most significant byte first.\<close>

definition SetBytes :: "bytes \<Rightarrow> int" where
  "SetBytes bs = foldl (\<lambda>a b. a * 256 + uint b) 0 bs"

text \<open>The \<open>k\<close> low bytes of a number, most significant first.\<close>

primrec be_bytes :: "nat \<Rightarrow> int \<Rightarrow> bytes" where
  "be_bytes 0 n = []"
| "be_bytes (Suc k) n = be_bytes k (n div 256) @ [word_of_int n]"

lemma length_be_bytes [simp]: "length (be_bytes k n) = k"
  by (induction k arbitrary: n) auto

lemma SetBytes_Nil [simp]: "SetBytes [] = 0"
  by (simp add: SetBytes_def)

lemma SetBytes_snoc [simp]: "SetBytes (bs @ [b]) = SetBytes bs * 256 + uint b"
  by (simp add: SetBytes_def)

lemma SetBytes_nonneg [simp]: "0 \<le> SetBytes bs"
  by (induction bs rule: rev_induct) auto

lemma uint_u8_less: "uint (b :: u8) < 256"
  using uint_lt2p [of b] by simp

lemma SetBytes_less: "SetBytes bs < 256 ^ length bs"
proof (induction bs rule: rev_induct)
  case (snoc b bs)
  then have "SetBytes bs \<le> 256 ^ length bs - 1"
    by simp
  then have "SetBytes bs * 256 + uint b \<le> (256 ^ length bs - 1) * 256 + uint b"
    by simp
  also have "\<dots> < 256 ^ length (bs @ [b])"
    using uint_u8_less [of b] by simp
  finally show ?case by simp
qed simp

lemma SetBytes_be_bytes: "SetBytes (be_bytes k n) = n mod 256 ^ k"
proof (induction k arbitrary: n)
  case (Suc k)
  have "SetBytes (be_bytes (Suc k) n) = (n div 256) mod 256 ^ k * 256 + n mod 256"
    by (simp add: Suc.IH unsigned_of_int take_bit_eq_mod)
  also have "\<dots> = n mod 256 ^ Suc k"
    by (simp add: zmod_zmult2_eq)
  finally show ?case .
qed simp

lemma word_u8_times_256 [simp]: "(w :: u8) * 256 = 0"
proof -
  have "w * 256 = w * 0"
    by (rule arg_cong [where f = "(*) w"]) simp
  then show ?thesis by simp
qed

lemma be_bytes_SetBytes: "be_bytes (length bs) (SetBytes bs) = bs"
proof (induction bs rule: rev_induct)
  case (snoc b bs)
  have "(SetBytes bs * 256 + uint b) div 256 = SetBytes bs"
    using uint_u8_less [of b] by simp
  moreover have "(word_of_int (SetBytes bs * 256 + uint b) :: u8) = b"
    by simp
  ultimately show ?case
    using snoc by simp
qed simp

section \<open>Reading unsigned arithmetic\<close>

lemma unat_add_no_wrap [word_simps]:
  "unat (a :: u64) + unat b < 2 ^ 64 \<Longrightarrow> unat (a + b) = unat a + unat b"
  by (simp add: unat_word_ariths)

lemma unat_mult_no_wrap [word_simps]:
  "unat (a :: u64) * unat b < 2 ^ 64 \<Longrightarrow> unat (a * b) = unat a * unat b"
  by (simp add: unat_word_ariths)

lemma unat_u64_less: "unat (a :: u64) < 2 ^ 64"
  using unsigned_less [where w = a] by simp

lemma uint_u64_less: "uint (a :: u64) < 2 ^ 64"
  using uint_lt2p [of a] by simp

lemma unat_u64_word_of_int: "0 \<le> x \<Longrightarrow> x < 2 ^ 64 \<Longrightarrow> unat (word_of_int x :: u64) = nat x"
  by (simp add: unat_eq_nat_uint unsigned_of_int take_bit_int_eq_self)

end
