(* ===== verification/BigMath.thy ===== *)
theory BigMath
  imports Prelude
begin

text \<open>
  The arithmetic the rest of the program is built on: \<open>common/math\<close> (256-bit
  truncation, signed reading, exponentiation by squaring, byte access, overflow-checked
  64-bit operations), the padding functions of \<open>common/bytes.go\<close> and the conversions
  between big integers, hashes and addresses of \<open>common/types.go\<close>. The word-by-word
  loops of the source are kept and proved equal to their arithmetic meaning.
\<close>

section \<open>Methods of \<open>math/big.Int\<close> the program calls\<close>

text \<open>\<open>BitLen\<close>: the number of bits of the absolute value.\<close>

fun bitlen_nat :: "nat \<Rightarrow> nat" where
  "bitlen_nat n = (if n = 0 then 0 else Suc (bitlen_nat (n div 2)))"

declare bitlen_nat.simps [simp del]

definition BitLen :: "int \<Rightarrow> nat" where
  "BitLen x = bitlen_nat (nat \<bar>x\<bar>)"

text \<open>\<open>Uint64\<close> and \<open>Int64\<close>: the low 64 bits of the absolute value, negated for a
  negative number in the signed case.\<close>

definition big_Uint64 :: "int \<Rightarrow> u64" where
  "big_Uint64 x = word_of_int \<bar>x\<bar>"

definition big_Int64 :: "int \<Rightarrow> int" where
  "big_Int64 x = sint (if x < 0 then - (word_of_int \<bar>x\<bar> :: u64) else word_of_int \<bar>x\<bar>)"

text \<open>\<open>Bits\<close>: the machine words of the absolute value, least significant first.\<close>

fun words_of_nat :: "nat \<Rightarrow> u64 list" where
  "words_of_nat n = (if n = 0 then [] else word_of_nat n # words_of_nat (n div 2 ^ 64))"

declare words_of_nat.simps [simp del]

definition big_Bits :: "int \<Rightarrow> u64 list" where
  "big_Bits x = words_of_nat (nat \<bar>x\<bar>)"

text \<open>\<open>Bytes\<close>: the shortest big-endian byte string of the absolute value.\<close>

definition big_Bytes :: "int \<Rightarrow> bytes" where
  "big_Bytes x = be_bytes ((BitLen x + 7) div 8) \<bar>x\<bar>"

section \<open>\<open>common/math/big.go\<close>\<close>

definition tt255 :: int where "tt255 = 2 ^ 255"
definition tt256 :: int where "tt256 = 2 ^ 256"
definition tt256m1 :: int where "tt256m1 = tt256 - 1"

definition U256 :: "int \<Rightarrow> int" where
  "U256 x = and x tt256m1"

definition S256 :: "int \<Rightarrow> int" where
  "S256 x = (if x < tt255 then x else x - tt256)"

definition BigMax :: "int \<Rightarrow> int \<Rightarrow> int" where
  "BigMax x y = (if x < y then y else x)"

definition BigMin :: "int \<Rightarrow> int \<Rightarrow> int" where
  "BigMin x y = (if x > y then y else x)"

text \<open>The byte of weight \<open>256 ^ n\<close>, found through the machine word that holds it.\<close>

definition bigEndianByteAt :: "int \<Rightarrow> nat \<Rightarrow> u8" where
  "bigEndianByteAt x n =
     (let ws = big_Bits x; i = n div 8
      in if i \<ge> length ws then 0 else ucast (drop_bit (8 * (n mod 8)) (ws ! i)))"

definition math_Byte :: "int \<Rightarrow> nat \<Rightarrow> nat \<Rightarrow> u8" where
  "math_Byte x padlength n =
     (if n \<ge> padlength then 0 else bigEndianByteAt x (padlength - 1 - n))"

text \<open>\<open>ReadBits\<close>: the inner loop writes the eight bytes of a word, the outer loop runs
  over the words; both stop at the front of the buffer.\<close>

fun read_word :: "nat \<Rightarrow> u64 \<Rightarrow> nat \<Rightarrow> bytes \<Rightarrow> nat \<times> bytes" where
  "read_word 0 d i buf = (i, buf)"
| "read_word (Suc j) d i buf =
     (if i > 0 then read_word j (drop_bit 8 d) (i - 1) (buf[i - 1 := ucast d]) else (i, buf))"

fun read_words :: "u64 list \<Rightarrow> nat \<Rightarrow> bytes \<Rightarrow> bytes" where
  "read_words [] i buf = buf"
| "read_words (d # ds) i buf = (case read_word 8 d i buf of (i', buf') \<Rightarrow> read_words ds i' buf')"

definition ReadBits :: "int \<Rightarrow> bytes \<Rightarrow> bytes" where
  "ReadBits x buf = read_words (big_Bits x) (length buf) buf"

definition PaddedBigBytes :: "int \<Rightarrow> nat \<Rightarrow> bytes" where
  "PaddedBigBytes x n =
     (if BitLen x div 8 \<ge> n then big_Bytes x else ReadBits x (replicate n 0))"

text \<open>\<open>Exp\<close> squares \<open>base\<close> in place: the second component is the value \<open>base\<close> holds
  afterwards.\<close>

fun exp_bits :: "nat \<Rightarrow> u64 \<Rightarrow> int \<Rightarrow> int \<Rightarrow> int \<times> int" where
  "exp_bits 0 w result base = (result, base)"
| "exp_bits (Suc i) w result base =
     exp_bits i (drop_bit 1 w) (if and w 1 = 1 then U256 (result * base) else result)
       (U256 (base * base))"

fun exp_words :: "u64 list \<Rightarrow> int \<Rightarrow> int \<Rightarrow> int \<times> int" where
  "exp_words [] result base = (result, base)"
| "exp_words (w # ws) result base =
     (case exp_bits 64 w result base of (result', base') \<Rightarrow> exp_words ws result' base')"

definition math_Exp :: "int \<Rightarrow> int \<Rightarrow> int \<times> int" where
  "math_Exp base exponent = exp_words (big_Bits exponent) 1 base"

section \<open>\<open>common/math/integer.go\<close>\<close>

definition MaxUint64 :: u64 where "MaxUint64 = - 1"

definition SafeSub :: "u64 \<Rightarrow> u64 \<Rightarrow> u64 \<times> bool" where
  "SafeSub x y = (x - y, x < y)"

definition SafeAdd :: "u64 \<Rightarrow> u64 \<Rightarrow> u64 \<times> bool" where
  "SafeAdd x y = (x + y, y > MaxUint64 - x)"

definition SafeMul :: "u64 \<Rightarrow> u64 \<Rightarrow> u64 \<times> bool" where
  "SafeMul x y = (if x = 0 \<or> y = 0 then (0, False) else (x * y, y > MaxUint64 div x))"

section \<open>\<open>common/bytes.go\<close> and \<open>common/types.go\<close>\<close>

definition RightPadBytes :: "bytes \<Rightarrow> int \<Rightarrow> bytes" where
  "RightPadBytes b l =
     (if l \<le> int (length b) then b else b @ replicate (nat l - length b) 0)"

definition LeftPadBytes :: "bytes \<Rightarrow> int \<Rightarrow> bytes" where
  "LeftPadBytes b l =
     (if l \<le> int (length b) then b else replicate (nat l - length b) 0 @ b)"

text \<open>A byte string longer than the target is cropped from the left, a shorter one is
  padded on the left: reading it as a number modulo the width does both.\<close>

definition BytesToHash :: "bytes \<Rightarrow> hash" where
  "BytesToHash b = word_of_int (SetBytes b)"

definition BigToHash :: "int \<Rightarrow> hash" where
  "BigToHash b = BytesToHash (big_Bytes b)"

definition Hash_Bytes :: "hash \<Rightarrow> bytes" where
  "Hash_Bytes h = be_bytes 32 (uint h)"

definition Hash_Big :: "hash \<Rightarrow> int" where
  "Hash_Big h = SetBytes (Hash_Bytes h)"

definition BytesToAddress :: "bytes \<Rightarrow> address" where
  "BytesToAddress b = word_of_int (SetBytes b)"

definition BigToAddress :: "int \<Rightarrow> address" where
  "BigToAddress b = BytesToAddress (big_Bytes b)"

definition Address_Bytes :: "address \<Rightarrow> bytes" where
  "Address_Bytes a = be_bytes 20 (uint a)"

definition Address_Big :: "address \<Rightarrow> int" where
  "Address_Big a = SetBytes (Address_Bytes a)"

section \<open>What they compute\<close>

subsection \<open>Bit length and conversions\<close>

lemma bitlen_nat_le: "bitlen_nat n \<le> k \<longleftrightarrow> n < 2 ^ k"
proof (induction n arbitrary: k rule: bitlen_nat.induct)
  case (1 n)
  show ?case
  proof (cases "n = 0")
    case True
    then show ?thesis by (simp add: bitlen_nat.simps [of 0])
  next
    case False
    show ?thesis
    proof (cases k)
      case 0
      with False show ?thesis by (simp add: bitlen_nat.simps [of n])
    next
      case (Suc k')
      have "n div 2 < 2 ^ k' \<longleftrightarrow> n < 2 ^ Suc k'"
        by auto
      with False Suc "1.IH" [OF False, of k'] show ?thesis
        by (simp add: bitlen_nat.simps [of n])
    qed
  qed
qed

lemma BitLen_le: "BitLen x \<le> k \<longleftrightarrow> \<bar>x\<bar> < 2 ^ k"
  by (simp add: BitLen_def bitlen_nat_le nat_less_iff)

lemma BitLen_gt: "BitLen x > k \<longleftrightarrow> 2 ^ k \<le> \<bar>x\<bar>"
  using BitLen_le [of x k] by linarith

lemma BitLen_eq_0 [simp]: "BitLen x = 0 \<longleftrightarrow> x = 0"
  using BitLen_le [of x 0] by simp

lemma unat_big_Uint64: "0 \<le> x \<Longrightarrow> BitLen x \<le> 64 \<Longrightarrow> unat (big_Uint64 x) = nat x"
  by (simp add: big_Uint64_def BitLen_le unat_u64_word_of_int)

lemma big_Int64_small: "0 \<le> x \<Longrightarrow> x < 2 ^ 63 \<Longrightarrow> big_Int64 x = x"
  by (simp add: big_Int64_def sint_uint unsigned_of_int take_bit_int_eq_self signed_take_bit_int_eq_self)

lemma big_Int64_0 [simp]: "big_Int64 0 = 0"
  by (simp add: big_Int64_def)

lemma be_bytes_mod: "be_bytes k (n mod 256 ^ k) = be_bytes k n"
  by (metis SetBytes_be_bytes be_bytes_SetBytes length_be_bytes)

lemma be_bytes_add: "be_bytes (m + k) n = be_bytes m (n div 256 ^ k) @ be_bytes k n"
  by (induction k arbitrary: n) (simp_all add: zdiv_zmult2_eq)

lemma be_bytes_zero: "be_bytes k 0 = replicate k 0"
  by (induction k) (simp_all flip: replicate_append_same)

lemma SetBytes_big_Bytes [simp]: "SetBytes (big_Bytes x) = \<bar>x\<bar>"
proof -
  have "\<bar>x\<bar> < 2 ^ (8 * ((BitLen x + 7) div 8))"
  proof -
    have "BitLen x \<le> 8 * ((BitLen x + 7) div 8)" by simp
    then show ?thesis by (simp only: BitLen_le)
  qed
  then have "\<bar>x\<bar> < 256 ^ ((BitLen x + 7) div 8)"
    by (simp add: power_mult)
  then show ?thesis
    by (simp add: big_Bytes_def SetBytes_be_bytes)
qed

lemma BigToHash_eq: "BigToHash x = word_of_int \<bar>x\<bar>"
  by (simp add: BigToHash_def BytesToHash_def)

lemma BigToAddress_eq: "BigToAddress x = word_of_int \<bar>x\<bar>"
  by (simp add: BigToAddress_def BytesToAddress_def)

lemma Hash_Big_eq: "Hash_Big h = uint h"
  using uint_lt2p [of h]
  by (simp add: Hash_Big_def Hash_Bytes_def SetBytes_be_bytes)

lemma Address_Big_eq: "Address_Big a = uint a"
  using uint_lt2p [of a]
  by (simp add: Address_Big_def Address_Bytes_def SetBytes_be_bytes)

lemma SetBytes_Hash_Bytes: "SetBytes (Hash_Bytes h) = uint h"
  using Hash_Big_eq by (simp add: Hash_Big_def)

lemma BigToAddress_Address_Big [simp]: "BigToAddress (Address_Big a) = a"
  by (simp add: BigToAddress_eq Address_Big_eq)

lemma BigToHash_Hash_Big [simp]: "BigToHash (Hash_Big h) = h"
  by (simp add: BigToHash_eq Hash_Big_eq)

lemma length_RightPadBytes: "length (RightPadBytes s l) = max (length s) (nat l)"
  by (auto simp: RightPadBytes_def)

lemma length_LeftPadBytes: "length (LeftPadBytes s l) = max (length s) (nat l)"
  by (auto simp: LeftPadBytes_def)


subsection \<open>256-bit truncation and signed reading\<close>

lemma U256_mod: "U256 x = x mod 2 ^ 256"
proof -
  have "tt256m1 = mask 256"
    by (simp add: tt256m1_def tt256_def mask_eq_exp_minus_1)
  then show ?thesis
    using take_bit_eq_mask [of 256 x] by (simp only: U256_def take_bit_eq_mod)
qed

lemma U256_nonneg [simp]: "0 \<le> U256 x"
  by (simp add: U256_mod)

lemma U256_less [simp]: "U256 x < 2 ^ 256"
  by (simp add: U256_mod)

lemma U256_id: "0 \<le> x \<Longrightarrow> x < 2 ^ 256 \<Longrightarrow> U256 x = x"
  by (simp add: U256_mod)

lemma U256_S256: "0 \<le> x \<Longrightarrow> x < 2 ^ 256 \<Longrightarrow> U256 (S256 x) = x"
  by (simp add: U256_mod S256_def tt255_def tt256_def)

lemma signed_reading:
  assumes "0 \<le> x" "x < 2 * (h :: int)"
  shows "(x + h) mod (2 * h) - h = (if x < h then x else x - 2 * h)"
proof (cases "x < h")
  case True
  with assms show ?thesis by simp
next
  case False
  have "(x + h) mod (2 * h) = (x - h + 2 * h) mod (2 * h)"
    by (simp add: algebra_simps)
  also have "\<dots> = x - h"
    using False assms by (simp only: mod_add_self2) simp
  finally show ?thesis using False by simp
qed

lemma S256_sint:
  assumes "0 \<le> x" "x < 2 ^ 256"
  shows "S256 x = sint (word_of_int x :: 256 word)"
proof -
  have "sint (word_of_int x :: 256 word) = (x + 2 ^ 255) mod (2 * 2 ^ 255) - 2 ^ 255"
    by (simp add: int_word_sint)
  also have "\<dots> = (if x < 2 ^ 255 then x else x - 2 * 2 ^ 255)"
    using assms by (intro signed_reading) simp_all
  finally show ?thesis
    by (simp add: S256_def tt255_def tt256_def)
qed

lemma U256_uint: "U256 x = uint (word_of_int x :: 256 word)"
  by (simp add: U256_mod uint_word_of_int)

subsection \<open>Byte access\<close>

fun words_val :: "u64 list \<Rightarrow> nat" where
  "words_val [] = 0"
| "words_val (w # ws) = unat w + 2 ^ 64 * words_val ws"

lemma words_val_words_of_nat [simp]: "words_val (words_of_nat n) = n"
proof (induction n rule: words_of_nat.induct)
  case (1 n)
  show ?case
  proof (cases "n = 0")
    case True
    then show ?thesis by (simp add: words_of_nat.simps [of 0])
  next
    case False
    then have "words_val (words_of_nat n) = n mod 2 ^ 64 + 2 ^ 64 * (n div 2 ^ 64)"
      using "1.IH" by (simp add: words_of_nat.simps [of n] unsigned_of_nat take_bit_eq_mod)
    then show ?thesis
      by (metis mod_mult_div_eq)
  qed
qed

lemma read_word_eq:
  "i \<le> length buf \<Longrightarrow>
   read_word j d i buf =
     (i - j, take (i - j) buf @ be_bytes (min i j) (uint d) @ drop i buf)"
proof (induction j d i buf rule: read_word.induct)
  case (2 j d i buf)
  show ?case
  proof (cases i)
    case (Suc k)
    have "uint d div 256 = uint (drop_bit 8 d)"
      by (simp add: drop_bit_eq_div uint_div)
    moreover have "(word_of_int (uint d) :: u8) = ucast d"
      by (rule ucast_eq [symmetric])
    moreover have "(drop k buf)[0 := z] = z # drop (Suc k) buf" for z
      using 2 Suc by (subst Cons_nth_drop_Suc [symmetric]) auto
    ultimately show ?thesis
      using 2 Suc by (simp add: drop_update_swap)
  qed simp
qed simp

lemma be_bytes_word:
  "be_bytes (i - 8) v @ be_bytes (min i 8) (uint (d :: u64)) = be_bytes i (uint d + 256 ^ 8 * v)"
proof (cases "8 \<le> i")
  case True
  have "(uint d + 256 ^ 8 * v) div 256 ^ 8 = v"
    using uint_lt2p [of d] by simp
  moreover have "be_bytes 8 (uint d + 256 ^ 8 * v) = be_bytes 8 (uint d)"
    using be_bytes_mod [of 8 "uint d + 256 ^ 8 * v"] be_bytes_mod [of 8 "uint d"]
    by (simp only: mod_mult_self2)
  moreover have "be_bytes i n = be_bytes (i - 8) (n div 256 ^ 8) @ be_bytes 8 n" for n
    using be_bytes_add [of "i - 8" 8 n] True by simp
  ultimately show ?thesis
    using True by (simp only: min.absorb2)
next
  case False
  have "(256 :: int) ^ (i + (8 - i)) = 256 ^ i * 256 ^ (8 - i)"
    by (rule power_add)
  then have "(256 :: int) ^ 8 = 256 ^ i * 256 ^ (8 - i)"
    using False by (simp only: le_add_diff_inverse nat_le_linear)
  then have "(uint d + 256 ^ 8 * v) mod 256 ^ i = uint d mod 256 ^ i"
    by (simp only: mult.assoc mod_mult_self2)
  then show ?thesis
    using False be_bytes_mod [of i "uint d + 256 ^ 8 * v"] be_bytes_mod [of i "uint d"]
    by (simp add: min_def)
qed

lemma take_min_replicate: "take k xs = replicate k z \<Longrightarrow> m \<le> k \<Longrightarrow> take m xs = replicate m z"
  by (metis min.absorb1 take_replicate take_take)

lemma read_words_eq:
  "i \<le> length buf \<Longrightarrow> take i buf = replicate i 0 \<Longrightarrow>
   read_words ws i buf = be_bytes i (int (words_val ws)) @ drop i buf"
proof (induction ws i buf rule: read_words.induct)
  case (1 i buf)
  then show ?case
    using append_take_drop_id [of i buf] by (simp add: be_bytes_zero)
next
  case (2 d ds i buf)
  let ?v = "int (words_val ds)" and ?b = "be_bytes (min i 8) (uint d)"
  have prefix: "take (i - 8) buf = replicate (i - 8) 0"
    using 2(3) by (rule take_min_replicate) simp
  have "read_words (d # ds) i buf = (be_bytes (i - 8) ?v @ ?b) @ drop i buf"
    using 2 prefix by (simp add: read_word_eq)
  also have "be_bytes (i - 8) ?v @ ?b = be_bytes i (uint d + 256 ^ 8 * ?v)"
    by (rule be_bytes_word)
  also have "uint d + 256 ^ 8 * ?v = int (words_val (d # ds))"
    by simp
  finally show ?case .
qed

text \<open>On a zeroed buffer \<open>ReadBits\<close> leaves the big-endian encoding of the number.\<close>

lemma ReadBits_zeroed: "ReadBits x (replicate n 0) = be_bytes n \<bar>x\<bar>"
  by (simp add: ReadBits_def big_Bits_def read_words_eq)


lemma words_of_nat_nth:
  "words_of_nat n ! i = word_of_nat (n div 2 ^ (64 * i))" if "i < length (words_of_nat n)"
  using that
proof (induction n arbitrary: i rule: words_of_nat.induct)
  case (1 n)
  have "n \<noteq> 0"
    using "1.prems" by (intro notI) (simp add: words_of_nat.simps [of 0])
  show ?case
  proof (cases i)
    case 0
    with \<open>n \<noteq> 0\<close> show ?thesis by (simp add: words_of_nat.simps [of n])
  next
    case (Suc k)
    have len: "k < length (words_of_nat (n div 2 ^ 64))"
      using "1.prems" \<open>n \<noteq> 0\<close> Suc by (simp add: words_of_nat.simps [of n])
    have "words_of_nat n ! i = words_of_nat (n div 2 ^ 64) ! k"
      using \<open>n \<noteq> 0\<close> Suc by (simp add: words_of_nat.simps [of n])
    also have "\<dots> = word_of_nat (n div 2 ^ 64 div 2 ^ (64 * k))"
      by (rule "1.IH" [OF \<open>n \<noteq> 0\<close> len])
    also have "n div 2 ^ 64 div 2 ^ (64 * k) = n div 2 ^ (64 * i)"
      using Suc by (simp only: div_mult2_eq [symmetric] power_add [symmetric] mult_Suc_right)
    finally show ?thesis .
  qed
qed

lemma words_of_nat_beyond: "length (words_of_nat n) \<le> i \<Longrightarrow> n < 2 ^ (64 * i)"
proof (induction n arbitrary: i rule: words_of_nat.induct)
  case (1 n)
  show ?case
  proof (cases "n = 0")
    case False
    with 1 obtain k where i: "i = Suc k" and "length (words_of_nat (n div 2 ^ 64)) \<le> k"
      by (cases i) (simp_all add: words_of_nat.simps [of n])
    with 1 False have "n div 2 ^ 64 < 2 ^ (64 * k)"
      by blast
    then have "n < 2 ^ (64 * k) * 2 ^ 64"
      by (simp only: div_less_iff_less_mult zero_less_power zero_less_numeral)
    then show ?thesis
      by (simp add: i power_add mult.commute)
  qed simp
qed

lemma div_mod_byte: "r < 8 \<Longrightarrow> (m mod 2 ^ 64) div 2 ^ (8 * r) mod 256 = m div 2 ^ (8 * r) mod (256 :: nat)"
proof -
  assume "r < 8"
  then have "(2 :: nat) ^ 64 = 2 ^ (8 * r) * 2 ^ (64 - 8 * r)"
    by (simp flip: power_add)
  then have "(m mod 2 ^ 64) div 2 ^ (8 * r) = m div 2 ^ (8 * r) mod 2 ^ (64 - 8 * r)"
    by (simp only: mod_mult2_eq) simp
  moreover have "(2 :: nat) ^ 8 dvd 2 ^ (64 - 8 * r)"
    using \<open>r < 8\<close> by (intro le_imp_power_dvd) linarith
  ultimately show ?thesis
    by (simp add: mod_mod_cancel)
qed

lemma byte_of_word:
  "ucast (drop_bit k (word_of_nat m :: u64)) = (word_of_nat (m mod 2 ^ 64 div 2 ^ k) :: u8)"
proof -
  have "ucast w = (word_of_nat (unat w) :: u8)" for w :: u64
    by simp
  then have "ucast (drop_bit k (word_of_nat m :: u64))
      = (word_of_nat (unat (drop_bit k (word_of_nat m :: u64))) :: u8)" .
  also have "unat (drop_bit k (word_of_nat m :: u64)) = m mod 2 ^ 64 div 2 ^ k"
    by (simp only: unat_drop_bit_eq unat_of_nat) (simp add: drop_bit_eq_div)
  finally show ?thesis .
qed

text \<open>\<open>bigEndianByteAt\<close> is the byte of weight \<open>256 ^ n\<close>.\<close>

lemma bigEndianByteAt_eq: "bigEndianByteAt x n = word_of_nat (nat \<bar>x\<bar> div 256 ^ n)"
proof (cases "n div 8 \<ge> length (big_Bits x)")
  case True
  then have "nat \<bar>x\<bar> < 2 ^ (64 * (n div 8))"
    unfolding big_Bits_def by (rule words_of_nat_beyond)
  also have "(2 :: nat) ^ (64 * (n div 8)) \<le> 2 ^ (8 * n)"
    by (rule power_increasing) simp_all
  finally have "nat \<bar>x\<bar> div 256 ^ n = 0"
    by (simp add: power_mult)
  with True show ?thesis
    by (simp add: bigEndianByteAt_def)
next
  case False
  let ?m = "nat \<bar>x\<bar> div 2 ^ (64 * (n div 8))" and ?r = "n mod 8"
  have "8 * n = 64 * (n div 8) + 8 * ?r"
    by presburger
  then have "(2 :: nat) ^ (8 * n) = 2 ^ (64 * (n div 8)) * 2 ^ (8 * ?r)"
    by (simp only: power_add)
  then have split: "nat \<bar>x\<bar> div 2 ^ (8 * n) = ?m div 2 ^ (8 * ?r)"
    by (simp only: div_mult2_eq)
  have "bigEndianByteAt x n = ucast (drop_bit (8 * ?r) (word_of_nat ?m :: u64))"
    using False by (simp add: bigEndianByteAt_def big_Bits_def words_of_nat_nth)
  also have "\<dots> = (word_of_nat (?m mod 2 ^ 64 div 2 ^ (8 * ?r)) :: u8)"
    by (rule byte_of_word)
  also have "\<dots> = word_of_nat (?m div 2 ^ (8 * ?r))"
    using div_mod_byte [of ?r ?m]
    by (intro word_unat_eq_iff [THEN iffD2]) (simp add: unat_of_nat)
  also have "\<dots> = word_of_nat (nat \<bar>x\<bar> div 256 ^ n)"
    by (simp only: split [symmetric]) (simp add: power_mult)
  finally show ?thesis .
qed

text \<open>Square and multiply computes the power modulo \<open>2 ^ 256\<close>.\<close>

lemma U256_tt256: "U256 x = x mod tt256"
  by (simp only: U256_mod tt256_def)

lemma tt256_pos: "0 < tt256"
  by (simp add: tt256_def)

lemma bit_loop_exponent:
  "unat w mod 2 ^ Suc n = unat (and w 1) + 2 * (unat (drop_bit 1 w) mod 2 ^ n)" for w :: u64
proof -
  have "unat (and w 1) = unat w mod 2"
    by (simp add: and_one_eq unat_mod)
  moreover have "unat (drop_bit 1 w) = unat w div 2"
    by (simp only: unat_drop_bit_eq) (simp add: drop_bit_eq_div)
  moreover have "unat w mod (2 * 2 ^ n) = 2 * (unat w div 2 mod 2 ^ n) + unat w mod 2"
    by (rule mod_mult2_eq)
  ultimately show ?thesis by simp
qed

lemma and_1_cases: "unat (and w 1) = (if and w 1 = 1 then 1 else 0)" for w :: u64
proof -
  have "unat (and w 1) < 2"
    by (simp add: and_one_eq unat_mod)
  then have "unat (and w 1) = 0 \<or> unat (and w 1) = 1" by linarith
  then show ?thesis by (auto simp: word_unat_eq_iff)
qed

lemma exp_bits_base: "snd (exp_bits n w r b) mod tt256 = b ^ 2 ^ n mod tt256"
proof (induction n arbitrary: w r b)
  case (Suc n)
  have "snd (exp_bits (Suc n) w r b) mod tt256 = U256 (b * b) ^ 2 ^ n mod tt256"
    by (simp add: Suc)
  also have "\<dots> = (b * b) ^ 2 ^ n mod tt256"
    by (simp only: U256_tt256 power_mod)
  also have "(b * b) ^ 2 ^ n = b ^ 2 ^ Suc n"
    by (simp only: power2_eq_square [symmetric] power_mult [symmetric] power_Suc)
  finally show ?case .
qed simp

lemma exp_bits_result:
  "fst (exp_bits n w r b) mod tt256 = r * b ^ (unat w mod 2 ^ n) mod tt256"
proof (induction n arbitrary: w r b)
  case (Suc n)
  let ?e = "unat (drop_bit 1 w) mod 2 ^ n" and ?r = "if and w 1 = 1 then U256 (r * b) else r"
  have "fst (exp_bits (Suc n) w r b) mod tt256 = ?r * U256 (b * b) ^ ?e mod tt256"
    by (simp add: Suc)
  also have "\<dots> = (?r mod tt256) * (U256 (b * b) ^ ?e mod tt256) mod tt256"
    by (simp only: mod_mult_eq)
  also have "U256 (b * b) ^ ?e mod tt256 = (b * b) ^ ?e mod tt256"
    by (simp only: U256_tt256 power_mod)
  also have "?r mod tt256 = (r * b ^ unat (and w 1)) mod tt256"
    by (simp add: and_1_cases U256_tt256)
  also have "(r * b ^ unat (and w 1) mod tt256) * ((b * b) ^ ?e mod tt256) mod tt256
      = (r * b ^ unat (and w 1)) * (b * b) ^ ?e mod tt256"
    by (simp only: mod_mult_eq)
  also have "(r * b ^ unat (and w 1)) * (b * b) ^ ?e = r * b ^ (unat (and w 1) + 2 * ?e)"
    by (simp only: power_add power_mult power2_eq_square mult.assoc)
  finally show ?case
    by (simp only: bit_loop_exponent)
qed simp

lemma exp_bits_range: "0 \<le> r \<Longrightarrow> r < tt256 \<Longrightarrow> 0 \<le> fst (exp_bits n w r b) \<and> fst (exp_bits n w r b) < tt256"
  by (induction n arbitrary: w r b) (auto simp: U256_tt256 tt256_pos)

lemma power_step_mod:
  fixes M :: int
  assumes "r' mod M = r * b ^ u mod M" "b' mod M = b ^ P mod M"
  shows "r' * b' ^ v mod M = r * b ^ (u + P * v) mod M"
proof -
  have "r' * b' ^ v mod M = (r' mod M) * ((b' mod M) ^ v mod M) mod M"
    by (simp only: mod_mult_eq power_mod)
  also have "\<dots> = (r * b ^ u) * (b ^ P) ^ v mod M"
    by (simp only: assms mod_mult_eq power_mod)
  also have "(r * b ^ u) * (b ^ P) ^ v = r * b ^ (u + P * v)"
    by (simp only: power_add power_mult mult.assoc)
  finally show ?thesis .
qed

lemma exp_words_result:
  "0 \<le> r \<Longrightarrow> r < tt256 \<Longrightarrow> fst (exp_words ws r b) = r * b ^ words_val ws mod tt256"
proof (induction ws arbitrary: r b)
  case (Cons w ws)
  obtain r' b' where rb: "exp_bits 64 w r b = (r', b')" by fastforce
  have w: "unat w mod 2 ^ 64 = unat w"
    using unat_u64_less [of w] by (rule mod_less)
  have r': "r' mod tt256 = r * b ^ unat w mod tt256"
    using exp_bits_result [of 64 w r b] by (simp only: rb fst_conv w)
  have b': "b' mod tt256 = b ^ 2 ^ 64 mod tt256"
    using exp_bits_base [of 64 w r b] by (simp only: rb snd_conv)
  have "0 \<le> r'" "r' < tt256"
    using exp_bits_range [OF Cons.prems, of 64 w b] by (simp_all only: rb fst_conv)
  then have "fst (exp_words ws r' b') = r' * b' ^ words_val ws mod tt256"
    by (rule Cons.IH)
  also have "\<dots> = r * b ^ (unat w + 2 ^ 64 * words_val ws) mod tt256"
    by (rule power_step_mod [OF r' b'])
  finally show ?case
    by (simp only: exp_words.simps rb prod.case words_val.simps)
qed simp

lemma math_Exp_eq: "0 \<le> e \<Longrightarrow> fst (math_Exp b e) = b ^ nat e mod tt256"
  by (simp add: math_Exp_def exp_words_result big_Bits_def words_val_words_of_nat tt256_def)

subsection \<open>Overflow flags of the 64-bit operations\<close>

lemma SafeAdd_flag: "snd (SafeAdd x y) \<longleftrightarrow> 2 ^ 64 \<le> unat x + unat y"
proof -
  have "unat (MaxUint64 - x) = 2 ^ 64 - 1 - unat x"
    by (simp add: MaxUint64_def unat_sub unsigned_minus_1_eq_mask mask_eq_exp_minus_1)
  then show ?thesis
    using unat_u64_less [of x] by (auto simp: SafeAdd_def word_less_nat_alt)
qed

lemma SafeSub_flag: "snd (SafeSub x y) \<longleftrightarrow> unat x < unat y"
  by (simp add: SafeSub_def word_less_nat_alt)

lemma SafeMul_flag: "snd (SafeMul x y) \<longleftrightarrow> 2 ^ 64 \<le> unat x * unat y"
proof (cases "x = 0 \<or> y = 0")
  case False
  then have pos: "0 < unat x" by (simp add: unat_gt_0)
  have "snd (SafeMul x y) \<longleftrightarrow> (2 ^ 64 - 1) div unat x < unat y"
    using False by (simp add: SafeMul_def word_less_nat_alt unat_div MaxUint64_def
        unsigned_minus_1_eq_mask mask_eq_exp_minus_1)
  also have "\<dots> \<longleftrightarrow> 2 ^ 64 - 1 < unat y * unat x"
    using pos by (rule div_less_iff_less_mult)
  finally show ?thesis
    by (auto simp: mult.commute)
qed (auto simp: SafeMul_def)

lemma SafeAdd_unat: "\<not> snd (SafeAdd x y) \<Longrightarrow> unat (fst (SafeAdd x y)) = unat x + unat y"
  by (simp only: SafeAdd_flag) (simp add: SafeAdd_def unat_add_no_wrap)

lemma SafeMul_unat: "\<not> snd (SafeMul x y) \<Longrightarrow> unat (fst (SafeMul x y)) = unat x * unat y"
  by (simp only: SafeMul_flag) (auto simp: SafeMul_def unat_mult_no_wrap)

lemma be_bytes_nth: "n < k \<Longrightarrow> be_bytes k x ! n = word_of_int (x div 256 ^ (k - 1 - n))"
proof (induction k arbitrary: x n)
  case (Suc k)
  show ?case
  proof (cases "n = k")
    case False
    with Suc.prems have "n < k" "k - n = Suc (k - 1 - n)" by auto
    with Suc.IH [of n "x div 256"] show ?thesis
      by (simp add: nth_append zdiv_zmult2_eq)
  qed (simp add: nth_append)
qed simp

section \<open>Properties\<close>

text \<open>C19: square-and-multiply over the machine words of the exponent computes the power modulo
  \<open>2 ^ 256\<close>.\<close>

theorem Exp_is_power:
  assumes "0 \<le> exponent"
  shows "fst (math_Exp base exponent) = base ^ nat exponent mod 2 ^ 256"
  using math_Exp_eq [OF assms] by (simp add: tt256_def)

theorem Exp_is_power_witness: "fst (math_Exp 3 200) = 3 ^ 200 mod 2 ^ 256"
  using Exp_is_power [of 200 3] by simp

text \<open>C20: the overflow flags of the checked operations are exact, and the value is the result
  modulo \<open>2 ^ 64\<close>.\<close>

theorem Safe_exact:
  "SafeAdd x y = (word_of_nat (unat x + unat y), 2 ^ 64 \<le> unat x + unat y)
   \<and> SafeSub x y = (word_of_int (uint x - uint y), uint x - uint y < 0)
   \<and> SafeMul x y = (word_of_nat (unat x * unat y), 2 ^ 64 \<le> unat x * unat y)"
proof (intro conjI prod_eqI)
  show "snd (SafeAdd x y) = snd (word_of_nat (unat x + unat y) :: u64, 2 ^ 64 \<le> unat x + unat y)"
    using SafeAdd_flag [of x y] by simp
  show "snd (SafeMul x y) = snd (word_of_nat (unat x * unat y) :: u64, 2 ^ 64 \<le> unat x * unat y)"
    using SafeMul_flag [of x y] by simp
qed (auto simp: SafeAdd_def SafeSub_def SafeMul_def word_less_alt)

text \<open>C21: \<open>Byte\<close>, which picks a byte out of the machine words of the number, is the byte of the
  big-endian representation padded to \<open>padlength\<close>.\<close>

theorem Byte_correct:
  assumes "n < padlength"
  shows "math_Byte x padlength n = be_bytes padlength \<bar>x\<bar> ! n"
proof -
  have "int (nat \<bar>x\<bar> div 256 ^ m) = \<bar>x\<bar> div 256 ^ m" for m
    by (simp add: zdiv_int)
  then show ?thesis
    using assms
    by (simp add: math_Byte_def bigEndianByteAt_eq be_bytes_nth)
      (metis of_int_of_nat_eq)
qed

theorem Byte_correct_witness: "math_Byte 0x010203 32 30 = be_bytes 32 0x010203 ! 30"
  using Byte_correct [of 30 32 "0x010203"] by simp

text \<open>C22: \<open>PaddedBigBytes\<close> writes a number that fits into \<open>n\<close> bytes as exactly its \<open>n\<close> big-endian
  bytes, and reading them back gives the number.\<close>

theorem PaddedBigBytes_roundtrip:
  assumes "\<bar>x\<bar> < 256 ^ n"
  shows "PaddedBigBytes x n = be_bytes n \<bar>x\<bar> \<and> SetBytes (PaddedBigBytes x n) = \<bar>x\<bar>"
proof -
  have "256 ^ n = (2 :: int) ^ (8 * n)"
    by (simp add: power_mult)
  with assms have "BitLen x \<le> 8 * n"
    by (simp add: BitLen_le)
  moreover from this have "(BitLen x + 7) div 8 = n" if "n \<le> BitLen x div 8"
    using that by linarith
  ultimately have "PaddedBigBytes x n = be_bytes n \<bar>x\<bar>"
    by (auto simp: PaddedBigBytes_def ReadBits_zeroed big_Bytes_def)
  with assms show ?thesis
    by (simp add: SetBytes_be_bytes)
qed

theorem PaddedBigBytes_roundtrip_witness:
  "PaddedBigBytes 0x1234 2 = be_bytes 2 0x1234 \<and> SetBytes (PaddedBigBytes 0x1234 2) = 0x1234"
  using PaddedBigBytes_roundtrip [of "0x1234" 2] by (simp add: SetBytes_be_bytes)

end
