(* ===== verification/Params.thy ===== *)
theory Params
  imports BigMath
begin

text \<open>
  The protocol parameters: the constants of \<open>params/protocol_params.go\<close>, the gas tables of
  \<open>params/gas_table.go\<close>, and the chain configuration of \<open>params/config.go\<close> with its fork
  predicates, its \<open>Rules\<close> and the compatibility check between two configurations. A
  \<open>*big.Int\<close> that may be nil is an \<open>int option\<close>.
\<close>

section \<open>\<open>protocol_params.go\<close>\<close>

named_theorems params \<open>unfolding of the protocol constants\<close>

definition CallValueTransferGas :: u64 where [params]: "CallValueTransferGas = 9000"
definition CallNewAccountGas :: u64 where [params]: "CallNewAccountGas = 25000"
definition TxGas :: u64 where [params]: "TxGas = 21000"
definition TxGasContractCreation :: u64 where [params]: "TxGasContractCreation = 53000"
definition TxDataZeroGas :: u64 where [params]: "TxDataZeroGas = 4"
definition QuadCoeffDiv :: u64 where [params]: "QuadCoeffDiv = 512"
definition LogDataGas :: u64 where [params]: "LogDataGas = 8"
definition CallStipend :: u64 where [params]: "CallStipend = 2300"
definition Sha3Gas :: u64 where [params]: "Sha3Gas = 30"
definition Sha3WordGas :: u64 where [params]: "Sha3WordGas = 6"
definition SstoreSetGas :: u64 where [params]: "SstoreSetGas = 20000"
definition SstoreResetGas :: u64 where [params]: "SstoreResetGas = 5000"
definition SstoreClearGas :: u64 where [params]: "SstoreClearGas = 5000"
definition SstoreRefundGas :: u64 where [params]: "SstoreRefundGas = 15000"
definition NetSstoreNoopGas :: u64 where [params]: "NetSstoreNoopGas = 200"
definition NetSstoreInitGas :: u64 where [params]: "NetSstoreInitGas = 20000"
definition NetSstoreCleanGas :: u64 where [params]: "NetSstoreCleanGas = 5000"
definition NetSstoreDirtyGas :: u64 where [params]: "NetSstoreDirtyGas = 200"
definition NetSstoreClearRefund :: u64 where [params]: "NetSstoreClearRefund = 15000"
definition NetSstoreResetRefund :: u64 where [params]: "NetSstoreResetRefund = 4800"
definition NetSstoreResetClearRefund :: u64 where [params]: "NetSstoreResetClearRefund = 19800"
definition JumpdestGas :: u64 where [params]: "JumpdestGas = 1"
definition CreateDataGas :: u64 where [params]: "CreateDataGas = 200"
definition CallCreateDepth :: u64 where [params]: "CallCreateDepth = 1024"
definition ExpGas :: u64 where [params]: "ExpGas = 10"
definition LogGas :: u64 where [params]: "LogGas = 375"
definition CopyGas :: u64 where [params]: "CopyGas = 3"
definition StackLimit :: u64 where [params]: "StackLimit = 1024"
definition LogTopicGas :: u64 where [params]: "LogTopicGas = 375"
definition CreateGas :: u64 where [params]: "CreateGas = 32000"
definition Create2Gas :: u64 where [params]: "Create2Gas = 32000"
definition SuicideRefundGas :: u64 where [params]: "SuicideRefundGas = 24000"
definition MemoryGas :: u64 where [params]: "MemoryGas = 3"
definition TxDataNonZeroGas :: u64 where [params]: "TxDataNonZeroGas = 68"
definition MaxCodeSize :: nat where [params]: "MaxCodeSize = 24576"
definition EcrecoverGas :: u64 where [params]: "EcrecoverGas = 3000"
definition Sha256BaseGas :: u64 where [params]: "Sha256BaseGas = 60"
definition Sha256PerWordGas :: u64 where [params]: "Sha256PerWordGas = 12"
definition Ripemd160BaseGas :: u64 where [params]: "Ripemd160BaseGas = 600"
definition Ripemd160PerWordGas :: u64 where [params]: "Ripemd160PerWordGas = 120"
definition IdentityBaseGas :: u64 where [params]: "IdentityBaseGas = 15"
definition IdentityPerWordGas :: u64 where [params]: "IdentityPerWordGas = 3"
definition ModExpQuadCoeffDiv :: u64 where [params]: "ModExpQuadCoeffDiv = 20"
definition Bn256AddGas :: u64 where [params]: "Bn256AddGas = 500"
definition Bn256ScalarMulGas :: u64 where [params]: "Bn256ScalarMulGas = 40000"
definition Bn256PairingBaseGas :: u64 where [params]: "Bn256PairingBaseGas = 100000"
definition Bn256PairingPerPointGas :: u64 where [params]: "Bn256PairingPerPointGas = 80000"

section \<open>\<open>gas_table.go\<close>\<close>

record GasTable =
  gt_ExtcodeSize :: u64
  gt_ExtcodeCopy :: u64
  gt_ExtcodeHash :: u64
  gt_Balance :: u64
  gt_SLoad :: u64
  gt_Calls :: u64
  gt_Suicide :: u64
  gt_ExpByte :: u64
  gt_CreateBySuicide :: u64

definition GasTableHomestead :: GasTable where
  "GasTableHomestead = \<lparr>gt_ExtcodeSize = 20, gt_ExtcodeCopy = 20, gt_ExtcodeHash = 0,
     gt_Balance = 20, gt_SLoad = 50, gt_Calls = 40, gt_Suicide = 0, gt_ExpByte = 10,
     gt_CreateBySuicide = 0\<rparr>"

definition GasTableEIP150 :: GasTable where
  "GasTableEIP150 = \<lparr>gt_ExtcodeSize = 700, gt_ExtcodeCopy = 700, gt_ExtcodeHash = 0,
     gt_Balance = 400, gt_SLoad = 200, gt_Calls = 700, gt_Suicide = 5000, gt_ExpByte = 10,
     gt_CreateBySuicide = 25000\<rparr>"

definition GasTableEIP158 :: GasTable where
  "GasTableEIP158 = \<lparr>gt_ExtcodeSize = 700, gt_ExtcodeCopy = 700, gt_ExtcodeHash = 0,
     gt_Balance = 400, gt_SLoad = 200, gt_Calls = 700, gt_Suicide = 5000, gt_ExpByte = 50,
     gt_CreateBySuicide = 25000\<rparr>"

definition GasTableConstantinople :: GasTable where
  "GasTableConstantinople = \<lparr>gt_ExtcodeSize = 700, gt_ExtcodeCopy = 700, gt_ExtcodeHash = 400,
     gt_Balance = 400, gt_SLoad = 200, gt_Calls = 700, gt_Suicide = 5000, gt_ExpByte = 50,
     gt_CreateBySuicide = 25000\<rparr>"

section \<open>\<open>config.go\<close>\<close>

text \<open>The consensus engine sub-configurations \<open>Ethash\<close> and \<open>Clique\<close> are not read by the
  execution layer and are left out of the record.\<close>

record ChainConfig =
  ChainID :: "int option"
  HomesteadBlock :: "int option"
  DAOForkBlock :: "int option"
  DAOForkSupport :: bool
  EIP150Block :: "int option"
  EIP150Hash :: hash
  EIP155Block :: "int option"
  EIP158Block :: "int option"
  ByzantiumBlock :: "int option"
  ConstantinopleBlock :: "int option"
  PetersburgBlock :: "int option"
  EWASMBlock :: "int option"

definition MainnetChainConfig :: ChainConfig where
  "MainnetChainConfig = \<lparr>ChainID = Some 1, HomesteadBlock = Some 1150000,
     DAOForkBlock = Some 1920000, DAOForkSupport = True, EIP150Block = Some 2463000,
     EIP150Hash = 0x2086799aeebeae135c246c65021c82b4e15a2c451340993aacfd2751886514f0,
     EIP155Block = Some 2675000, EIP158Block = Some 2675000, ByzantiumBlock = Some 4370000,
     ConstantinopleBlock = Some 7280000, PetersburgBlock = Some 7280000, EWASMBlock = None\<rparr>"

definition TestnetChainConfig :: ChainConfig where
  "TestnetChainConfig = \<lparr>ChainID = Some 3, HomesteadBlock = Some 0,
     DAOForkBlock = None, DAOForkSupport = True, EIP150Block = Some 0,
     EIP150Hash = 0x41941023680923e0fe4d74a34bdac8141f2540e3ae90623718e47d66d1ca4a2d,
     EIP155Block = Some 10, EIP158Block = Some 10, ByzantiumBlock = Some 1700000,
     ConstantinopleBlock = Some 4230000, PetersburgBlock = Some 4939394, EWASMBlock = None\<rparr>"

definition AllEthashProtocolChanges :: ChainConfig where
  "AllEthashProtocolChanges = \<lparr>ChainID = Some 1337, HomesteadBlock = Some 0,
     DAOForkBlock = None, DAOForkSupport = False, EIP150Block = Some 0, EIP150Hash = 0,
     EIP155Block = Some 0, EIP158Block = Some 0, ByzantiumBlock = Some 0,
     ConstantinopleBlock = Some 0, PetersburgBlock = Some 0, EWASMBlock = None\<rparr>"

fun isForked :: "int option \<Rightarrow> int option \<Rightarrow> bool" where
  "isForked None head = False"
| "isForked (Some s) None = False"
| "isForked (Some s) (Some head) = (s \<le> head)"

fun configNumEqual :: "int option \<Rightarrow> int option \<Rightarrow> bool" where
  "configNumEqual None y = (y = None)"
| "configNumEqual (Some x) None = False"
| "configNumEqual (Some x) (Some y) = (x = y)"

definition isForkIncompatible :: "int option \<Rightarrow> int option \<Rightarrow> int option \<Rightarrow> bool" where
  "isForkIncompatible s1 s2 head =
     ((isForked s1 head \<or> isForked s2 head) \<and> \<not> configNumEqual s1 s2)"

definition IsHomestead :: "ChainConfig \<Rightarrow> int option \<Rightarrow> bool" where
  "IsHomestead c num = isForked (HomesteadBlock c) num"

definition IsDAOFork :: "ChainConfig \<Rightarrow> int option \<Rightarrow> bool" where
  "IsDAOFork c num = isForked (DAOForkBlock c) num"

definition IsEIP150 :: "ChainConfig \<Rightarrow> int option \<Rightarrow> bool" where
  "IsEIP150 c num = isForked (EIP150Block c) num"

definition IsEIP155 :: "ChainConfig \<Rightarrow> int option \<Rightarrow> bool" where
  "IsEIP155 c num = isForked (EIP155Block c) num"

definition IsEIP158 :: "ChainConfig \<Rightarrow> int option \<Rightarrow> bool" where
  "IsEIP158 c num = isForked (EIP158Block c) num"

definition IsByzantium :: "ChainConfig \<Rightarrow> int option \<Rightarrow> bool" where
  "IsByzantium c num = isForked (ByzantiumBlock c) num"

definition IsConstantinople :: "ChainConfig \<Rightarrow> int option \<Rightarrow> bool" where
  "IsConstantinople c num = isForked (ConstantinopleBlock c) num"

definition IsPetersburg :: "ChainConfig \<Rightarrow> int option \<Rightarrow> bool" where
  "IsPetersburg c num \<longleftrightarrow>
     isForked (PetersburgBlock c) num
     \<or> PetersburgBlock c = None \<and> isForked (ConstantinopleBlock c) num"

definition IsEWASM :: "ChainConfig \<Rightarrow> int option \<Rightarrow> bool" where
  "IsEWASM c num = isForked (EWASMBlock c) num"

definition GasTable_of :: "ChainConfig \<Rightarrow> int option \<Rightarrow> GasTable" where
  "GasTable_of c num =
     (if num = None then GasTableHomestead
      else if IsConstantinople c num then GasTableConstantinople
      else if IsEIP158 c num then GasTableEIP158
      else if IsEIP150 c num then GasTableEIP150
      else GasTableHomestead)"

record Rules =
  rChainID :: int
  rIsHomestead :: bool
  rIsEIP150 :: bool
  rIsEIP155 :: bool
  rIsEIP158 :: bool
  rIsByzantium :: bool
  rIsConstantinople :: bool
  rIsPetersburg :: bool

definition Rules_of :: "ChainConfig \<Rightarrow> int option \<Rightarrow> Rules" where
  "Rules_of c num = \<lparr>rChainID = (case ChainID c of None \<Rightarrow> 0 | Some i \<Rightarrow> i),
     rIsHomestead = IsHomestead c num, rIsEIP150 = IsEIP150 c num, rIsEIP155 = IsEIP155 c num,
     rIsEIP158 = IsEIP158 c num, rIsByzantium = IsByzantium c num,
     rIsConstantinople = IsConstantinople c num, rIsPetersburg = IsPetersburg c num\<rparr>"

subsection \<open>Compatibility of two configurations\<close>

record ConfigCompatError =
  What :: string
  StoredConfig :: "int option"
  NewConfig :: "int option"
  RewindTo :: u64

definition newCompatError :: "string \<Rightarrow> int option \<Rightarrow> int option \<Rightarrow> ConfigCompatError" where
  "newCompatError what storedblock newblock =
     (let rew = (case (storedblock, newblock) of
          (None, n) \<Rightarrow> n
        | (Some s, None) \<Rightarrow> Some s
        | (Some s, Some n) \<Rightarrow> if s < n then Some s else Some n)
      in \<lparr>What = what, StoredConfig = storedblock, NewConfig = newblock,
          RewindTo = (case rew of None \<Rightarrow> 0
                      | Some r \<Rightarrow> if r > 0 then big_Uint64 r - 1 else 0)\<rparr>)"

definition checkCompatible ::
  "ChainConfig \<Rightarrow> ChainConfig \<Rightarrow> int \<Rightarrow> ConfigCompatError option" where
  "checkCompatible c newcfg bhead =
     (let head = Some bhead in
      if isForkIncompatible (HomesteadBlock c) (HomesteadBlock newcfg) head then
        Some (newCompatError ''Homestead fork block'' (HomesteadBlock c) (HomesteadBlock newcfg))
      else if isForkIncompatible (DAOForkBlock c) (DAOForkBlock newcfg) head then
        Some (newCompatError ''DAO fork block'' (DAOForkBlock c) (DAOForkBlock newcfg))
      else if IsDAOFork c head \<and> DAOForkSupport c \<noteq> DAOForkSupport newcfg then
        Some (newCompatError ''DAO fork support flag'' (DAOForkBlock c) (DAOForkBlock newcfg))
      else if isForkIncompatible (EIP150Block c) (EIP150Block newcfg) head then
        Some (newCompatError ''EIP150 fork block'' (EIP150Block c) (EIP150Block newcfg))
      else if isForkIncompatible (EIP155Block c) (EIP155Block newcfg) head then
        Some (newCompatError ''EIP155 fork block'' (EIP155Block c) (EIP155Block newcfg))
      else if isForkIncompatible (EIP158Block c) (EIP158Block newcfg) head then
        Some (newCompatError ''EIP158 fork block'' (EIP158Block c) (EIP158Block newcfg))
      else if IsEIP158 c head \<and> \<not> configNumEqual (ChainID c) (ChainID newcfg) then
        Some (newCompatError ''EIP158 chain ID'' (EIP158Block c) (EIP158Block newcfg))
      else if isForkIncompatible (ByzantiumBlock c) (ByzantiumBlock newcfg) head then
        Some (newCompatError ''Byzantium fork block'' (ByzantiumBlock c) (ByzantiumBlock newcfg))
      else if isForkIncompatible (ConstantinopleBlock c) (ConstantinopleBlock newcfg) head then
        Some (newCompatError ''Constantinople fork block''
          (ConstantinopleBlock c) (ConstantinopleBlock newcfg))
      else if isForkIncompatible (PetersburgBlock c) (PetersburgBlock newcfg) head then
        Some (newCompatError ''ConstantinopleFix fork block''
          (PetersburgBlock c) (PetersburgBlock newcfg))
      else if isForkIncompatible (EWASMBlock c) (EWASMBlock newcfg) head then
        Some (newCompatError ''ewasm fork block'' (EWASMBlock c) (EWASMBlock newcfg))
      else None)"

text \<open>
  The rewind target of a conflict at \<open>head\<close> lies strictly below \<open>head\<close>, or is \<open>0\<close>. This is
  what makes the loop of \<open>CheckCompatible\<close> terminate.
\<close>

definition rewinds :: "int \<Rightarrow> ConfigCompatError \<Rightarrow> bool" where
  "rewinds head e \<longleftrightarrow> uint (RewindTo e) < head \<or> RewindTo e = 0"

lemma newCompatError_rewind:
  assumes "isForked s (Some head) \<or> isForked n (Some head)" "0 \<le> head" "head < 2 ^ 64"
  shows "rewinds head (newCompatError w s n)"
proof -
  have below: "uint (big_Uint64 r - 1) < head" if "0 < r" "r \<le> head" for r
  proof -
    have r: "uint (big_Uint64 r) = r"
      using that assms(3) by (simp add: big_Uint64_def unsigned_of_int take_bit_int_eq_self)
    then have "uint (big_Uint64 r - 1) = r - 1"
      using that by (simp add: uint_sub_if')
    with that show ?thesis by simp
  qed
  show ?thesis
    using assms(1) below
    by (cases s; cases n) (auto simp: newCompatError_def rewinds_def)
qed

lemma if_Some_E: "(if b then Some x else y) = Some e \<Longrightarrow> (b \<Longrightarrow> e = x \<Longrightarrow> P) \<Longrightarrow> (y = Some e \<Longrightarrow> P) \<Longrightarrow> P"
  by (cases b) auto

lemma checkCompatible_rewinds:
  assumes "checkCompatible c n head = Some e" "0 \<le> head" "head < 2 ^ 64"
  shows "rewinds head e"
  using assms(1) newCompatError_rewind [OF _ assms(2,3)]
  unfolding checkCompatible_def isForkIncompatible_def IsDAOFork_def IsEIP158_def Let_def
  by (elim if_Some_E) simp_all

lemmas checkCompatible_rewind =
  checkCompatible_rewinds [unfolded rewinds_def, OF _ unsigned_greater_eq uint_u64_less]

text \<open>The loop of \<open>CheckCompatible\<close>, with \<open>lasterr\<close> and \<open>bhead\<close> as its variables.\<close>

function check_loop ::
  "ChainConfig \<Rightarrow> ChainConfig \<Rightarrow> u64 \<Rightarrow> ConfigCompatError option \<Rightarrow> ConfigCompatError option" where
  "check_loop c newcfg bhead lasterr =
     (case checkCompatible c newcfg (uint bhead) of
        None \<Rightarrow> lasterr
      | Some err \<Rightarrow>
          if (case lasterr of None \<Rightarrow> False | Some l \<Rightarrow> RewindTo err = RewindTo l) then lasterr
          else check_loop c newcfg (RewindTo err) (Some err))"
  by pat_completeness auto
termination
proof (relation "measure (\<lambda>(c, n, bhead, lasterr). 2 * unat bhead
        + (case lasterr of None \<Rightarrow> 1 | Some l \<Rightarrow> if RewindTo l = bhead then 0 else 1))", simp)
  fix c n :: ChainConfig and bhead :: u64
    and lasterr :: "ConfigCompatError option" and err
  assume err: "checkCompatible c n (uint bhead) = Some err"
    and go: "\<not> (case lasterr of None \<Rightarrow> False | Some l \<Rightarrow> RewindTo err = RewindTo l)"
  from checkCompatible_rewind [OF err]
  consider "unat (RewindTo err) < unat bhead" | "RewindTo err = 0" "unat bhead = 0"
    by (cases "bhead = 0") (auto simp: word_less_alt [symmetric] word_less_nat_alt unat_gt_0)
  then show "((c, n, RewindTo err, Some err), c, n, bhead, lasterr) \<in> measure (\<lambda>(c, n, bhead, lasterr).
      2 * unat bhead + (case lasterr of None \<Rightarrow> 1 | Some l \<Rightarrow> if RewindTo l = bhead then 0 else 1))"
    using go by cases (auto simp: unat_eq_0 split: option.splits)
qed

declare check_loop.simps [simp del]

definition CheckCompatible ::
  "ChainConfig \<Rightarrow> ChainConfig \<Rightarrow> u64 \<Rightarrow> ConfigCompatError option" where
  "CheckCompatible c newcfg height = check_loop c newcfg height None"

lemma check_loop_sound:
  assumes "check_loop c n bhead lst = Some e"
    and "\<And>l. lst = Some l \<Longrightarrow> RewindTo l = bhead"
  shows "checkCompatible c n (uint (RewindTo e)) = None \<or> RewindTo e = 0"
  using assms
proof (induction c n bhead lst rule: check_loop.induct)
  case (1 c n bhead lst)
  show ?case
  proof (cases "checkCompatible c n (uint bhead)")
    case None
    with "1.prems" show ?thesis by (simp add: check_loop.simps [of c n bhead])
  next
    case (Some err)
    show ?thesis
    proof (cases "\<exists>l. lst = Some l \<and> RewindTo err = RewindTo l")
      case True
      then obtain l where l: "lst = Some l" "RewindTo err = RewindTo l" by blast
      moreover have "e = l"
        using "1.prems"(1) Some l by (simp add: check_loop.simps [of c n bhead])
      ultimately show ?thesis
        using checkCompatible_rewind [OF Some] "1.prems"(2) [OF l(1)]
        by auto
    next
      case False
      then have go: "\<not> (case lst of None \<Rightarrow> False | Some l \<Rightarrow> RewindTo err = RewindTo l)"
        by (auto split: option.splits)
      with "1.prems"(1) Some have "check_loop c n (RewindTo err) (Some err) = Some e"
        by (simp add: check_loop.simps [of c n bhead])
      then show ?thesis
        by (rule "1.IH" [OF Some go]) simp
    qed
  qed
qed

lemma check_loop_bound:
  assumes "check_loop c n bhead lst = Some e"
    and "\<And>l. lst = Some l \<Longrightarrow> RewindTo l \<le> h"
    and "bhead \<le> h"
  shows "RewindTo e \<le> h"
  using assms
proof (induction c n bhead lst rule: check_loop.induct)
  case (1 c n bhead lst)
  show ?case
  proof (cases "checkCompatible c n (uint bhead)")
    case None
    with "1.prems" show ?thesis by (simp add: check_loop.simps [of c n bhead])
  next
    case (Some err)
    have le: "RewindTo err \<le> bhead"
      using checkCompatible_rewind [OF Some]
      by (auto simp: word_le_def)
    show ?thesis
    proof (cases "case lst of None \<Rightarrow> False | Some l \<Rightarrow> RewindTo err = RewindTo l")
      case True
      with "1.prems" Some show ?thesis by (simp add: check_loop.simps [of c n bhead])
    next
      case False
      with "1.prems" Some have "check_loop c n (RewindTo err) (Some err) = Some e"
        by (simp add: check_loop.simps [of c n bhead])
      then show ?thesis
        using "1.IH" [OF Some False] le "1.prems"(3) by simp
    qed
  qed
qed

lemma check_loop_Some: "lst \<noteq> None \<Longrightarrow> check_loop c n bhead lst \<noteq> None"
proof (induction c n bhead lst rule: check_loop.induct)
  case (1 c n bhead lst)
  show ?case
  proof (cases "checkCompatible c n (uint bhead)")
    case None
    with 1 show ?thesis by (simp add: check_loop.simps [of c n bhead])
  next
    case (Some err)
    show ?thesis
    proof (cases "case lst of None \<Rightarrow> False | Some l \<Rightarrow> RewindTo err = RewindTo l")
      case True
      with "1.prems" Some show ?thesis by (simp add: check_loop.simps [of c n bhead])
    next
      case False
      with "1.IH" [OF Some False] Some show ?thesis
        by (simp add: check_loop.simps [of c n bhead])
    qed
  qed
qed

section \<open>Properties\<close>

text \<open>C18: the answer of \<open>CheckCompatible\<close>. It reports an error exactly when the two configurations
  are incompatible at the given height; the block it says to rewind to is not above that height, and
  there the configurations are compatible, or it is the genesis block. In particular the loop
  ends.\<close>

theorem CheckCompatible_correct:
  "case CheckCompatible c newcfg height of
     None \<Rightarrow> checkCompatible c newcfg (uint height) = None
   | Some e \<Rightarrow> checkCompatible c newcfg (uint height) \<noteq> None \<and> RewindTo e \<le> height
       \<and> (checkCompatible c newcfg (uint (RewindTo e)) = None \<or> RewindTo e = 0)"
proof (cases "CheckCompatible c newcfg height")
  case None
  have "checkCompatible c newcfg (uint height) = None"
  proof (rule ccontr)
    assume "checkCompatible c newcfg (uint height) \<noteq> None"
    then obtain e where "checkCompatible c newcfg (uint height) = Some e"
      by blast
    then show False
      using None check_loop_Some [of "Some e" c newcfg "RewindTo e"]
      by (simp add: CheckCompatible_def check_loop.simps [of c newcfg height])
  qed
  with None show ?thesis by simp
next
  case (Some e)
  then have "checkCompatible c newcfg (uint height) \<noteq> None"
    by (auto simp: CheckCompatible_def check_loop.simps [of c newcfg height] split: option.splits)
  with Some show ?thesis
    using check_loop_sound [of c newcfg height None e] check_loop_bound [of c newcfg height None e height]
    by (simp add: CheckCompatible_def)
qed

end
