(* ===== verification/State.thy ===== *)
theory State
  imports Params
begin

text \<open>
  The world state during the execution of a transaction, from \<open>core/state\<close>: state objects
  (\<open>state_object.go\<close>), the journal of undo entries (\<open>journal.go\<close>) and the state database
  with its snapshots (\<open>statedb.go\<close>). Each method is a function on the record of the
  database; a method of a live \<open>stateObject\<close>, which in Go is a pointer held in the map
  \<open>stateObjects\<close>, writes the changed object back to the map. The database behind the
  \<open>StateReader\<close> interface and the hash function are parameters. Tracing is switched off.
\<close>

section \<open>Interfaces\<close>

text \<open>The cryptographic libraries the program imports. Points of the bn256 curve are opaque
  byte strings that only these functions make and read.\<close>

record crypto =
  Keccak256 :: "bytes \<Rightarrow> hash"
  sha256_Sum256 :: "bytes \<Rightarrow> hash"
  ripemd160_Sum :: "bytes \<Rightarrow> bytes"
  crypto_Ecrecover :: "bytes \<Rightarrow> bytes \<Rightarrow> bytes option"
  bn256_G1_Unmarshal :: "bytes \<Rightarrow> string + bytes"
  bn256_G2_Unmarshal :: "bytes \<Rightarrow> string + bytes"
  bn256_G1_Add :: "bytes \<Rightarrow> bytes \<Rightarrow> bytes"
  bn256_G1_ScalarMult :: "bytes \<Rightarrow> int \<Rightarrow> bytes"
  bn256_G1_Marshal :: "bytes \<Rightarrow> bytes"
  bn256_PairingCheck :: "bytes list \<Rightarrow> bytes list \<Rightarrow> bool"

text \<open>\<open>Account\<close>: a nil \<open>Balance\<close> or \<open>CodeHash\<close> is \<open>None\<close>; a code hash is nil or has 32 bytes.\<close>

record Account =
  acc_Nonce :: u64
  acc_Balance :: "int option"
  acc_Root :: hash
  acc_CodeHash :: "hash option"

datatype db_error = ReadError string | CodeLoadError hash db_error

record StateReader =
  ReadAccountData :: "address \<Rightarrow> db_error + Account option"
  ReadAccountStorage :: "address \<Rightarrow> hash \<Rightarrow> db_error + bytes option"
  ReadAccountCode :: "hash \<Rightarrow> bytes option \<times> db_error option"
  ReadAccountCodeSize :: "hash \<Rightarrow> int \<times> db_error option"

record Log =
  log_Address :: address
  log_Topics :: "hash list"
  log_Data :: bytes
  log_BlockNumber :: u64
  log_TxHash :: hash
  log_TxIndex :: u64
  log_BlockHash :: hash
  log_Index :: u64

section \<open>State objects\<close>

type_synonym Storage = "hash \<rightharpoonup> hash"

text \<open>The struct \<open>data\<close> of a state object is spread over \<open>so_Nonce\<close>, \<open>so_Balance\<close>, \<open>so_Root\<close>
  and \<open>so_CodeHash\<close>, which \<open>newObject\<close> makes non-nil.\<close>

record stateObject =
  so_address :: address
  so_Nonce :: u64
  so_Balance :: int
  so_Root :: hash
  so_CodeHash :: hash
  so_original :: Account
  so_dbErr :: "db_error option"
  so_code :: "bytes option"
  originStorage :: Storage
  blockOriginStorage :: Storage
  dirtyStorage :: Storage
  dirtyCode :: bool
  suicided :: bool
  deleted :: bool

definition emptyCodeHash :: "crypto \<Rightarrow> hash" where
  "emptyCodeHash X = Keccak256 X []"

definition emptyRoot :: hash where
  "emptyRoot = 0x56e81f171bcc55a6ff8345e692c0f86e5b48e01b996cadc001622fb5e363b421"

definition so_data :: "stateObject \<Rightarrow> Account" where
  "so_data o1 = \<lparr>acc_Nonce = so_Nonce o1, acc_Balance = Some (so_Balance o1),
     acc_Root = so_Root o1, acc_CodeHash = Some (so_CodeHash o1)\<rparr>"

definition empty :: "crypto \<Rightarrow> stateObject \<Rightarrow> bool" where
  "empty X o1 \<longleftrightarrow> so_Nonce o1 = 0 \<and> so_Balance o1 = 0 \<and> so_CodeHash o1 = emptyCodeHash X"

definition newObject :: "crypto \<Rightarrow> address \<Rightarrow> Account \<Rightarrow> Account \<Rightarrow> stateObject" where
  "newObject X address data original = \<lparr>
     so_address = address,
     so_Nonce = acc_Nonce data,
     so_Balance = (case acc_Balance data of None \<Rightarrow> 0 | Some b \<Rightarrow> b),
     so_Root = acc_Root data,
     so_CodeHash = (case acc_CodeHash data of None \<Rightarrow> emptyCodeHash X | Some h \<Rightarrow> h),
     so_original = original,
     so_dbErr = None, so_code = None,
     originStorage = Map.empty, blockOriginStorage = Map.empty, dirtyStorage = Map.empty,
     dirtyCode = False, suicided = False, deleted = False\<rparr>"

definition so_setError :: "db_error \<Rightarrow> stateObject \<Rightarrow> stateObject" where
  "so_setError err o1 = (if so_dbErr o1 = None then o1\<lparr>so_dbErr := Some err\<rparr> else o1)"

definition markSuicided :: "stateObject \<Rightarrow> stateObject" where
  "markSuicided o1 = o1\<lparr>suicided := True\<rparr>"

definition so_setState :: "hash \<Rightarrow> hash \<Rightarrow> stateObject \<Rightarrow> stateObject" where
  "so_setState key val o1 = o1\<lparr>dirtyStorage := (dirtyStorage o1)(key \<mapsto> val)\<rparr>"

definition so_setBalance :: "int \<Rightarrow> stateObject \<Rightarrow> stateObject" where
  "so_setBalance amount o1 = o1\<lparr>so_Balance := amount\<rparr>"

definition so_setCode :: "hash \<Rightarrow> bytes option \<Rightarrow> stateObject \<Rightarrow> stateObject" where
  "so_setCode codeHash code o1 = o1\<lparr>so_code := code, so_CodeHash := codeHash, dirtyCode := True\<rparr>"

definition so_setNonce :: "u64 \<Rightarrow> stateObject \<Rightarrow> stateObject" where
  "so_setNonce nonce o1 = o1\<lparr>so_Nonce := nonce\<rparr>"

text \<open>Reads fill the caches of the object: the changed object is returned with the value.\<close>

definition so_GetCommittedState ::
  "StateReader \<Rightarrow> hash \<Rightarrow> stateObject \<Rightarrow> stateObject \<times> hash" where
  "so_GetCommittedState r key o1 =
     (case originStorage o1 key of
        Some val \<Rightarrow> (o1, val)
      | None \<Rightarrow>
          (case ReadAccountStorage r (so_address o1) key of
             Inl err \<Rightarrow> (so_setError err o1, 0)
           | Inr enc \<Rightarrow>
               (let val = (case enc of None \<Rightarrow> 0 | Some e \<Rightarrow> BytesToHash e)
                in (o1\<lparr>originStorage := (originStorage o1)(key \<mapsto> val),
                       blockOriginStorage := (blockOriginStorage o1)(key \<mapsto> val)\<rparr>, val))))"

definition so_GetState :: "StateReader \<Rightarrow> hash \<Rightarrow> stateObject \<Rightarrow> stateObject \<times> hash" where
  "so_GetState r key o1 =
     (case dirtyStorage o1 key of
        Some val \<Rightarrow> (o1, val)
      | None \<Rightarrow> so_GetCommittedState r key o1)"

definition so_Code :: "crypto \<Rightarrow> StateReader \<Rightarrow> stateObject \<Rightarrow> stateObject \<times> bytes option" where
  "so_Code X r o1 =
     (case so_code o1 of
        Some c \<Rightarrow> (o1, Some c)
      | None \<Rightarrow>
          if so_CodeHash o1 = emptyCodeHash X then (o1, None)
          else
            (case ReadAccountCode r (so_CodeHash o1) of
               (code, err) \<Rightarrow>
                 (let o2 = (case err of None \<Rightarrow> o1
                              | Some e \<Rightarrow> so_setError (CodeLoadError (so_CodeHash o1) e) o1)
                  in (o2\<lparr>so_code := code\<rparr>, code))))"

definition deepCopy :: "crypto \<Rightarrow> stateObject \<Rightarrow> stateObject" where
  "deepCopy X o1 = (newObject X (so_address o1) (so_data o1) (so_original o1))
     \<lparr>so_code := so_code o1, dirtyStorage := dirtyStorage o1, originStorage := originStorage o1,
      blockOriginStorage := blockOriginStorage o1, suicided := suicided o1,
      dirtyCode := dirtyCode o1, deleted := deleted o1\<rparr>"

section \<open>The journal\<close>

datatype journalEntry =
    createObjectChange address
  | resetObjectChange stateObject
  | suicideChange address bool int
  | balanceChange address int
  | nonceChange address u64
  | storageChange address hash hash
  | codeChange address "bytes option" hash
  | refundChange u64
  | addLogChange hash
  | addPreimageChange hash
  | touchChange address

record journal =
  entries :: "journalEntry list"
  dirties :: "address \<rightharpoonup> int"

definition newJournal :: journal where
  "newJournal = \<lparr>entries = [], dirties = Map.empty\<rparr>"

fun dirtied :: "journalEntry \<Rightarrow> address option" where
  "dirtied (createObjectChange a) = Some a"
| "dirtied (resetObjectChange p) = None"
| "dirtied (suicideChange a p b) = Some a"
| "dirtied (touchChange a) = Some a"
| "dirtied (balanceChange a p) = Some a"
| "dirtied (nonceChange a p) = Some a"
| "dirtied (codeChange a c h) = Some a"
| "dirtied (storageChange a k v) = Some a"
| "dirtied (refundChange p) = None"
| "dirtied (addLogChange h) = None"
| "dirtied (addPreimageChange h) = None"

text \<open>Go's \<open>m[k]\<close> on a map of integers reads \<open>0\<close> for an absent key.\<close>

definition count :: "(address \<rightharpoonup> int) \<Rightarrow> address \<Rightarrow> int" where
  "count m a = (case m a of None \<Rightarrow> 0 | Some n \<Rightarrow> n)"

definition journal_dirty :: "address \<Rightarrow> journal \<Rightarrow> journal" where
  "journal_dirty a j = j\<lparr>dirties := (dirties j)(a \<mapsto> count (dirties j) a + 1)\<rparr>"

definition journal_append :: "journalEntry \<Rightarrow> journal \<Rightarrow> journal" where
  "journal_append e j =
     (let j1 = j\<lparr>entries := entries j @ [e]\<rparr>
      in case dirtied e of None \<Rightarrow> j1 | Some a \<Rightarrow> journal_dirty a j1)"

definition journal_length :: "journal \<Rightarrow> nat" where
  "journal_length j = length (entries j)"

definition journal_undirty :: "journalEntry \<Rightarrow> journal \<Rightarrow> journal" where
  "journal_undirty e j =
     (case dirtied e of
        None \<Rightarrow> j
      | Some a \<Rightarrow>
          (let n = count (dirties j) a - 1
           in j\<lparr>dirties := (if n = 0 then (dirties j)(a := None) else (dirties j)(a \<mapsto> n))\<rparr>))"

section \<open>The state database\<close>

record revision =
  rev_id :: int
  journalIndex :: nat

record StateDB =
  stateReader :: StateReader
  stateObjects :: "address \<rightharpoonup> stateObject"
  stateObjectsDirty :: "address set"
  nilAccounts :: "address set"
  dbErr :: "db_error option"
  refund :: u64
  thash :: hash
  bhash :: hash
  txIndex :: u64
  logs :: "hash \<rightharpoonup> Log list"
  logSize :: u64
  preimages :: "hash \<rightharpoonup> bytes"
  sjournal :: journal
  validRevisions :: "revision list"
  nextRevisionId :: int

definition New :: "StateReader \<Rightarrow> StateDB" where
  "New r = \<lparr>stateReader = r, stateObjects = Map.empty, stateObjectsDirty = {},
     nilAccounts = {}, dbErr = None, refund = 0, thash = 0, bhash = 0, txIndex = 0,
     logs = Map.empty, logSize = 0, preimages = Map.empty, sjournal = newJournal,
     validRevisions = [], nextRevisionId = 0\<rparr>"

definition setError :: "db_error \<Rightarrow> StateDB \<Rightarrow> StateDB" where
  "setError err s = (if dbErr s = None then s\<lparr>dbErr := Some err\<rparr> else s)"

definition clearJournalAndRefund :: "StateDB \<Rightarrow> StateDB" where
  "clearJournalAndRefund s = s\<lparr>sjournal := newJournal, validRevisions := [], refund := 0\<rparr>"

definition Reset :: "StateDB \<Rightarrow> StateDB" where
  "Reset s = clearJournalAndRefund (s\<lparr>stateObjects := Map.empty, stateObjectsDirty := {},
     thash := 0, bhash := 0, txIndex := 0, logs := Map.empty, logSize := 0,
     preimages := Map.empty\<rparr>)"

definition Prepare :: "hash \<Rightarrow> hash \<Rightarrow> u64 \<Rightarrow> StateDB \<Rightarrow> StateDB" where
  "Prepare th bh ti s = s\<lparr>thash := th, bhash := bh, txIndex := ti\<rparr>"

text \<open>\<open>self.journal.append\<close>, and the write of a live object back to the map.\<close>

definition log_change :: "journalEntry \<Rightarrow> StateDB \<Rightarrow> StateDB" where
  "log_change e s = s\<lparr>sjournal := journal_append e (sjournal s)\<rparr>"

definition setStateObject :: "stateObject \<Rightarrow> StateDB \<Rightarrow> StateDB" where
  "setStateObject object s = s\<lparr>stateObjects := (stateObjects s)(so_address object \<mapsto> object)\<rparr>"

definition getStateObject :: "crypto \<Rightarrow> address \<Rightarrow> StateDB \<Rightarrow> StateDB \<times> stateObject option" where
  "getStateObject X addr s =
     (case stateObjects s addr of
        Some obj \<Rightarrow> if deleted obj then (s, None) else (s, Some obj)
      | None \<Rightarrow>
          if addr \<in> nilAccounts s then (s, None)
          else
            (case ReadAccountData (stateReader s) addr of
               Inl err \<Rightarrow> (setError err s, None)
             | Inr None \<Rightarrow> (s\<lparr>nilAccounts := insert addr (nilAccounts s)\<rparr>, None)
             | Inr (Some account) \<Rightarrow>
                 (let obj = newObject X addr account account
                  in (setStateObject obj s, Some obj))))"

definition createObject ::
  "crypto \<Rightarrow> address \<Rightarrow> stateObject option \<Rightarrow> StateDB \<Rightarrow> StateDB \<times> stateObject" where
  "createObject X addr previous s =
     (let account = (case previous of
            None \<Rightarrow> \<lparr>acc_Nonce = 0, acc_Balance = None, acc_Root = emptyRoot, acc_CodeHash = None\<rparr>
          | Some p \<Rightarrow> so_data p);
          original = (case previous of
            None \<Rightarrow> \<lparr>acc_Nonce = 0, acc_Balance = None, acc_Root = 0, acc_CodeHash = None\<rparr>
          | Some p \<Rightarrow> so_original p);
          newobj = so_setNonce 0 (newObject X addr account original);
          s1 = (case previous of
            None \<Rightarrow> log_change (createObjectChange addr) s
          | Some p \<Rightarrow> log_change (resetObjectChange p) s)
      in (setStateObject newobj s1, newobj))"

definition GetOrNewStateObject ::
  "crypto \<Rightarrow> address \<Rightarrow> StateDB \<Rightarrow> StateDB \<times> stateObject" where
  "GetOrNewStateObject X addr s =
     (case getStateObject X addr s of
        (s1, None) \<Rightarrow> createObject X addr None s1
      | (s1, Some obj) \<Rightarrow> if deleted obj then createObject X addr (Some obj) s1 else (s1, obj))"

definition CreateAccount :: "crypto \<Rightarrow> address \<Rightarrow> bool \<Rightarrow> StateDB \<Rightarrow> StateDB" where
  "CreateAccount X addr checkPrev s =
     (let (s1, previous) = (if checkPrev then getStateObject X addr s else (s, None));
          (s2, newObj) = createObject X addr previous s1
      in case previous of
           None \<Rightarrow> s2
         | Some p \<Rightarrow> setStateObject (so_setBalance (so_Balance p) newObj) s2)"

subsection \<open>Methods of a live object that journal their change\<close>

definition ripemd :: address where
  "ripemd = 3"

definition so_touch :: "stateObject \<Rightarrow> StateDB \<Rightarrow> StateDB" where
  "so_touch o1 s =
     (let s1 = log_change (touchChange (so_address o1)) s
      in if so_address o1 = ripemd
         then s1\<lparr>sjournal := journal_dirty (so_address o1) (sjournal s1)\<rparr> else s1)"

definition so_SetBalance :: "int \<Rightarrow> stateObject \<Rightarrow> StateDB \<Rightarrow> StateDB" where
  "so_SetBalance amount o1 s =
     setStateObject (so_setBalance amount o1)
       (log_change (balanceChange (so_address o1) (so_Balance o1)) s)"

definition so_AddBalance :: "crypto \<Rightarrow> int \<Rightarrow> stateObject \<Rightarrow> StateDB \<Rightarrow> StateDB" where
  "so_AddBalance X amount o1 s =
     (if amount = 0 then (if empty X o1 then so_touch o1 s else s)
      else so_SetBalance (so_Balance o1 + amount) o1 s)"

definition so_SubBalance :: "int \<Rightarrow> stateObject \<Rightarrow> StateDB \<Rightarrow> StateDB" where
  "so_SubBalance amount o1 s =
     (if amount = 0 then s else so_SetBalance (so_Balance o1 - amount) o1 s)"

definition so_SetNonce :: "u64 \<Rightarrow> stateObject \<Rightarrow> StateDB \<Rightarrow> StateDB" where
  "so_SetNonce nonce o1 s =
     setStateObject (so_setNonce nonce o1)
       (log_change (nonceChange (so_address o1) (so_Nonce o1)) s)"

definition so_SetState :: "hash \<Rightarrow> hash \<Rightarrow> stateObject \<Rightarrow> StateDB \<Rightarrow> StateDB" where
  "so_SetState key val o1 s =
     (let (o2, prev) = so_GetState (stateReader s) key o1
      in if prev = val then setStateObject o2 s
         else setStateObject (so_setState key val o2)
                (log_change (storageChange (so_address o1) key prev) s))"

definition so_SetCode :: "crypto \<Rightarrow> hash \<Rightarrow> bytes \<Rightarrow> stateObject \<Rightarrow> StateDB \<Rightarrow> StateDB" where
  "so_SetCode X codeHash code o1 s =
     (let (o2, prevcode) = so_Code X (stateReader s) o1
      in setStateObject (so_setCode codeHash (Some code) o2)
           (log_change (codeChange (so_address o1) prevcode (so_CodeHash o2)) s))"

subsection \<open>Getters\<close>

definition Exist :: "crypto \<Rightarrow> address \<Rightarrow> StateDB \<Rightarrow> StateDB \<times> bool" where
  "Exist X addr s = (let (s1, so) = getStateObject X addr s in (s1, so \<noteq> None))"

definition Empty :: "crypto \<Rightarrow> address \<Rightarrow> StateDB \<Rightarrow> StateDB \<times> bool" where
  "Empty X addr s =
     (let (s1, so) = getStateObject X addr s
      in (s1, case so of None \<Rightarrow> True | Some o1 \<Rightarrow> empty X o1))"

definition GetBalance :: "crypto \<Rightarrow> address \<Rightarrow> StateDB \<Rightarrow> StateDB \<times> int" where
  "GetBalance X addr s =
     (let (s1, so) = getStateObject X addr s
      in (s1, case so of None \<Rightarrow> 0 | Some o1 \<Rightarrow> so_Balance o1))"

definition GetNonce :: "crypto \<Rightarrow> address \<Rightarrow> StateDB \<Rightarrow> StateDB \<times> u64" where
  "GetNonce X addr s =
     (let (s1, so) = getStateObject X addr s
      in (s1, case so of None \<Rightarrow> 0 | Some o1 \<Rightarrow> so_Nonce o1))"

definition GetCode :: "crypto \<Rightarrow> address \<Rightarrow> StateDB \<Rightarrow> StateDB \<times> bytes" where
  "GetCode X addr s =
     (case getStateObject X addr s of
        (s1, None) \<Rightarrow> (s1, [])
      | (s1, Some o1) \<Rightarrow>
          (let (o2, c) = so_Code X (stateReader s1) o1
           in (setStateObject o2 s1, case c of None \<Rightarrow> [] | Some b \<Rightarrow> b)))"

definition GetCodeSize :: "crypto \<Rightarrow> address \<Rightarrow> StateDB \<Rightarrow> StateDB \<times> int" where
  "GetCodeSize X addr s =
     (case getStateObject X addr s of
        (s1, None) \<Rightarrow> (s1, 0)
      | (s1, Some o1) \<Rightarrow>
          (case so_code o1 of
             Some c \<Rightarrow> (s1, int (length c))
           | None \<Rightarrow>
               (case ReadAccountCodeSize (stateReader s1) (so_CodeHash o1) of
                  (len, err) \<Rightarrow>
                    (case err of None \<Rightarrow> (s1, len) | Some e \<Rightarrow> (setError e s1, len)))))"

definition GetCodeHash :: "crypto \<Rightarrow> address \<Rightarrow> StateDB \<Rightarrow> StateDB \<times> hash" where
  "GetCodeHash X addr s =
     (let (s1, so) = getStateObject X addr s
      in (s1, case so of None \<Rightarrow> 0 | Some o1 \<Rightarrow> so_CodeHash o1))"

definition GetState :: "crypto \<Rightarrow> address \<Rightarrow> hash \<Rightarrow> StateDB \<Rightarrow> StateDB \<times> hash" where
  "GetState X addr key s =
     (case getStateObject X addr s of
        (s1, None) \<Rightarrow> (s1, 0)
      | (s1, Some o1) \<Rightarrow>
          (let (o2, v) = so_GetState (stateReader s1) key o1 in (setStateObject o2 s1, v)))"

definition GetCommittedState :: "crypto \<Rightarrow> address \<Rightarrow> hash \<Rightarrow> StateDB \<Rightarrow> StateDB \<times> hash" where
  "GetCommittedState X addr key s =
     (case getStateObject X addr s of
        (s1, None) \<Rightarrow> (s1, 0)
      | (s1, Some o1) \<Rightarrow>
          (let (o2, v) = so_GetCommittedState (stateReader s1) key o1
           in (setStateObject o2 s1, v)))"

definition HasSuicided :: "crypto \<Rightarrow> address \<Rightarrow> StateDB \<Rightarrow> StateDB \<times> bool" where
  "HasSuicided X addr s =
     (let (s1, so) = getStateObject X addr s
      in (s1, case so of None \<Rightarrow> False | Some o1 \<Rightarrow> suicided o1))"

definition GetRefund :: "StateDB \<Rightarrow> u64" where
  "GetRefund s = refund s"

definition GetLogs :: "hash \<Rightarrow> StateDB \<Rightarrow> Log list" where
  "GetLogs h s = (case logs s h of None \<Rightarrow> [] | Some l \<Rightarrow> l)"

subsection \<open>Setters\<close>

definition AddBalance :: "crypto \<Rightarrow> address \<Rightarrow> int \<Rightarrow> StateDB \<Rightarrow> StateDB" where
  "AddBalance X addr amount s =
     (let (s1, o1) = GetOrNewStateObject X addr s in so_AddBalance X amount o1 s1)"

definition SubBalance :: "crypto \<Rightarrow> address \<Rightarrow> int \<Rightarrow> StateDB \<Rightarrow> StateDB" where
  "SubBalance X addr amount s =
     (let (s1, o1) = GetOrNewStateObject X addr s in so_SubBalance amount o1 s1)"

definition SetBalance :: "crypto \<Rightarrow> address \<Rightarrow> int \<Rightarrow> StateDB \<Rightarrow> StateDB" where
  "SetBalance X addr amount s =
     (let (s1, o1) = GetOrNewStateObject X addr s in so_SetBalance amount o1 s1)"

definition SetNonce :: "crypto \<Rightarrow> address \<Rightarrow> u64 \<Rightarrow> StateDB \<Rightarrow> StateDB" where
  "SetNonce X addr nonce s =
     (let (s1, o1) = GetOrNewStateObject X addr s in so_SetNonce nonce o1 s1)"

definition SetCode :: "crypto \<Rightarrow> address \<Rightarrow> bytes \<Rightarrow> StateDB \<Rightarrow> StateDB" where
  "SetCode X addr code s =
     (let (s1, o1) = GetOrNewStateObject X addr s in so_SetCode X (Keccak256 X code) code o1 s1)"

definition SetState :: "crypto \<Rightarrow> address \<Rightarrow> hash \<Rightarrow> hash \<Rightarrow> StateDB \<Rightarrow> StateDB" where
  "SetState X addr key val s =
     (let (s1, o1) = GetOrNewStateObject X addr s in so_SetState key val o1 s1)"

definition Suicide :: "crypto \<Rightarrow> address \<Rightarrow> StateDB \<Rightarrow> StateDB \<times> bool" where
  "Suicide X addr s =
     (case getStateObject X addr s of
        (s1, None) \<Rightarrow> (s1, False)
      | (s1, Some o1) \<Rightarrow>
          (setStateObject (so_setBalance 0 (markSuicided o1))
             (log_change (suicideChange addr (suicided o1) (so_Balance o1)) s1), True))"

definition AddLog :: "Log \<Rightarrow> StateDB \<Rightarrow> StateDB" where
  "AddLog l s =
     (let s1 = log_change (addLogChange (thash s)) s;
          l1 = l\<lparr>log_TxHash := thash s, log_BlockHash := bhash s, log_TxIndex := txIndex s,
                 log_Index := logSize s\<rparr>
      in s1\<lparr>logs := (logs s)(thash s \<mapsto> GetLogs (thash s) s @ [l1]), logSize := logSize s + 1\<rparr>)"

definition AddPreimage :: "hash \<Rightarrow> bytes \<Rightarrow> StateDB \<Rightarrow> StateDB" where
  "AddPreimage h preimage s =
     (if preimages s h = None
      then (log_change (addPreimageChange h) s)\<lparr>preimages := (preimages s)(h \<mapsto> preimage)\<rparr>
      else s)"

definition AddRefund :: "u64 \<Rightarrow> StateDB \<Rightarrow> StateDB" where
  "AddRefund gas s = (log_change (refundChange (refund s)) s)\<lparr>refund := refund s + gas\<rparr>"

definition SubRefund :: "u64 \<Rightarrow> StateDB \<Rightarrow> StateDB go" where
  "SubRefund gas s =
     (if gas > refund s then Panic
      else Ret ((log_change (refundChange (refund s)) s)\<lparr>refund := refund s - gas\<rparr>))"

subsection \<open>Snapshots\<close>

text \<open>Undoing one entry; a nil state object makes the method call panic.\<close>

definition on_object ::
  "crypto \<Rightarrow> address \<Rightarrow> (stateObject \<Rightarrow> stateObject) \<Rightarrow> StateDB \<Rightarrow> StateDB go" where
  "on_object X addr f s =
     (case getStateObject X addr s of
        (s1, None) \<Rightarrow> Panic
      | (s1, Some o1) \<Rightarrow> Ret (setStateObject (f o1) s1))"

fun revert_entry :: "crypto \<Rightarrow> journalEntry \<Rightarrow> StateDB \<Rightarrow> StateDB go" where
  "revert_entry X (createObjectChange a) s =
     Ret (s\<lparr>stateObjects := (stateObjects s)(a := None),
            stateObjectsDirty := stateObjectsDirty s - {a}\<rparr>)"
| "revert_entry X (resetObjectChange prev) s = Ret (setStateObject prev s)"
| "revert_entry X (suicideChange a prev prevbalance) s =
     (case getStateObject X a s of
        (s1, None) \<Rightarrow> Ret s1
      | (s1, Some o1) \<Rightarrow>
          Ret (setStateObject (so_setBalance prevbalance (o1\<lparr>suicided := prev\<rparr>)) s1))"
| "revert_entry X (touchChange a) s = Ret s"
| "revert_entry X (balanceChange a prev) s = on_object X a (so_setBalance prev) s"
| "revert_entry X (nonceChange a prev) s = on_object X a (so_setNonce prev) s"
| "revert_entry X (codeChange a prevcode prevhash) s = on_object X a (so_setCode prevhash prevcode) s"
| "revert_entry X (storageChange a key prevalue) s = on_object X a (so_setState key prevalue) s"
| "revert_entry X (refundChange prev) s = Ret (s\<lparr>refund := prev\<rparr>)"
| "revert_entry X (addLogChange h) s =
     (let l = GetLogs h s
      in if length l = 1 then Ret (s\<lparr>logs := (logs s)(h := None), logSize := logSize s - 1\<rparr>)
         else if l = [] then Panic
         else Ret (s\<lparr>logs := (logs s)(h \<mapsto> butlast l), logSize := logSize s - 1\<rparr>))"
| "revert_entry X (addPreimageChange h) s = Ret (s\<lparr>preimages := (preimages s)(h := None)\<rparr>)"

text \<open>The loop of \<open>journal.revert\<close> over the entries from the last one down; the entries that
  remain are cut afterwards. Cutting beyond the end of the entries is a panic here; the revisions
  the database records never ask for it.\<close>

fun revert_entries :: "crypto \<Rightarrow> journalEntry list \<Rightarrow> StateDB \<Rightarrow> StateDB go" where
  "revert_entries X [] s = Ret s"
| "revert_entries X (e # es) s =
     go_bind (revert_entry X e s)
       (\<lambda>s1. revert_entries X es (s1\<lparr>sjournal := journal_undirty e (sjournal s1)\<rparr>))"

definition journal_revert :: "crypto \<Rightarrow> nat \<Rightarrow> StateDB \<Rightarrow> StateDB go" where
  "journal_revert X snapshot s =
     (let es = entries (sjournal s)
      in if snapshot > length es then Panic
         else go_bind (revert_entries X (rev (drop snapshot es)) s)
           (\<lambda>s1. Ret (s1\<lparr>sjournal := (sjournal s1)\<lparr>entries := take snapshot es\<rparr>\<rparr>)))"

definition Snapshot :: "StateDB \<Rightarrow> StateDB \<times> int" where
  "Snapshot s =
     (let rid = nextRevisionId s
      in (s\<lparr>nextRevisionId := rid + 1,
            validRevisions := validRevisions s
              @ [\<lparr>rev_id = rid, journalIndex = journal_length (sjournal s)\<rparr>]\<rparr>, rid))"

text \<open>\<open>sort.Search\<close>: binary search for the least index where \<open>f\<close> holds.\<close>

function sort_Search :: "(nat \<Rightarrow> bool) \<Rightarrow> nat \<Rightarrow> nat \<Rightarrow> nat" where
  "sort_Search f i j =
     (if i < j then
        (let h = (i + j) div 2
         in if \<not> f h then sort_Search f (h + 1) j else sort_Search f i h)
      else i)"
  by pat_completeness auto
termination
  by (relation "measure (\<lambda>(f, i, j). j - i)") auto

declare sort_Search.simps [simp del]

definition RevertToSnapshot :: "crypto \<Rightarrow> int \<Rightarrow> StateDB \<Rightarrow> StateDB go" where
  "RevertToSnapshot X revid s =
     (let revs = validRevisions s;
          idx = sort_Search (\<lambda>i. rev_id (revs ! i) \<ge> revid) 0 (length revs)
      in if idx = length revs then Panic
         else if rev_id (revs ! idx) \<noteq> revid then Panic
         else go_bind (journal_revert X (journalIndex (revs ! idx)) s)
           (\<lambda>s1. Ret (s1\<lparr>validRevisions := take idx revs\<rparr>)))"

end
