(* ===== verification/StateView.thy ===== *)
theory StateView
  imports State "HOL-Library.Sublist"
begin

text \<open>
  The abstract world state that \<open>core/state\<close> implements, and the proof that it does. The view
  of a \<open>StateDB\<close> forgets caches, the journal and the database error; it keeps what a
  client can observe: per address the account (nonce, balance, code, storage, committed
  storage, whether it is marked suicided), the refund counter, the logs and the
  preimages. Getters leave the view alone, setters change it by the abstract
  operation, and undoing the entries a sequence of operations journals restores it.
\<close>

section \<open>The view\<close>

record account_view =
  v_nonce :: u64
  v_balance :: int
  v_codehash :: hash
  v_code :: bytes
  v_storage :: "hash \<Rightarrow> hash"
  v_committed :: "hash \<Rightarrow> hash"
  v_suicided :: bool

record state_view =
  accounts :: "address \<Rightarrow> account_view option"
  vrefund :: u64
  vlogs :: "hash \<Rightarrow> Log list"
  vlogSize :: u64
  vpreimages :: "hash \<Rightarrow> bytes option"

definition reader_storage :: "StateReader \<Rightarrow> address \<Rightarrow> hash \<Rightarrow> hash" where
  "reader_storage r a k = (case ReadAccountStorage r a k of
     Inl e \<Rightarrow> 0 | Inr None \<Rightarrow> 0 | Inr (Some enc) \<Rightarrow> BytesToHash enc)"

definition code_of :: "crypto \<Rightarrow> StateReader \<Rightarrow> hash \<Rightarrow> bytes option \<Rightarrow> bytes" where
  "code_of X r h c = (case c of
     Some b \<Rightarrow> b
   | None \<Rightarrow> if h = emptyCodeHash X then []
             else (case fst (ReadAccountCode r h) of None \<Rightarrow> [] | Some b \<Rightarrow> b))"

definition committed_of :: "StateReader \<Rightarrow> stateObject \<Rightarrow> hash \<Rightarrow> hash" where
  "committed_of r o1 k = (case originStorage o1 k of
     Some v \<Rightarrow> v | None \<Rightarrow> reader_storage r (so_address o1) k)"

definition storage_of :: "StateReader \<Rightarrow> stateObject \<Rightarrow> hash \<Rightarrow> hash" where
  "storage_of r o1 k = (case dirtyStorage o1 k of Some v \<Rightarrow> v | None \<Rightarrow> committed_of r o1 k)"

definition object_view :: "crypto \<Rightarrow> StateReader \<Rightarrow> stateObject \<Rightarrow> account_view" where
  "object_view X r o1 = \<lparr>v_nonce = so_Nonce o1, v_balance = so_Balance o1,
     v_codehash = so_CodeHash o1, v_code = code_of X r (so_CodeHash o1) (so_code o1),
     v_storage = storage_of r o1, v_committed = committed_of r o1, v_suicided = suicided o1\<rparr>"

text \<open>The account the reader holds, and the account a client sees.\<close>

definition reader_account :: "crypto \<Rightarrow> StateReader \<Rightarrow> address \<Rightarrow> account_view option" where
  "reader_account X r a = (case ReadAccountData r a of
     Inr (Some acc) \<Rightarrow> Some (object_view X r (newObject X a acc acc)) | _ \<Rightarrow> None)"

definition account_at :: "crypto \<Rightarrow> StateDB \<Rightarrow> address \<Rightarrow> account_view option" where
  "account_at X s a = (case stateObjects s a of
     Some o1 \<Rightarrow> if deleted o1 then None else Some (object_view X (stateReader s) o1)
   | None \<Rightarrow> reader_account X (stateReader s) a)"

definition view :: "crypto \<Rightarrow> StateDB \<Rightarrow> state_view" where
  "view X s = \<lparr>accounts = account_at X s, vrefund = refund s, vlogs = (\<lambda>h. GetLogs h s),
     vlogSize = logSize s, vpreimages = preimages s\<rparr>"

text \<open>An account that \<open>createObject\<close> makes from nothing.\<close>

definition fresh_account :: "crypto \<Rightarrow> StateReader \<Rightarrow> address \<Rightarrow> account_view" where
  "fresh_account X r a = \<lparr>v_nonce = 0, v_balance = 0, v_codehash = emptyCodeHash X, v_code = [],
     v_storage = reader_storage r a, v_committed = reader_storage r a, v_suicided = False\<rparr>"

definition get_or_fresh :: "crypto \<Rightarrow> StateReader \<Rightarrow> address \<Rightarrow> state_view \<Rightarrow> account_view" where
  "get_or_fresh X r a w = (case accounts w a of None \<Rightarrow> fresh_account X r a | Some v \<Rightarrow> v)"

definition put_account :: "address \<Rightarrow> account_view \<Rightarrow> state_view \<Rightarrow> state_view" where
  "put_account a v w = w\<lparr>accounts := (accounts w)(a := Some v)\<rparr>"

section \<open>Undoing an entry on the view\<close>

definition on_account ::
  "address \<Rightarrow> (account_view \<Rightarrow> account_view) \<Rightarrow> state_view \<Rightarrow> state_view option" where
  "on_account a f w =
     (case accounts w a of None \<Rightarrow> None | Some v \<Rightarrow> Some (put_account a (f v) w))"

fun undo :: "crypto \<Rightarrow> StateReader \<Rightarrow> journalEntry \<Rightarrow> state_view \<Rightarrow> state_view option" where
  "undo X r (createObjectChange a) w =
     Some (w\<lparr>accounts := (accounts w)(a := reader_account X r a)\<rparr>)"
| "undo X r (resetObjectChange p) w =
     (if deleted p then None else Some (put_account (so_address p) (object_view X r p) w))"
| "undo X r (suicideChange a prev prevbalance) w =
     on_account a (\<lambda>v. v\<lparr>v_suicided := prev, v_balance := prevbalance\<rparr>) w"
| "undo X r (touchChange a) w = Some w"
| "undo X r (balanceChange a prev) w = on_account a (\<lambda>v. v\<lparr>v_balance := prev\<rparr>) w"
| "undo X r (nonceChange a prev) w = on_account a (\<lambda>v. v\<lparr>v_nonce := prev\<rparr>) w"
| "undo X r (codeChange a prevcode prevhash) w =
     on_account a (\<lambda>v. v\<lparr>v_codehash := prevhash, v_code := code_of X r prevhash prevcode\<rparr>) w"
| "undo X r (storageChange a key prevalue) w =
     on_account a (\<lambda>v. v\<lparr>v_storage := (v_storage v)(key := prevalue)\<rparr>) w"
| "undo X r (refundChange prev) w = Some (w\<lparr>vrefund := prev\<rparr>)"
| "undo X r (addLogChange h) w =
     (if vlogs w h = [] then None
      else Some (w\<lparr>vlogs := (vlogs w)(h := butlast (vlogs w h)), vlogSize := vlogSize w - 1\<rparr>))"
| "undo X r (addPreimageChange h) w = Some (w\<lparr>vpreimages := (vpreimages w)(h := None)\<rparr>)"

fun undos :: "crypto \<Rightarrow> StateReader \<Rightarrow> journalEntry list \<Rightarrow> state_view \<Rightarrow> state_view option" where
  "undos X r [] w = Some w"
| "undos X r (e # es) w = (case undo X r e w of None \<Rightarrow> None | Some w1 \<Rightarrow> undos X r es w1)"

lemma undos_append:
  "undos X r (es @ fs) w = (case undos X r es w of None \<Rightarrow> None | Some w1 \<Rightarrow> undos X r fs w1)"
  by (induction es arbitrary: w) (auto split: option.splits)

section \<open>Well-formed databases\<close>

text \<open>
  Objects sit under their own address; an address remembered as absent is absent in the
  reader; the reader does not return an account that was deleted earlier in the block (the
  deletion has been written through the \<open>StateWriter\<close>); snapshot identifiers increase.
\<close>

definition revisions_ok :: "StateDB \<Rightarrow> bool" where
  "revisions_ok s \<longleftrightarrow> sorted_wrt (<) (map rev_id (validRevisions s))
     \<and> (\<forall>rv \<in> set (validRevisions s). rev_id rv < nextRevisionId s)"

definition wf_state :: "crypto \<Rightarrow> StateDB \<Rightarrow> bool" where
  "wf_state X s \<longleftrightarrow>
     (\<forall>a o1. stateObjects s a = Some o1 \<longrightarrow> so_address o1 = a)
     \<and> (\<forall>a o1. stateObjects s a = Some o1 \<and> deleted o1 \<longrightarrow> reader_account X (stateReader s) a = None)
     \<and> (\<forall>a \<in> nilAccounts s. reader_account X (stateReader s) a = None)
     \<and> revisions_ok s"

lemma wf_addr: "wf_state X s \<Longrightarrow> stateObjects s a = Some o1 \<Longrightarrow> so_address o1 = a"
  by (simp add: wf_state_def)

lemma wf_New: "wf_state X (New r)"
  by (simp add: wf_state_def New_def revisions_ok_def)

section \<open>Objects: reading fills caches only\<close>

lemma object_view_newObject:
  "object_view X r (newObject X a acc acc') = \<lparr>v_nonce = acc_Nonce acc,
     v_balance = (case acc_Balance acc of None \<Rightarrow> 0 | Some b \<Rightarrow> b),
     v_codehash = (case acc_CodeHash acc of None \<Rightarrow> emptyCodeHash X | Some h \<Rightarrow> h),
     v_code = code_of X r (case acc_CodeHash acc of None \<Rightarrow> emptyCodeHash X | Some h \<Rightarrow> h) None,
     v_storage = reader_storage r a, v_committed = reader_storage r a, v_suicided = False\<rparr>"
  by (simp add: object_view_def newObject_def storage_of_def committed_of_def fun_eq_iff)

lemma newObject_simps [simp]:
  "so_address (newObject X a d o1) = a" "deleted (newObject X a d o1) = False"
  by (simp_all add: newObject_def)

lemma so_setError_simps [simp]:
  "so_address (so_setError e o1) = so_address o1" "deleted (so_setError e o1) = deleted o1"
  "object_view X r (so_setError e o1) = object_view X r o1" "so_code (so_setError e o1) = so_code o1"
  "so_CodeHash (so_setError e o1) = so_CodeHash o1"
  by (auto simp: so_setError_def object_view_def storage_of_def committed_of_def fun_eq_iff
      split: option.splits)

lemma object_view_cache:
  assumes "originStorage o1 k = None" "v = reader_storage r (so_address o1) k"
  shows "object_view X r (o1\<lparr>originStorage := (originStorage o1)(k \<mapsto> v),
      blockOriginStorage := b\<rparr>) = object_view X r o1"
  using assms
  by (simp add: object_view_def storage_of_def committed_of_def fun_eq_iff split: option.splits)

lemma so_GetCommittedState_view:
  assumes "so_GetCommittedState r k o1 = (o2, v)"
  shows "object_view X r o2 = object_view X r o1 \<and> v = committed_of r o1 k
    \<and> so_address o2 = so_address o1 \<and> deleted o2 = deleted o1"
proof (cases "originStorage o1 k")
  case None
  show ?thesis
  proof (cases "ReadAccountStorage r (so_address o1) k")
    case (Inl e)
    with assms None show ?thesis
      by (auto simp: so_GetCommittedState_def committed_of_def reader_storage_def)
  next
    case (Inr enc)
    then have "(case enc of None \<Rightarrow> 0 | Some e \<Rightarrow> BytesToHash e) = reader_storage r (so_address o1) k"
      by (simp add: reader_storage_def split: option.splits)
    with assms None Inr show ?thesis
      by (auto simp: so_GetCommittedState_def Let_def object_view_cache committed_of_def)
  qed
next
  case (Some w)
  with assms show ?thesis
    by (simp add: so_GetCommittedState_def committed_of_def)
qed

lemma so_GetState_view:
  assumes "so_GetState r k o1 = (o2, v)"
  shows "object_view X r o2 = object_view X r o1 \<and> v = storage_of r o1 k
    \<and> so_address o2 = so_address o1 \<and> deleted o2 = deleted o1"
proof (cases "dirtyStorage o1 k")
  case None
  with assms so_GetCommittedState_view [of r k o1 o2 v X] show ?thesis
    by (simp add: so_GetState_def storage_of_def)
next
  case (Some w)
  with assms show ?thesis
    by (simp add: so_GetState_def storage_of_def)
qed

lemma object_view_code:
  assumes "code_of X r (so_CodeHash o1) c = code_of X r (so_CodeHash o1) (so_code o1)"
  shows "object_view X r (o1\<lparr>so_code := c\<rparr>) = object_view X r o1"
  using assms
  by (simp add: object_view_def storage_of_def committed_of_def fun_eq_iff split: option.splits)

lemma so_Code_view:
  assumes "so_Code X r o1 = (o2, c)"
  shows "object_view X r o2 = object_view X r o1
    \<and> code_of X r (so_CodeHash o1) c = code_of X r (so_CodeHash o1) (so_code o1)
    \<and> so_address o2 = so_address o1 \<and> deleted o2 = deleted o1 \<and> so_CodeHash o2 = so_CodeHash o1
    \<and> (case c of None \<Rightarrow> [] | Some b \<Rightarrow> b) = code_of X r (so_CodeHash o1) (so_code o1)"
proof (cases "so_code o1 \<noteq> None \<or> so_CodeHash o1 = emptyCodeHash X")
  case True
  with assms show ?thesis
    by (auto simp: so_Code_def code_of_def split: option.splits)
next
  case False
  obtain d err where de: "ReadAccountCode r (so_CodeHash o1) = (d, err)"
    by fastforce
  let ?o = "case err of None \<Rightarrow> o1 | Some e \<Rightarrow> so_setError (CodeLoadError (so_CodeHash o1) e) o1"
  have o: "object_view X r ?o = object_view X r o1" "so_address ?o = so_address o1"
    "deleted ?o = deleted o1" "so_CodeHash ?o = so_CodeHash o1" "so_code ?o = so_code o1"
    by (simp_all split: option.splits)
  have "c = d" "o2 = ?o\<lparr>so_code := d\<rparr>"
    using assms False de by (auto simp: so_Code_def Let_def split: option.splits)
  moreover have "code_of X r (so_CodeHash o1) d = code_of X r (so_CodeHash o1) (so_code o1)"
    using False de by (simp add: code_of_def split: option.splits)
  moreover have "(case d of None \<Rightarrow> [] | Some b \<Rightarrow> b) = code_of X r (so_CodeHash o1) (so_code o1)"
    using False de by (simp add: code_of_def)
  ultimately show ?thesis
    using o object_view_code [of X r ?o d] by simp
qed

section \<open>Relations between databases\<close>

text \<open>\<open>quiet\<close>: only caches and the memoised error may differ. \<open>extends\<close>: the second database
  comes from the first by journalled changes, which the new entries undo.\<close>

definition quiet :: "crypto \<Rightarrow> StateDB \<Rightarrow> StateDB \<Rightarrow> bool" where
  "quiet X s s' \<longleftrightarrow> wf_state X s' \<and> stateReader s' = stateReader s \<and> view X s' = view X s
     \<and> entries (sjournal s') = entries (sjournal s) \<and> validRevisions s' = validRevisions s
     \<and> nextRevisionId s \<le> nextRevisionId s'"

definition extends :: "crypto \<Rightarrow> StateDB \<Rightarrow> StateDB \<Rightarrow> bool" where
  "extends X s s' \<longleftrightarrow> wf_state X s' \<and> stateReader s' = stateReader s
     \<and> (\<exists>es. entries (sjournal s') = entries (sjournal s) @ es
           \<and> undos X (stateReader s) (rev es) (view X s') = Some (view X s))
     \<and> prefix (validRevisions s) (validRevisions s')
     \<and> nextRevisionId s \<le> nextRevisionId s'"

lemma quiet_refl: "wf_state X s \<Longrightarrow> quiet X s s"
  by (simp add: quiet_def)

lemma quiet_trans: "quiet X s t \<Longrightarrow> quiet X t u \<Longrightarrow> quiet X s u"
  by (simp add: quiet_def)

lemma quiet_extends: "quiet X s t \<Longrightarrow> extends X s t"
  by (simp add: quiet_def extends_def)

lemma extends_refl: "wf_state X s \<Longrightarrow> extends X s s"
  by (simp add: quiet_extends quiet_refl)

lemma extends_trans:
  assumes "extends X s t" "extends X t u"
  shows "extends X s u"
proof -
  obtain es where es: "entries (sjournal t) = entries (sjournal s) @ es"
    "undos X (stateReader s) (rev es) (view X t) = Some (view X s)"
    using assms(1) by (auto simp: extends_def)
  obtain fs where fs: "entries (sjournal u) = entries (sjournal t) @ fs"
    "undos X (stateReader s) (rev fs) (view X u) = Some (view X t)"
    using assms by (auto simp: extends_def)
  have "entries (sjournal u) = entries (sjournal s) @ es @ fs"
    "undos X (stateReader s) (rev (es @ fs)) (view X u) = Some (view X s)"
    using es fs by (simp_all add: undos_append)
  then show ?thesis
    using assms by (auto simp: extends_def intro: prefix_order.trans)
qed

lemma extends_wf: "extends X s t \<Longrightarrow> wf_state X t"
  by (simp add: extends_def)

lemma quiet_wf: "quiet X s t \<Longrightarrow> wf_state X t"
  by (simp add: quiet_def)

lemma extends_reader: "extends X s t \<Longrightarrow> stateReader t = stateReader s"
  by (simp add: extends_def)

lemma quiet_reader: "quiet X s t \<Longrightarrow> stateReader t = stateReader s"
  by (simp add: quiet_def)

lemma quiet_view: "quiet X s t \<Longrightarrow> view X t = view X s"
  by (simp add: quiet_def)

section \<open>Building blocks\<close>

lemma account_at_cong:
  "stateReader s' = stateReader s \<Longrightarrow> stateObjects s' = stateObjects s \<Longrightarrow> account_at X s' = account_at X s"
  by (rule ext) (simp only: account_at_def)

lemma view_cong:
  assumes "stateReader s' = stateReader s" "stateObjects s' = stateObjects s" "refund s' = refund s"
    "logs s' = logs s" "logSize s' = logSize s" "preimages s' = preimages s"
  shows "view X s' = view X s"
  using assms account_at_cong [of s' s X] by (simp add: view_def GetLogs_def)

lemma wf_cong:
  assumes "stateReader s' = stateReader s" "stateObjects s' = stateObjects s"
    "nilAccounts s' = nilAccounts s" "validRevisions s' = validRevisions s"
    "nextRevisionId s' = nextRevisionId s"
  shows "wf_state X s' = wf_state X s"
  using assms by (simp add: wf_state_def revisions_ok_def)

lemma wf_setStateObject: "wf_state X s \<Longrightarrow> \<not> deleted o1 \<Longrightarrow> wf_state X (setStateObject o1 s)"
  by (auto simp: wf_state_def setStateObject_def revisions_ok_def)

lemma view_setStateObject:
  "\<not> deleted o1 \<Longrightarrow> view X (setStateObject o1 s)
     = put_account (so_address o1) (object_view X (stateReader s) o1) (view X s)"
  by (simp add: view_def put_account_def setStateObject_def account_at_def GetLogs_def fun_eq_iff
      split: option.splits)

lemma setStateObject_simps [simp]:
  "stateReader (setStateObject o1 s) = stateReader s" "sjournal (setStateObject o1 s) = sjournal s"
  "validRevisions (setStateObject o1 s) = validRevisions s"
  "nextRevisionId (setStateObject o1 s) = nextRevisionId s"
  "stateObjects (setStateObject o1 s) (so_address o1) = Some o1"
  by (simp_all add: setStateObject_def)

lemma entries_journal_append [simp]: "entries (journal_append e j) = entries j @ [e]"
  by (simp add: journal_append_def journal_dirty_def Let_def split: option.splits)

lemma view_log_change [simp]: "view X (log_change e s) = view X s"
  by (rule view_cong) (simp_all add: log_change_def)

lemma wf_log_change [simp]: "wf_state X (log_change e s) = wf_state X s"
  by (rule wf_cong) (simp_all add: log_change_def)

lemma log_change_simps [simp]:
  "stateReader (log_change e s) = stateReader s"
  "validRevisions (log_change e s) = validRevisions s"
  "nextRevisionId (log_change e s) = nextRevisionId s"
  "stateObjects (log_change e s) = stateObjects s"
  "entries (sjournal (log_change e s)) = entries (sjournal s) @ [e]"
  by (simp_all add: log_change_def)

lemma put_account_same: "accounts w a = Some v \<Longrightarrow> put_account a v w = w"
  by (simp add: put_account_def fun_upd_idem)

lemma put_account_put_account [simp]: "put_account a v (put_account a u w) = put_account a v w"
  by (simp add: put_account_def)

lemma accounts_put_account [simp]: "accounts (put_account a v w) a = Some v"
  by (simp add: put_account_def)

lemma accounts_view: "accounts (view X s) = account_at X s"
  by (simp add: view_def)

lemma account_at_live:
  "stateObjects s a = Some o1 \<Longrightarrow> \<not> deleted o1 \<Longrightarrow> account_at X s a = Some (object_view X (stateReader s) o1)"
  by (simp add: account_at_def)

lemma view_setError [simp]: "view X (setError e s) = view X s"
  by (rule view_cong) (simp_all add: setError_def)

lemma wf_setError [simp]: "wf_state X (setError e s) = wf_state X s"
  by (rule wf_cong) (simp_all add: setError_def)

lemma setError_simps [simp]:
  "stateReader (setError e s) = stateReader s" "sjournal (setError e s) = sjournal s"
  "validRevisions (setError e s) = validRevisions s"
  "nextRevisionId (setError e s) = nextRevisionId s"
  by (simp_all add: setError_def)

lemma quiet_setError: "wf_state X s \<Longrightarrow> quiet X s (setError e s)"
  by (simp add: quiet_def)

text \<open>Writing back an object whose view did not change.\<close>

lemma quiet_put:
  assumes "wf_state X s" "account_at X s (so_address o1) = Some (object_view X (stateReader s) o1)"
    "\<not> deleted o1"
  shows "quiet X s (setStateObject o1 s)"
  using assms
  by (simp add: quiet_def wf_setStateObject view_setStateObject put_account_same accounts_view)

text \<open>A journalled change of one object.\<close>

lemma extends_put:
  assumes "wf_state X s" "\<not> deleted o1"
    and "undo X (stateReader s) e
      (put_account (so_address o1) (object_view X (stateReader s) o1) (view X s)) = Some (view X s)"
  shows "extends X s (setStateObject o1 (log_change e s))"
  using assms
  by (simp add: extends_def wf_setStateObject view_setStateObject)

lemma undo_on_account:
  assumes "account_at X s a = Some v" "f u = v"
  shows "on_account a f (put_account a u (view X s)) = Some (view X s)"
  using assms by (simp add: on_account_def put_account_same accounts_view)

section \<open>Looking up and creating objects\<close>

lemma getStateObject_spec:
  assumes "wf_state X s" "getStateObject X a s = (s1, res)"
  shows "quiet X s s1 \<and> (case res of
     None \<Rightarrow> account_at X s a = None
   | Some o1 \<Rightarrow> stateObjects s1 a = Some o1 \<and> \<not> deleted o1 \<and> so_address o1 = a
       \<and> account_at X s a = Some (object_view X (stateReader s) o1))"
proof (cases "stateObjects s a")
  case (Some o1)
  then have "s1 = s" "res = (if deleted o1 then None else Some o1)"
    using assms(2) by (auto simp: getStateObject_def split: if_splits)
  with assms(1) Some show ?thesis
    by (simp add: account_at_def quiet_refl wf_addr)
next
  case None
  show ?thesis
  proof (cases "a \<in> nilAccounts s")
    case True
    then have "reader_account X (stateReader s) a = None"
      using assms(1) by (simp add: wf_state_def)
    moreover have "s1 = s" "res = None"
      using assms(2) None True by (simp_all add: getStateObject_def)
    ultimately show ?thesis
      using assms(1) None by (simp add: quiet_refl account_at_def)
  next
    case False
    show ?thesis
    proof (cases "ReadAccountData (stateReader s) a")
      case (Inl e)
      then have "s1 = setError e s" "res = None"
        using assms(2) None False by (simp_all add: getStateObject_def)
      with assms(1) None Inl show ?thesis
        by (simp add: quiet_setError account_at_def reader_account_def)
    next
      case (Inr acc)
      show ?thesis
      proof (cases acc)
        case no: None
        let ?s = "s\<lparr>nilAccounts := insert a (nilAccounts s)\<rparr>"
        have "view X ?s = view X s"
          by (rule view_cong) simp_all
        moreover have "wf_state X ?s"
          using assms(1) Inr no by (simp add: wf_state_def revisions_ok_def reader_account_def)
        ultimately have "quiet X s ?s"
          by (simp add: quiet_def)
        moreover have "s1 = s\<lparr>nilAccounts := insert a (nilAccounts s)\<rparr>" "res = None"
          using assms(2) None False Inr no by (simp_all add: getStateObject_def)
        ultimately show ?thesis
          using None Inr no by (simp add: account_at_def reader_account_def)
      next
        case (Some d)
        let ?o = "newObject X a d d"
        have "account_at X s a = Some (object_view X (stateReader s) ?o)"
          using None Inr Some by (simp add: account_at_def reader_account_def)
        moreover have "s1 = setStateObject ?o s" "res = Some ?o"
          using assms(2) None False Inr Some by (auto simp: getStateObject_def Let_def)
        ultimately show ?thesis
          using quiet_put [OF assms(1), of ?o] setStateObject_simps(5) [of ?o s] by simp
      qed
    qed
  qed
qed

lemma object_view_create_None:
  "object_view X r (so_setNonce 0 (newObject X a
     \<lparr>acc_Nonce = 0, acc_Balance = None, acc_Root = h, acc_CodeHash = None\<rparr> orig))
   = fresh_account X r a"
  by (simp add: so_setNonce_def newObject_def object_view_def fresh_account_def code_of_def
      storage_of_def committed_of_def fun_eq_iff)

lemma createObject_None:
  assumes "wf_state X s" "createObject X a None s = (s1, o1)"
    and "account_at X s a = None" "reader_account X (stateReader s) a = None"
  shows "extends X s s1 \<and> stateObjects s1 a = Some o1 \<and> \<not> deleted o1 \<and> so_address o1 = a
    \<and> object_view X (stateReader s) o1 = fresh_account X (stateReader s) a
    \<and> view X s1 = put_account a (fresh_account X (stateReader s) a) (view X s)"
proof -
  let ?o = "so_setNonce 0 (newObject X a
     \<lparr>acc_Nonce = 0, acc_Balance = None, acc_Root = emptyRoot, acc_CodeHash = None\<rparr>
     \<lparr>acc_Nonce = 0, acc_Balance = None, acc_Root = 0, acc_CodeHash = None\<rparr>)"
  have o: "so_address ?o = a" "\<not> deleted ?o"
    by (simp_all add: so_setNonce_def)
  have "s1 = setStateObject ?o (log_change (createObjectChange a) s)" "o1 = ?o"
    using assms(2) by (auto simp: createObject_def Let_def)
  moreover have "extends X s (setStateObject ?o (log_change (createObjectChange a) s))"
    using assms(1,3,4) o
    by (intro extends_put) (simp_all add: put_account_def view_def fun_upd_idem)
  ultimately show ?thesis
    using o setStateObject_simps(5) [of ?o] by (simp add: view_setStateObject object_view_create_None)
qed

lemma account_None_reader:
  assumes "wf_state X s" "account_at X s a = None"
  shows "reader_account X (stateReader s) a = None"
  using assms by (auto simp: account_at_def wf_state_def split: option.splits if_splits)

lemma GetOrNewStateObject_spec:
  assumes "wf_state X s" "GetOrNewStateObject X a s = (s1, o1)"
  shows "extends X s s1 \<and> stateObjects s1 a = Some o1 \<and> \<not> deleted o1 \<and> so_address o1 = a
    \<and> object_view X (stateReader s) o1 = get_or_fresh X (stateReader s) a (view X s)
    \<and> view X s1 = put_account a (get_or_fresh X (stateReader s) a (view X s)) (view X s)"
proof -
  obtain s2 res where g: "getStateObject X a s = (s2, res)" by fastforce
  note spec = getStateObject_spec [OF assms(1) g]
  show ?thesis
  proof (cases res)
    case None
    with spec have q: "quiet X s s2" and no: "account_at X s a = None" by simp_all
    have "createObject X a None s2 = (s1, o1)"
      using assms(2) g None by (simp add: GetOrNewStateObject_def)
    moreover have "account_at X s2 a = None"
      using no quiet_view [OF q] by (simp flip: accounts_view)
    ultimately have "extends X s2 s1 \<and> stateObjects s1 a = Some o1 \<and> \<not> deleted o1 \<and> so_address o1 = a
      \<and> object_view X (stateReader s2) o1 = fresh_account X (stateReader s2) a
      \<and> view X s1 = put_account a (fresh_account X (stateReader s2) a) (view X s2)"
      using createObject_None account_None_reader quiet_wf [OF q] by blast
    then show ?thesis
      using q no extends_trans [OF quiet_extends [OF q]]
      by (simp add: quiet_reader quiet_view get_or_fresh_def accounts_view)
  next
    case (Some o2)
    with spec have q: "quiet X s s2" and o2: "stateObjects s2 a = Some o2" "\<not> deleted o2"
      "so_address o2 = a" "account_at X s a = Some (object_view X (stateReader s) o2)"
      by simp_all
    have "s1 = s2" "o1 = o2"
      using assms(2) g Some o2(2) by (simp_all add: GetOrNewStateObject_def)
    then show ?thesis
      using q o2 by (simp add: get_or_fresh_def accounts_view quiet_extends quiet_view put_account_same)
  qed
qed

section \<open>The operations refine their abstract counterparts\<close>

definition upd_account ::
  "crypto \<Rightarrow> StateReader \<Rightarrow> address \<Rightarrow> (account_view \<Rightarrow> account_view) \<Rightarrow> state_view \<Rightarrow> state_view" where
  "upd_account X r a f w = put_account a (f (get_or_fresh X r a w)) w"

definition live :: "StateDB \<Rightarrow> address \<Rightarrow> stateObject \<Rightarrow> bool" where
  "live s a o1 \<longleftrightarrow> stateObjects s a = Some o1 \<and> \<not> deleted o1 \<and> so_address o1 = a"

lemma live_account: "live s a o1 \<Longrightarrow> account_at X s a = Some (object_view X (stateReader s) o1)"
  by (simp add: live_def account_at_live)

lemma object_view_set [simp]:
  "object_view X r (so_setBalance b o1) = (object_view X r o1)\<lparr>v_balance := b\<rparr>"
  "object_view X r (so_setNonce n o1) = (object_view X r o1)\<lparr>v_nonce := n\<rparr>"
  "object_view X r (so_setState k v o1)
     = (object_view X r o1)\<lparr>v_storage := (v_storage (object_view X r o1))(k := v)\<rparr>"
  "object_view X r (so_setCode h c o1)
     = (object_view X r o1)\<lparr>v_codehash := h, v_code := code_of X r h c\<rparr>"
  "object_view X r (markSuicided o1) = (object_view X r o1)\<lparr>v_suicided := True\<rparr>"
  "object_view X r (o1\<lparr>suicided := b'\<rparr>) = (object_view X r o1)\<lparr>v_suicided := b'\<rparr>"
  by (auto simp: object_view_def so_setBalance_def so_setNonce_def so_setState_def so_setCode_def
      markSuicided_def storage_of_def committed_of_def fun_eq_iff split: option.splits)

lemma object_set_simps [simp]:
  "so_address (so_setBalance b o1) = so_address o1" "deleted (so_setBalance b o1) = deleted o1"
  "so_address (so_setNonce n o1) = so_address o1" "deleted (so_setNonce n o1) = deleted o1"
  "so_address (so_setState k v o1) = so_address o1" "deleted (so_setState k v o1) = deleted o1"
  "so_address (so_setCode h c o1) = so_address o1" "deleted (so_setCode h c o1) = deleted o1"
  "so_address (markSuicided o1) = so_address o1" "deleted (markSuicided o1) = deleted o1"
  by (simp_all add: so_setBalance_def so_setNonce_def so_setState_def so_setCode_def markSuicided_def)

lemma v_object_view [simp]:
  "v_balance (object_view X r o1) = so_Balance o1" "v_nonce (object_view X r o1) = so_Nonce o1"
  "v_codehash (object_view X r o1) = so_CodeHash o1" "v_suicided (object_view X r o1) = suicided o1"
  "v_storage (object_view X r o1) = storage_of r o1" "v_committed (object_view X r o1) = committed_of r o1"
  "v_code (object_view X r o1) = code_of X r (so_CodeHash o1) (so_code o1)"
  by (simp_all add: object_view_def)

lemma view_upd_idem:
  "v_balance v = b \<Longrightarrow> v\<lparr>v_balance := b\<rparr> = v" "v_nonce v = n \<Longrightarrow> v\<lparr>v_nonce := n\<rparr> = v"
  "v_storage v = st \<Longrightarrow> v\<lparr>v_storage := st\<rparr> = v" "v_suicided v = d \<Longrightarrow> v\<lparr>v_suicided := d\<rparr> = v"
  "v_codehash v = h \<Longrightarrow> v_code v = c \<Longrightarrow> v\<lparr>v_codehash := h, v_code := c\<rparr> = v"
  "v_balance v = b \<Longrightarrow> v_suicided v = d \<Longrightarrow> v\<lparr>v_balance := b, v_suicided := d\<rparr> = v"
  by (cases v; simp)+

subsection \<open>Changes of a live object\<close>

lemma live_extends:
  assumes "wf_state X s" "live s a o1" "so_address o2 = a" "\<not> deleted o2"
    and "undo X (stateReader s) e = on_account a f"
    and "f (object_view X (stateReader s) o2) = object_view X (stateReader s) o1"
  shows "extends X s (setStateObject o2 (log_change e s))
    \<and> view X (setStateObject o2 (log_change e s))
        = put_account a (object_view X (stateReader s) o2) (view X s)"
proof -
  have "undo X (stateReader s) e (put_account (so_address o2) (object_view X (stateReader s) o2) (view X s))
      = Some (view X s)"
    using assms live_account by (simp add: undo_on_account)
  then show ?thesis
    using assms by (simp add: extends_put view_setStateObject)
qed

lemma so_SetBalance_spec:
  assumes "wf_state X s" "live s a o1"
  shows "extends X s (so_SetBalance b o1 s) \<and> view X (so_SetBalance b o1 s)
    = put_account a ((object_view X (stateReader s) o1)\<lparr>v_balance := b\<rparr>) (view X s)"
proof -
  have "so_address o1 = a" "\<not> deleted o1"
    using assms(2) by (simp_all add: live_def)
  then show ?thesis
    using live_extends [OF assms, of "so_setBalance b o1" "balanceChange a (so_Balance o1)"
        "\<lambda>v. v\<lparr>v_balance := so_Balance o1\<rparr>"]
    by (simp add: so_SetBalance_def fun_eq_iff view_upd_idem)
qed

lemma so_SetNonce_spec:
  assumes "wf_state X s" "live s a o1"
  shows "extends X s (so_SetNonce n o1 s) \<and> view X (so_SetNonce n o1 s)
    = put_account a ((object_view X (stateReader s) o1)\<lparr>v_nonce := n\<rparr>) (view X s)"
proof -
  have "so_address o1 = a" "\<not> deleted o1"
    using assms(2) by (simp_all add: live_def)
  then show ?thesis
    using live_extends [OF assms, of "so_setNonce n o1" "nonceChange a (so_Nonce o1)"
        "\<lambda>v. v\<lparr>v_nonce := so_Nonce o1\<rparr>"]
    by (simp add: so_SetNonce_def fun_eq_iff view_upd_idem)
qed

lemma so_SetState_spec:
  assumes "wf_state X s" "live s a o1"
  shows "extends X s (so_SetState k v o1 s) \<and> view X (so_SetState k v o1 s)
    = put_account a ((object_view X (stateReader s) o1)\<lparr>v_storage := (storage_of (stateReader s) o1)(k := v)\<rparr>)
        (view X s)"
proof -
  obtain o2 prev where g: "so_GetState (stateReader s) k o1 = (o2, prev)" by fastforce
  note spec = so_GetState_view [OF g, of X]
  have o2: "so_address o2 = a" "\<not> deleted o2"
    using assms(2) spec by (simp_all add: live_def)
  have q: "quiet X s (setStateObject o2 s)"
    using assms spec o2 live_account [OF assms(2), of X] by (intro quiet_put) simp_all
  show ?thesis
  proof (cases "prev = v")
    case True
    then have "(object_view X (stateReader s) o1)\<lparr>v_storage := (storage_of (stateReader s) o1)(k := v)\<rparr>
        = object_view X (stateReader s) o1"
      using spec by (simp add: object_view_def fun_upd_idem)
    then show ?thesis
      using True q live_account [OF assms(2), of X] g
      by (simp add: so_SetState_def quiet_extends quiet_view put_account_same accounts_view)
  next
    case False
    have same: "storage_of (stateReader s) o2 = storage_of (stateReader s) o1"
      using spec by (metis v_object_view(5))
    then show ?thesis
      using live_extends [OF assms, of "so_setState k v o2" "storageChange a k prev"
          "\<lambda>u. u\<lparr>v_storage := (v_storage u)(k := prev)\<rparr>"] False g o2 spec assms(2)
      by (simp add: so_SetState_def fun_eq_iff [where f = "undo _ _ _"] live_def view_upd_idem)
  qed
qed

lemma so_SetCode_spec:
  assumes "wf_state X s" "live s a o1"
  shows "extends X s (so_SetCode X h c o1 s) \<and> view X (so_SetCode X h c o1 s)
    = put_account a ((object_view X (stateReader s) o1)\<lparr>v_codehash := h, v_code := c\<rparr>) (view X s)"
proof -
  obtain o2 prev where g: "so_Code X (stateReader s) o1 = (o2, prev)" by fastforce
  note spec = so_Code_view [OF g]
  have o1: "so_address o1 = a" "\<not> deleted o1"
    using assms(2) by (simp_all add: live_def)
  have "code_of X (stateReader s) h (Some c) = c"
    by (simp add: code_of_def)
  then show ?thesis
    using live_extends [OF assms, of "so_setCode h (Some c) o2" "codeChange a prev (so_CodeHash o1)"
        "\<lambda>u. u\<lparr>v_codehash := so_CodeHash o1, v_code := code_of X (stateReader s) (so_CodeHash o1) prev\<rparr>"]
      o1 spec g
    by (simp add: so_SetCode_def fun_eq_iff [where f = "undo _ _ _"] view_upd_idem)
qed

lemma so_touch_extends:
  assumes "wf_state X s"
  shows "extends X s (so_touch o1 s) \<and> view X (so_touch o1 s) = view X s"
proof -
  have "view X (so_touch o1 s) = view X s"
    by (rule view_cong) (simp_all add: so_touch_def Let_def log_change_def)
  moreover have "wf_state X (so_touch o1 s) = wf_state X s"
    by (rule wf_cong) (simp_all add: so_touch_def Let_def log_change_def)
  moreover have "entries (sjournal (so_touch o1 s)) = entries (sjournal s) @ [touchChange (so_address o1)]"
    by (simp add: so_touch_def Let_def log_change_def journal_dirty_def)
  ultimately show ?thesis
    using assms by (simp add: extends_def) (simp add: so_touch_def Let_def log_change_def)
qed

subsection \<open>Setters of the database\<close>

lemma GetOrNew_live:
  assumes "wf_state X s" "GetOrNewStateObject X a s = (s1, o1)"
  shows "extends X s s1" "live s1 a o1" "wf_state X s1" "stateReader s1 = stateReader s"
    "object_view X (stateReader s) o1 = get_or_fresh X (stateReader s) a (view X s)"
    "view X s1 = put_account a (get_or_fresh X (stateReader s) a (view X s)) (view X s)"
  using GetOrNewStateObject_spec [OF assms] by (auto simp: live_def intro: extends_wf extends_reader)

lemma SetBalance_refines:
  assumes "wf_state X s"
  shows "extends X s (SetBalance X a b s) \<and> view X (SetBalance X a b s)
    = upd_account X (stateReader s) a (\<lambda>v. v\<lparr>v_balance := b\<rparr>) (view X s)"
proof -
  obtain s1 o1 where g: "GetOrNewStateObject X a s = (s1, o1)" by fastforce
  note spec = GetOrNew_live [OF assms g]
  show ?thesis
    using so_SetBalance_spec [OF spec(3,2), of b] spec extends_trans [OF spec(1)]
    by (simp add: SetBalance_def g upd_account_def)
qed

lemma AddBalance_refines:
  assumes "wf_state X s"
  shows "extends X s (AddBalance X a b s) \<and> view X (AddBalance X a b s)
    = upd_account X (stateReader s) a (\<lambda>v. v\<lparr>v_balance := v_balance v + b\<rparr>) (view X s)"
proof -
  obtain s1 o1 where g: "GetOrNewStateObject X a s = (s1, o1)" by fastforce
  note spec = GetOrNew_live [OF assms g]
  have bal: "so_Balance o1 = v_balance (get_or_fresh X (stateReader s) a (view X s))"
    using spec(5) by (metis v_object_view(1))
  show ?thesis
    using so_SetBalance_spec [OF spec(3,2), of "so_Balance o1 + b"] so_touch_extends [OF spec(3), of o1]
      spec extends_trans [OF spec(1)] bal
    by (simp add: AddBalance_def so_AddBalance_def g upd_account_def view_upd_idem)
qed

lemma SubBalance_refines:
  assumes "wf_state X s"
  shows "extends X s (SubBalance X a b s) \<and> view X (SubBalance X a b s)
    = upd_account X (stateReader s) a (\<lambda>v. v\<lparr>v_balance := v_balance v - b\<rparr>) (view X s)"
proof -
  obtain s1 o1 where g: "GetOrNewStateObject X a s = (s1, o1)" by fastforce
  note spec = GetOrNew_live [OF assms g]
  have bal: "so_Balance o1 = v_balance (get_or_fresh X (stateReader s) a (view X s))"
    using spec(5) by (metis v_object_view(1))
  show ?thesis
    using so_SetBalance_spec [OF spec(3,2), of "so_Balance o1 - b"]
      spec extends_trans [OF spec(1)] bal
    by (simp add: SubBalance_def so_SubBalance_def g upd_account_def view_upd_idem)
qed

lemma SetNonce_refines:
  assumes "wf_state X s"
  shows "extends X s (SetNonce X a n s) \<and> view X (SetNonce X a n s)
    = upd_account X (stateReader s) a (\<lambda>v. v\<lparr>v_nonce := n\<rparr>) (view X s)"
proof -
  obtain s1 o1 where g: "GetOrNewStateObject X a s = (s1, o1)" by fastforce
  note spec = GetOrNew_live [OF assms g]
  show ?thesis
    using so_SetNonce_spec [OF spec(3,2), of n] spec extends_trans [OF spec(1)]
    by (simp add: SetNonce_def g upd_account_def)
qed

lemma SetCode_refines:
  assumes "wf_state X s"
  shows "extends X s (SetCode X a c s) \<and> view X (SetCode X a c s)
    = upd_account X (stateReader s) a (\<lambda>v. v\<lparr>v_codehash := Keccak256 X c, v_code := c\<rparr>) (view X s)"
proof -
  obtain s1 o1 where g: "GetOrNewStateObject X a s = (s1, o1)" by fastforce
  note spec = GetOrNew_live [OF assms g]
  show ?thesis
    using so_SetCode_spec [OF spec(3,2), of "Keccak256 X c" c] spec extends_trans [OF spec(1)]
    by (simp add: SetCode_def g upd_account_def)
qed

lemma SetState_refines:
  assumes "wf_state X s"
  shows "extends X s (SetState X a k v s) \<and> view X (SetState X a k v s)
    = upd_account X (stateReader s) a (\<lambda>u. u\<lparr>v_storage := (v_storage u)(k := v)\<rparr>) (view X s)"
proof -
  obtain s1 o1 where g: "GetOrNewStateObject X a s = (s1, o1)" by fastforce
  note spec = GetOrNew_live [OF assms g]
  have st: "storage_of (stateReader s) o1 = v_storage (get_or_fresh X (stateReader s) a (view X s))"
    using spec(5) by (metis v_object_view(5))
  show ?thesis
    using so_SetState_spec [OF spec(3,2), of k v] spec extends_trans [OF spec(1)] st
    by (simp add: SetState_def g upd_account_def)
qed

lemma Suicide_refines:
  assumes "wf_state X s" "Suicide X a s = (s1, b)"
  shows "extends X s s1 \<and> b = (account_at X s a \<noteq> None) \<and> view X s1 = (case account_at X s a of
      None \<Rightarrow> view X s
    | Some v \<Rightarrow> put_account a (v\<lparr>v_suicided := True, v_balance := 0\<rparr>) (view X s))"
proof -
  obtain s2 res where g: "getStateObject X a s = (s2, res)" by fastforce
  note spec = getStateObject_spec [OF assms(1) g]
  show ?thesis
  proof (cases res)
    case None
    with assms(2) g spec show ?thesis
      by (simp add: Suicide_def quiet_extends quiet_view)
  next
    case (Some o1)
    then have q: "quiet X s s2" and l: "live s2 a o1"
      and acc: "account_at X s a = Some (object_view X (stateReader s) o1)"
      using spec by (simp_all add: live_def)
    have s1: "s1 = setStateObject (so_setBalance 0 (markSuicided o1))
        (log_change (suicideChange a (suicided o1) (so_Balance o1)) s2)" "b"
      using assms(2) g Some by (auto simp: Suicide_def)
    have "extends X s2 s1 \<and> view X s1 = put_account a
        ((object_view X (stateReader s2) o1)\<lparr>v_suicided := True, v_balance := 0\<rparr>) (view X s2)"
      using live_extends [OF quiet_wf [OF q] l, of "so_setBalance 0 (markSuicided o1)"
          "suicideChange a (suicided o1) (so_Balance o1)"
          "\<lambda>v. v\<lparr>v_suicided := suicided o1, v_balance := so_Balance o1\<rparr>"] l
      by (simp add: s1 fun_eq_iff [where f = "undo _ _ _"] live_def view_upd_idem)
    then show ?thesis
      using q acc s1(2) extends_trans [OF quiet_extends [OF q]] by (simp add: quiet_reader quiet_view)
  qed
qed

definition reset_account :: "crypto \<Rightarrow> StateReader \<Rightarrow> address \<Rightarrow> account_view option \<Rightarrow> account_view" where
  "reset_account X r a prev = (case prev of
     None \<Rightarrow> fresh_account X r a
   | Some v \<Rightarrow> (fresh_account X r a)\<lparr>v_balance := v_balance v, v_codehash := v_codehash v,
       v_code := code_of X r (v_codehash v) None\<rparr>)"

lemma object_view_create_Some:
  "(object_view X r (newObject X a (so_data p) orig))\<lparr>v_nonce := 0, v_balance := so_Balance p\<rparr>
   = reset_account X r a (Some (object_view X r p))"
  by (simp add: object_view_newObject so_data_def fresh_account_def reset_account_def)

text \<open>\<open>CreateAccount\<close> starts an account afresh and carries over the balance (and the code hash)
  of an account it finds; with \<open>checkPrev\<close> off the account must not exist.\<close>

lemma CreateAccount_refines:
  assumes wf: "wf_state X s"
    and "\<not> prev \<Longrightarrow> account_at X s a = None"
  shows "extends X s (CreateAccount X a prev s) \<and> view X (CreateAccount X a prev s)
    = put_account a (reset_account X (stateReader s) a (account_at X s a)) (view X s)"
proof -
  obtain s1 res where g: "(if prev then getStateObject X a s else (s, None)) = (s1, res)" by fastforce
  have spec: "quiet X s s1 \<and> (case res of None \<Rightarrow> account_at X s a = None
    | Some o1 \<Rightarrow> live s1 a o1 \<and> account_at X s a = Some (object_view X (stateReader s) o1))"
  proof (cases prev)
    case True
    with g have "getStateObject X a s = (s1, res)" by simp
    from getStateObject_spec [OF wf this] show ?thesis
      by (auto simp: live_def split: option.splits)
  next
    case False
    with g assms show ?thesis by (auto simp: quiet_refl split: option.splits)
  qed
  obtain s2 o2 where c: "createObject X a res s1 = (s2, o2)" by fastforce
  show ?thesis
  proof (cases res)
    case None
    then have q: "quiet X s s1" and no: "account_at X s a = None"
      using spec by simp_all
    moreover have "account_at X s1 a = None"
      using q no by (metis accounts_view quiet_view)
    moreover have "CreateAccount X a prev s = s2"
      using g c None by (simp add: CreateAccount_def)
    ultimately show ?thesis
      using createObject_None [OF quiet_wf [OF q]] c None account_None_reader [OF wf no]
        extends_trans [OF quiet_extends [OF q]]
      by (simp add: quiet_reader quiet_view reset_account_def)
  next
    case (Some p)
    then have q: "quiet X s s1" and l: "live s1 a p"
      and acc: "account_at X s a = Some (object_view X (stateReader s) p)"
      using spec by simp_all
    let ?o = "so_setBalance (so_Balance p) (so_setNonce 0 (newObject X a (so_data p) (so_original p)))"
    have s3: "CreateAccount X a prev s = setStateObject ?o (log_change (resetObjectChange p) s1)"
      using g c Some by (auto simp: CreateAccount_def createObject_def Let_def setStateObject_def)
    have "undo X (stateReader s1) (resetObjectChange p)
        (put_account (so_address ?o) (object_view X (stateReader s1) ?o) (view X s1)) = Some (view X s1)"
      using l live_account [OF l, of X] by (simp add: live_def put_account_same accounts_view)
    then have "extends X s1 (CreateAccount X a prev s)"
      unfolding s3 using quiet_wf [OF q] by (intro extends_put) simp_all
    then show ?thesis
      using q acc extends_trans [OF quiet_extends [OF q]]
      by (simp add: s3 view_setStateObject object_view_create_Some quiet_reader quiet_view)
  qed
qed

lemma AddRefund_refines:
  assumes "wf_state X s"
  shows "extends X s (AddRefund g s) \<and> view X (AddRefund g s) = (view X s)\<lparr>vrefund := refund s + g\<rparr>"
proof -
  have "account_at X (AddRefund g s) = account_at X s"
    by (rule account_at_cong) (simp_all add: AddRefund_def log_change_def)
  then have "view X (AddRefund g s) = (view X s)\<lparr>vrefund := refund s + g\<rparr>"
    by (simp add: view_def GetLogs_def) (simp add: AddRefund_def log_change_def)
  moreover have "wf_state X (AddRefund g s) = wf_state X s"
    by (rule wf_cong) (simp_all add: AddRefund_def log_change_def)
  ultimately show ?thesis
    using assms by (simp add: extends_def) (simp add: AddRefund_def view_def)
qed

lemma SubRefund_refines:
  assumes "wf_state X s" "SubRefund g s = Ret s1"
  shows "extends X s s1 \<and> view X s1 = (view X s)\<lparr>vrefund := refund s - g\<rparr> \<and> g \<le> refund s"
proof -
  have g: "g \<le> refund s" and s1: "s1 = (log_change (refundChange (refund s)) s)\<lparr>refund := refund s - g\<rparr>"
    using assms(2) by (auto simp: SubRefund_def split: if_splits)
  have "account_at X s1 = account_at X s"
    by (rule account_at_cong) (simp_all add: s1 log_change_def)
  then have "view X s1 = (view X s)\<lparr>vrefund := refund s - g\<rparr>"
    by (simp add: view_def GetLogs_def) (simp add: s1 log_change_def)
  moreover have "wf_state X s1 = wf_state X s"
    by (rule wf_cong) (simp_all add: s1 log_change_def)
  ultimately show ?thesis
    using assms g by (simp add: extends_def) (simp add: s1 view_def)
qed

lemma AddLog_refines:
  assumes "wf_state X s"
  shows "extends X s (AddLog l s) \<and> view X (AddLog l s) = (view X s)
    \<lparr>vlogs := (vlogs (view X s))(thash s := GetLogs (thash s) s @ [l\<lparr>log_TxHash := thash s,
        log_BlockHash := bhash s, log_TxIndex := txIndex s, log_Index := logSize s\<rparr>]),
     vlogSize := logSize s + 1\<rparr>"
proof -
  have "account_at X (AddLog l s) = account_at X s"
    by (rule account_at_cong) (simp_all add: AddLog_def log_change_def Let_def)
  then have v: "view X (AddLog l s) = (view X s)
    \<lparr>vlogs := (vlogs (view X s))(thash s := GetLogs (thash s) s @ [l\<lparr>log_TxHash := thash s,
        log_BlockHash := bhash s, log_TxIndex := txIndex s, log_Index := logSize s\<rparr>]),
     vlogSize := logSize s + 1\<rparr>"
    by (simp add: view_def) (simp add: AddLog_def log_change_def Let_def GetLogs_def fun_eq_iff)
  moreover have "wf_state X (AddLog l s) = wf_state X s"
    by (rule wf_cong) (simp_all add: AddLog_def log_change_def Let_def)
  moreover have "undo X (stateReader s) (addLogChange (thash s)) (view X (AddLog l s)) = Some (view X s)"
    by (simp add: v) (simp add: view_def fun_upd_idem)
  moreover have "entries (sjournal (AddLog l s)) = entries (sjournal s) @ [addLogChange (thash s)]"
    "validRevisions (AddLog l s) = validRevisions s" "nextRevisionId (AddLog l s) = nextRevisionId s"
    "stateReader (AddLog l s) = stateReader s"
    by (simp_all add: AddLog_def Let_def)
  ultimately show ?thesis
    using assms by (simp add: extends_def)
qed

lemma AddPreimage_refines:
  assumes "wf_state X s"
  shows "extends X s (AddPreimage h p s) \<and> view X (AddPreimage h p s) = (view X s)
    \<lparr>vpreimages := (if preimages s h = None then (preimages s)(h \<mapsto> p) else preimages s)\<rparr>"
proof (cases "preimages s h")
  case None
  have "account_at X (AddPreimage h p s) = account_at X s"
    by (rule account_at_cong) (simp_all add: AddPreimage_def log_change_def)
  then have v: "view X (AddPreimage h p s) = (view X s)\<lparr>vpreimages := (preimages s)(h \<mapsto> p)\<rparr>"
    using None by (simp add: view_def GetLogs_def) (simp add: AddPreimage_def log_change_def)
  moreover have "wf_state X (AddPreimage h p s) = wf_state X s"
    by (rule wf_cong) (simp_all add: AddPreimage_def log_change_def)
  moreover have "undo X (stateReader s) (addPreimageChange h) (view X (AddPreimage h p s)) = Some (view X s)"
    using None by (simp add: v) (simp add: view_def fun_upd_idem)
  moreover have "entries (sjournal (AddPreimage h p s)) = entries (sjournal s) @ [addPreimageChange h]"
    "validRevisions (AddPreimage h p s) = validRevisions s"
    "nextRevisionId (AddPreimage h p s) = nextRevisionId s"
    "stateReader (AddPreimage h p s) = stateReader s"
    using None by (simp_all add: AddPreimage_def)
  ultimately show ?thesis
    using assms None by (simp add: extends_def)
next
  case (Some q)
  with assms show ?thesis
    by (simp add: AddPreimage_def extends_refl) (simp add: view_def)
qed

subsection \<open>Getters\<close>

definition balance_of :: "state_view \<Rightarrow> address \<Rightarrow> int" where
  "balance_of w a = (case accounts w a of None \<Rightarrow> 0 | Some v \<Rightarrow> v_balance v)"

definition nonce_of :: "state_view \<Rightarrow> address \<Rightarrow> u64" where
  "nonce_of w a = (case accounts w a of None \<Rightarrow> 0 | Some v \<Rightarrow> v_nonce v)"

definition vcode_of :: "state_view \<Rightarrow> address \<Rightarrow> bytes" where
  "vcode_of w a = (case accounts w a of None \<Rightarrow> [] | Some v \<Rightarrow> v_code v)"

definition codehash_of :: "state_view \<Rightarrow> address \<Rightarrow> hash" where
  "codehash_of w a = (case accounts w a of None \<Rightarrow> 0 | Some v \<Rightarrow> v_codehash v)"

definition slot_of :: "state_view \<Rightarrow> address \<Rightarrow> hash \<Rightarrow> hash" where
  "slot_of w a k = (case accounts w a of None \<Rightarrow> 0 | Some v \<Rightarrow> v_storage v k)"

definition committed_slot_of :: "state_view \<Rightarrow> address \<Rightarrow> hash \<Rightarrow> hash" where
  "committed_slot_of w a k = (case accounts w a of None \<Rightarrow> 0 | Some v \<Rightarrow> v_committed v k)"

definition suicided_of :: "state_view \<Rightarrow> address \<Rightarrow> bool" where
  "suicided_of w a = (case accounts w a of None \<Rightarrow> False | Some v \<Rightarrow> v_suicided v)"

definition empty_of :: "crypto \<Rightarrow> state_view \<Rightarrow> address \<Rightarrow> bool" where
  "empty_of X w a = (case accounts w a of None \<Rightarrow> True
     | Some v \<Rightarrow> v_nonce v = 0 \<and> v_balance v = 0 \<and> v_codehash v = emptyCodeHash X)"

lemmas getter_of_defs = balance_of_def nonce_of_def vcode_of_def codehash_of_def slot_of_def
  committed_slot_of_def suicided_of_def empty_of_def

lemma getStateObject_cases:
  assumes "wf_state X s"
  obtains (none) s1 where "getStateObject X a s = (s1, None)" "quiet X s s1" "account_at X s a = None"
  | (some) s1 o1 where "getStateObject X a s = (s1, Some o1)" "quiet X s s1" "live s1 a o1"
      "account_at X s a = Some (object_view X (stateReader s) o1)"
proof -
  obtain s1 res where g: "getStateObject X a s = (s1, res)" by fastforce
  show ?thesis
    using getStateObject_spec [OF assms g] g
    by (cases res) (auto simp: live_def intro: none some)
qed

lemma Exist_spec:
  assumes "wf_state X s"
  shows "quiet X s (fst (Exist X a s)) \<and> snd (Exist X a s) = (accounts (view X s) a \<noteq> None)"
  using assms by (cases rule: getStateObject_cases [where a = a]) (simp_all add: Exist_def accounts_view)

lemma Empty_spec:
  assumes "wf_state X s"
  shows "quiet X s (fst (Empty X a s)) \<and> snd (Empty X a s) = empty_of X (view X s) a"
  using assms by (cases rule: getStateObject_cases [where a = a])
    (simp_all add: Empty_def accounts_view empty_of_def empty_def)

lemma GetBalance_spec:
  assumes "wf_state X s"
  shows "quiet X s (fst (GetBalance X a s)) \<and> snd (GetBalance X a s) = balance_of (view X s) a"
  using assms by (cases rule: getStateObject_cases [where a = a])
    (simp_all add: GetBalance_def accounts_view balance_of_def)

lemma GetNonce_spec:
  assumes "wf_state X s"
  shows "quiet X s (fst (GetNonce X a s)) \<and> snd (GetNonce X a s) = nonce_of (view X s) a"
  using assms by (cases rule: getStateObject_cases [where a = a])
    (simp_all add: GetNonce_def accounts_view nonce_of_def)

lemma GetCodeHash_spec:
  assumes "wf_state X s"
  shows "quiet X s (fst (GetCodeHash X a s)) \<and> snd (GetCodeHash X a s) = codehash_of (view X s) a"
  using assms by (cases rule: getStateObject_cases [where a = a])
    (simp_all add: GetCodeHash_def accounts_view codehash_of_def)

lemma HasSuicided_spec:
  assumes "wf_state X s"
  shows "quiet X s (fst (HasSuicided X a s)) \<and> snd (HasSuicided X a s) = suicided_of (view X s) a"
  using assms by (cases rule: getStateObject_cases [where a = a])
    (simp_all add: HasSuicided_def accounts_view suicided_of_def)

text \<open>Writing back an object that only filled its caches.\<close>

lemma quiet_refill:
  assumes "quiet X s s1" "live s1 a o1"
    and "object_view X (stateReader s1) o2 = object_view X (stateReader s1) o1"
    and "so_address o2 = so_address o1" "deleted o2 = deleted o1"
  shows "quiet X s (setStateObject o2 s1)"
proof -
  have "quiet X s1 (setStateObject o2 s1)"
    using assms live_account [OF assms(2), of X]
    by (intro quiet_put) (simp_all add: quiet_wf live_def)
  with assms(1) show ?thesis by (rule quiet_trans)
qed

lemma GetCode_spec:
  assumes "wf_state X s"
  shows "quiet X s (fst (GetCode X a s)) \<and> snd (GetCode X a s) = vcode_of (view X s) a"
  using assms
proof (cases rule: getStateObject_cases [where a = a])
  case (some s1 o1)
  obtain o2 c where c: "so_Code X (stateReader s1) o1 = (o2, c)" by fastforce
  show ?thesis
    using some c so_Code_view [OF c] quiet_refill [OF some(2,3)]
    by (simp add: GetCode_def accounts_view vcode_of_def quiet_reader)
qed (simp add: GetCode_def accounts_view vcode_of_def)

lemma GetState_spec:
  assumes "wf_state X s"
  shows "quiet X s (fst (GetState X a k s)) \<and> snd (GetState X a k s) = slot_of (view X s) a k"
  using assms
proof (cases rule: getStateObject_cases [where a = a])
  case (some s1 o1)
  obtain o2 c where c: "so_GetState (stateReader s1) k o1 = (o2, c)" by fastforce
  show ?thesis
    using some c so_GetState_view [OF c, of X] quiet_refill [OF some(2,3)]
    by (simp add: GetState_def accounts_view slot_of_def quiet_reader)
qed (simp add: GetState_def accounts_view slot_of_def)

lemma GetCommittedState_spec:
  assumes "wf_state X s"
  shows "quiet X s (fst (GetCommittedState X a k s))
    \<and> snd (GetCommittedState X a k s) = committed_slot_of (view X s) a k"
  using assms
proof (cases rule: getStateObject_cases [where a = a])
  case (some s1 o1)
  obtain o2 c where c: "so_GetCommittedState (stateReader s1) k o1 = (o2, c)" by fastforce
  show ?thesis
    using some c so_GetCommittedState_view [OF c, of X] quiet_refill [OF some(2,3)]
    by (simp add: GetCommittedState_def accounts_view committed_slot_of_def quiet_reader)
qed (simp add: GetCommittedState_def accounts_view committed_slot_of_def)

lemma GetCodeSize_quiet:
  assumes "wf_state X s"
  shows "quiet X s (fst (GetCodeSize X a s))"
  using assms
proof (cases rule: getStateObject_cases [where a = a])
  case (some s1 o1)
  obtain n e where "ReadAccountCodeSize (stateReader s1) (so_CodeHash o1) = (n, e)" by fastforce
  moreover have "quiet X s (setError x s1)" for x
    using some(2) quiet_setError [OF quiet_wf [OF some(2)]] by (rule quiet_trans)
  ultimately show ?thesis
    using some by (simp add: GetCodeSize_def split: option.splits)
qed (simp add: GetCodeSize_def)

end
