(* ===== verification/StateRevert.thy ===== *)
theory StateRevert
  imports StateView
begin

text \<open>
  Snapshots: undoing the journal entries of \<open>journal.go\<close> on the concrete database simulates the
  undo on the view, \<open>sort.Search\<close> finds the revision, and so \<open>RevertToSnapshot\<close> returns
  to the view the snapshot was taken at, whatever journalled operations ran in between.
\<close>

section \<open>Undoing\<close>

lemma on_object_sim:
  assumes "wf_state X s" "on_account a g (view X s) = Some w"
    and "\<And>o1. object_view X (stateReader s) (f o1) = g (object_view X (stateReader s) o1)"
    and "\<And>o1. so_address (f o1) = so_address o1" "\<And>o1. deleted (f o1) = deleted o1"
  shows "\<exists>s'. on_object X a f s = Ret s' \<and> view X s' = w \<and> wf_state X s'
    \<and> stateReader s' = stateReader s \<and> entries (sjournal s') = entries (sjournal s)
    \<and> validRevisions s' = validRevisions s \<and> nextRevisionId s \<le> nextRevisionId s'"
  using assms(1)
proof (cases rule: getStateObject_cases [where a = a])
  case (none s1)
  with assms(2) show ?thesis by (simp add: on_account_def accounts_view)
next
  case (some s1 o1)
  then have "\<not> deleted (f o1)" "so_address (f o1) = a"
    using assms(4,5) by (simp_all add: live_def)
  moreover from this have "view X (setStateObject (f o1) s1) = w"
    using some assms(2,3) by (simp add: view_setStateObject quiet_view quiet_reader on_account_def accounts_view)
  ultimately show ?thesis
    using some by (simp add: on_object_def wf_setStateObject quiet_wf) (simp add: quiet_def)
qed

lemma revert_entry_sim:
  assumes "wf_state X s" "undo X (stateReader s) e (view X s) = Some w"
  shows "\<exists>s'. revert_entry X e s = Ret s' \<and> view X s' = w \<and> wf_state X s'
    \<and> stateReader s' = stateReader s \<and> entries (sjournal s') = entries (sjournal s)
    \<and> validRevisions s' = validRevisions s \<and> nextRevisionId s \<le> nextRevisionId s'"
proof (cases e)
  case (createObjectChange a)
  let ?s = "s\<lparr>stateObjects := (stateObjects s)(a := None), stateObjectsDirty := stateObjectsDirty s - {a}\<rparr>"
  have "account_at X ?s = (account_at X s)(a := reader_account X (stateReader s) a)"
    by (simp add: fun_eq_iff account_at_def split: option.splits)
  then have "view X ?s = w"
    using assms(2) createObjectChange by (auto simp: view_def GetLogs_def)
  moreover have "wf_state X ?s"
    using assms(1) by (simp add: wf_state_def revisions_ok_def)
  ultimately show ?thesis
    using createObjectChange by simp
next
  case (resetObjectChange p)
  then have "\<not> deleted p"
    using assms(2) by (simp split: if_splits)
  with assms resetObjectChange show ?thesis
    by (simp add: view_setStateObject wf_setStateObject)
next
  case (suicideChange a p b)
  have "revert_entry X e s = on_object X a (\<lambda>o1. so_setBalance b (o1\<lparr>suicided := p\<rparr>)) s"
    using assms suicideChange
    by (cases rule: getStateObject_cases [OF assms(1), where a = a])
       (auto simp: on_object_def on_account_def accounts_view)
  then show ?thesis
    using on_object_sim [OF assms(1), of a "\<lambda>v. v\<lparr>v_suicided := p, v_balance := b\<rparr>" w
        "\<lambda>o1. so_setBalance b (o1\<lparr>suicided := p\<rparr>)"] assms(2) suicideChange
    by simp
next
  case (balanceChange a b)
  then show ?thesis
    using on_object_sim [OF assms(1), of a "\<lambda>v. v\<lparr>v_balance := b\<rparr>" w "so_setBalance b"] assms(2) by simp
next
  case (nonceChange a n)
  then show ?thesis
    using on_object_sim [OF assms(1), of a "\<lambda>v. v\<lparr>v_nonce := n\<rparr>" w "so_setNonce n"] assms(2) by simp
next
  case (storageChange a k v)
  then show ?thesis
    using on_object_sim [OF assms(1), of a "\<lambda>u. u\<lparr>v_storage := (v_storage u)(k := v)\<rparr>" w "so_setState k v"]
      assms(2) by simp
next
  case (codeChange a c h)
  then show ?thesis
    using on_object_sim [OF assms(1), of a
        "\<lambda>u. u\<lparr>v_codehash := h, v_code := code_of X (stateReader s) h c\<rparr>" w "so_setCode h c"]
      assms(2) by simp
next
  case (refundChange p)
  have "view X (s\<lparr>refund := p\<rparr>) = w"
    using assms(2) refundChange account_at_cong [of "s\<lparr>refund := p\<rparr>" s X] by (auto simp: view_def GetLogs_def)
  moreover have "wf_state X (s\<lparr>refund := p\<rparr>) = wf_state X s"
    by (rule wf_cong) simp_all
  ultimately show ?thesis
    using refundChange assms(1) by simp
next
  case (addLogChange h)
  let ?l = "GetLogs h s"
  let ?s = "s\<lparr>logs := (if length ?l = 1 then (logs s)(h := None) else (logs s)(h \<mapsto> butlast ?l)),
    logSize := logSize s - 1\<rparr>"
  have l: "?l \<noteq> []"
    using assms(2) addLogChange by (auto simp: view_def split: if_splits)
  have "(\<lambda>k. GetLogs k ?s) = (\<lambda>k. GetLogs k s)(h := butlast ?l)"
    using l by (auto simp: GetLogs_def fun_eq_iff length_Suc_conv split: option.splits)
  then have "view X ?s = w"
    using assms(2) addLogChange account_at_cong [of ?s s X] by (auto simp: view_def split: if_splits)
  moreover have "wf_state X ?s = wf_state X s"
    by (rule wf_cong) simp_all
  moreover have "revert_entry X e s = Ret ?s"
    using addLogChange l by (simp add: Let_def)
  ultimately show ?thesis
    using assms(1) by simp
next
  case (addPreimageChange h)
  let ?s = "s\<lparr>preimages := (preimages s)(h := None)\<rparr>"
  have "view X ?s = w"
    using assms(2) addPreimageChange account_at_cong [of ?s s X] by (auto simp: view_def GetLogs_def)
  moreover have "wf_state X ?s = wf_state X s"
    by (rule wf_cong) simp_all
  ultimately show ?thesis
    using addPreimageChange assms(1) by simp
qed (use assms in simp)

lemma revert_entries_sim:
  assumes "wf_state X s" "undos X (stateReader s) es (view X s) = Some w"
  shows "\<exists>s'. revert_entries X es s = Ret s' \<and> view X s' = w \<and> wf_state X s'
    \<and> stateReader s' = stateReader s \<and> entries (sjournal s') = entries (sjournal s)
    \<and> validRevisions s' = validRevisions s \<and> nextRevisionId s \<le> nextRevisionId s'"
  using assms
proof (induction es arbitrary: s)
  case (Cons e es)
  obtain w1 where w1: "undo X (stateReader s) e (view X s) = Some w1"
    "undos X (stateReader s) es w1 = Some w"
    using Cons.prems(2) by (auto split: option.splits)
  obtain s1 where s1: "revert_entry X e s = Ret s1" "view X s1 = w1" "wf_state X s1"
    "stateReader s1 = stateReader s" "entries (sjournal s1) = entries (sjournal s)"
    "validRevisions s1 = validRevisions s" "nextRevisionId s \<le> nextRevisionId s1"
    using revert_entry_sim [OF Cons.prems(1) w1(1)] by blast
  let ?s = "s1\<lparr>sjournal := journal_undirty e (sjournal s1)\<rparr>"
  have s: "view X ?s = view X s1" "wf_state X ?s = wf_state X s1"
    "entries (sjournal ?s) = entries (sjournal s1)"
    by (rule view_cong wf_cong; simp)+
       (simp add: journal_undirty_def Let_def split: option.splits)
  show ?case
    using Cons.IH [of ?s] s s1 w1(2) by (fastforce intro: order_trans)
qed simp

lemma sort_Search_spec:
  assumes "i \<le> j" "\<And>k l. k \<le> l \<Longrightarrow> l < j \<Longrightarrow> f k \<Longrightarrow> f l"
    and "\<And>k. k < i \<Longrightarrow> \<not> f k"
  shows "sort_Search f i j \<le> j \<and> (\<forall>k < sort_Search f i j. \<not> f k)
    \<and> (\<forall>k. sort_Search f i j \<le> k \<and> k < j \<longrightarrow> f k)"
  using assms
proof (induction f i j rule: sort_Search.induct)
  case (1 f i j)
  show ?case
  proof (cases "i < j")
    case True
    let ?h = "(i + j) div 2"
    have h: "i \<le> ?h" "?h < j" using True by auto
    show ?thesis
    proof (cases "f ?h")
      case f: True
      have "sort_Search f i ?h \<le> ?h \<and> (\<forall>k < sort_Search f i ?h. \<not> f k)
          \<and> (\<forall>k. sort_Search f i ?h \<le> k \<and> k < ?h \<longrightarrow> f k)"
      proof (rule "1.IH"(2) [OF True refl])
        show "f l" if "k \<le> l" "l < ?h" "f k" for k l
          using "1.prems"(2) [of k l] that h by simp
      qed (use f h "1.prems"(3) in simp_all)
      moreover have "f k" if "?h \<le> k" "k < j" for k
        using "1.prems"(2) f that by blast
      moreover have "sort_Search f i j = sort_Search f i ?h"
        using True f by (subst sort_Search.simps) (simp add: Let_def)
      ultimately show ?thesis
        using h by (metis le_trans less_imp_le_nat not_less)
    next
      case f: False
      have "sort_Search f (?h + 1) j \<le> j \<and> (\<forall>k < sort_Search f (?h + 1) j. \<not> f k)
          \<and> (\<forall>k. sort_Search f (?h + 1) j \<le> k \<and> k < j \<longrightarrow> f k)"
      proof (rule "1.IH"(1) [OF True refl f])
        show "f l" if "k \<le> l" "l < j" "f k" for k l
          using "1.prems"(2) that by blast
        show "\<not> f k" if "k < ?h + 1" for k
          using "1.prems"(2) [of k ?h] f h that by fastforce
      qed (use h in simp)
      moreover have "sort_Search f i j = sort_Search f (?h + 1) j"
        using True f by (subst sort_Search.simps) (simp add: Let_def)
      ultimately show ?thesis
        by simp
    qed
  next
    case False
    then have "sort_Search f i j = i"
      by (subst sort_Search.simps) simp
    with False "1.prems" show ?thesis
      by simp
  qed
qed

section \<open>Snapshots\<close>

lemma Snapshot_extends:
  assumes "wf_state X s" "Snapshot s = (s1, rid)"
  shows "extends X s s1 \<and> view X s1 = view X s \<and> rid = nextRevisionId s
    \<and> entries (sjournal s1) = entries (sjournal s)
    \<and> validRevisions s1 = validRevisions s
        @ [\<lparr>rev_id = rid, journalIndex = length (entries (sjournal s))\<rparr>]"
proof -
  have s1: "s1 = s\<lparr>nextRevisionId := rid + 1, validRevisions := validRevisions s
      @ [\<lparr>rev_id = rid, journalIndex = length (entries (sjournal s))\<rparr>]\<rparr>" "rid = nextRevisionId s"
    using assms(2) by (auto simp: Snapshot_def Let_def journal_length_def)
  have "view X s1 = view X s"
    by (rule view_cong) (simp_all add: s1)
  moreover have "revisions_ok s1"
    using assms(1) by (auto simp: wf_state_def revisions_ok_def s1 sorted_wrt_append)
  then have "wf_state X s1"
    using assms(1) by (simp add: wf_state_def s1)
  ultimately show ?thesis
    by (simp add: extends_def s1)
qed

lemma RevertToSnapshot_restores:
  assumes "wf_state X s" "Snapshot s = (s1, rid)" "extends X s1 s2"
  shows "\<exists>s3. RevertToSnapshot X rid s2 = Ret s3 \<and> quiet X s s3"
proof -
  note snap = Snapshot_extends [OF assms(1,2)]
  let ?r = "\<lparr>rev_id = rid, journalIndex = length (entries (sjournal s))\<rparr>"
  obtain rs where rs: "validRevisions s2 = validRevisions s @ ?r # rs"
    using assms(3) snap by (auto simp: extends_def prefix_def)
  obtain es where es: "entries (sjournal s2) = entries (sjournal s) @ es"
    "undos X (stateReader s2) (rev es) (view X s2) = Some (view X s)"
    using assms(3) snap by (auto simp: extends_def)
  have wf2: "wf_state X s2"
    using assms(3) by (rule extends_wf)
  let ?f = "\<lambda>i. rev_id (validRevisions s2 ! i) \<ge> rid" and ?n = "length (validRevisions s)"
  have sorted: "sorted_wrt (<) (map rev_id (validRevisions s2))"
    using wf2 by (simp add: wf_state_def revisions_ok_def)
  have mono: "?f l" if "k \<le> l" "l < length (validRevisions s2)" "?f k" for k l
    using sorted_wrt_nth_less [OF sorted, of k l] that by (cases "k = l") auto
  have at: "validRevisions s2 ! ?n = ?r"
    by (simp add: rs)
  have below: "\<not> ?f k" if "k < ?n" for k
    using sorted_wrt_nth_less [OF sorted, of k ?n] that by (simp add: rs nth_append)
  let ?i = "sort_Search ?f 0 (length (validRevisions s2))"
  have found: "(\<forall>k < ?i. \<not> ?f k) \<and> (\<forall>k. ?i \<le> k \<and> k < length (validRevisions s2) \<longrightarrow> ?f k)"
    using sort_Search_spec [of 0 "length (validRevisions s2)" ?f] mono by blast
  have n: "?f ?n" "?n < length (validRevisions s2)"
    using at by (simp_all add: rs)
  have idx: "?i = ?n"
  proof (rule linorder_cases [of ?i ?n])
    assume "?i < ?n"
    then show ?thesis using found n(2) below [of ?i] less_trans by blast
  next
    assume "?n < ?i"
    then show ?thesis using found n(1) by blast
  qed
  obtain s3 where s3: "revert_entries X (rev es) s2 = Ret s3" "view X s3 = view X s" "wf_state X s3"
    "stateReader s3 = stateReader s2" "validRevisions s3 = validRevisions s2"
    "nextRevisionId s2 \<le> nextRevisionId s3"
    using revert_entries_sim [OF wf2 es(2)] by blast
  let ?s = "s3\<lparr>sjournal := (sjournal s3)\<lparr>entries := entries (sjournal s)\<rparr>, validRevisions := validRevisions s\<rparr>"
  have "RevertToSnapshot X rid s2 = Ret ?s"
    using idx at s3(1) by (simp add: RevertToSnapshot_def journal_revert_def Let_def rs es(1))
  moreover have "view X ?s = view X s3"
    by (rule view_cong) simp_all
  moreover have "stateReader ?s = stateReader s" "nextRevisionId s \<le> nextRevisionId ?s"
    using s3(4,6) assms(3) snap by (auto simp: extends_def)
  moreover have "wf_state X ?s"
    using s3(3,5) rs by (auto simp: wf_state_def revisions_ok_def sorted_wrt_append)
  ultimately show ?thesis
    using s3(2) by (auto simp: quiet_def)
qed

end
