(* ===== verification/Vm.thy ===== *)
theory Vm
  imports StateRevert
begin

text \<open>
  The data of the virtual machine, from \<open>core/vm\<close>: error values, opcodes, the stack checks, the
  memory, the jump destination analysis, contracts, and the records of the EVM and of one
  running frame. A stack of \<open>*big.Int\<close> is a list of integers whose head is the top; popping an
  empty stack panics. The pool of reusable integers (\<open>intpool.go\<close>) and the tracer are left out:
  they carry no information. Allocation never fails.
\<close>

section \<open>Errors\<close>

datatype vm_error =
    ErrOutOfGas
  | ErrCodeStoreOutOfGas
  | ErrDepth
  | ErrTraceLimitReached
  | ErrInsufficientBalance
  | ErrContractAddressCollision
  | ErrNoCompatibleInterpreter
  | errWriteProtection
  | errReturnDataOutOfBounds
  | errExecutionReverted
  | errMaxCodeSizeExceeded
  | errGasUintOverflow
  | errBadPairingInput
  | errStackUnderflow nat nat
  | errStackLimit nat
  | errInvalidOpcode u8
  | errInvalidJump u8 int
  | errCurvePoint string

section \<open>Opcodes\<close>

text \<open>An \<open>OpCode\<close> is a byte. \<open>PUSH n\<close>, \<open>DUP n\<close>, \<open>SWAP n\<close> and \<open>LOG n\<close> stand for \<open>PUSHn\<close> (1 to 32),
  \<open>DUPn\<close>, \<open>SWAPn\<close> (1 to 16) and \<open>LOGn\<close> (0 to 4).\<close>

named_theorems opcodes \<open>the byte of each opcode\<close>

definition STOP :: u8 where [opcodes]: "STOP = 0x00"
definition ADD :: u8 where [opcodes]: "ADD = 0x01"
definition MUL :: u8 where [opcodes]: "MUL = 0x02"
definition SUB :: u8 where [opcodes]: "SUB = 0x03"
definition DIV :: u8 where [opcodes]: "DIV = 0x04"
definition SDIV :: u8 where [opcodes]: "SDIV = 0x05"
definition MOD :: u8 where [opcodes]: "MOD = 0x06"
definition SMOD :: u8 where [opcodes]: "SMOD = 0x07"
definition ADDMOD :: u8 where [opcodes]: "ADDMOD = 0x08"
definition MULMOD :: u8 where [opcodes]: "MULMOD = 0x09"
definition EXP :: u8 where [opcodes]: "EXP = 0x0a"
definition SIGNEXTEND :: u8 where [opcodes]: "SIGNEXTEND = 0x0b"
definition LT :: u8 where [opcodes]: "LT = 0x10"
definition GT :: u8 where [opcodes]: "GT = 0x11"
definition SLT :: u8 where [opcodes]: "SLT = 0x12"
definition SGT :: u8 where [opcodes]: "SGT = 0x13"
definition EQ :: u8 where [opcodes]: "EQ = 0x14"
definition ISZERO :: u8 where [opcodes]: "ISZERO = 0x15"
definition AND :: u8 where [opcodes]: "AND = 0x16"
definition OR :: u8 where [opcodes]: "OR = 0x17"
definition XOR :: u8 where [opcodes]: "XOR = 0x18"
definition NOT :: u8 where [opcodes]: "NOT = 0x19"
definition BYTE :: u8 where [opcodes]: "BYTE = 0x1a"
definition SHL :: u8 where [opcodes]: "SHL = 0x1b"
definition SHR :: u8 where [opcodes]: "SHR = 0x1c"
definition SAR :: u8 where [opcodes]: "SAR = 0x1d"
definition SHA3 :: u8 where [opcodes]: "SHA3 = 0x20"
definition ADDRESS :: u8 where [opcodes]: "ADDRESS = 0x30"
definition BALANCE :: u8 where [opcodes]: "BALANCE = 0x31"
definition ORIGIN :: u8 where [opcodes]: "ORIGIN = 0x32"
definition CALLER :: u8 where [opcodes]: "CALLER = 0x33"
definition CALLVALUE :: u8 where [opcodes]: "CALLVALUE = 0x34"
definition CALLDATALOAD :: u8 where [opcodes]: "CALLDATALOAD = 0x35"
definition CALLDATASIZE :: u8 where [opcodes]: "CALLDATASIZE = 0x36"
definition CALLDATACOPY :: u8 where [opcodes]: "CALLDATACOPY = 0x37"
definition CODESIZE :: u8 where [opcodes]: "CODESIZE = 0x38"
definition CODECOPY :: u8 where [opcodes]: "CODECOPY = 0x39"
definition GASPRICE :: u8 where [opcodes]: "GASPRICE = 0x3a"
definition EXTCODESIZE :: u8 where [opcodes]: "EXTCODESIZE = 0x3b"
definition EXTCODECOPY :: u8 where [opcodes]: "EXTCODECOPY = 0x3c"
definition RETURNDATASIZE :: u8 where [opcodes]: "RETURNDATASIZE = 0x3d"
definition RETURNDATACOPY :: u8 where [opcodes]: "RETURNDATACOPY = 0x3e"
definition EXTCODEHASH :: u8 where [opcodes]: "EXTCODEHASH = 0x3f"
definition BLOCKHASH :: u8 where [opcodes]: "BLOCKHASH = 0x40"
definition COINBASE :: u8 where [opcodes]: "COINBASE = 0x41"
definition TIMESTAMP :: u8 where [opcodes]: "TIMESTAMP = 0x42"
definition NUMBER :: u8 where [opcodes]: "NUMBER = 0x43"
definition DIFFICULTY :: u8 where [opcodes]: "DIFFICULTY = 0x44"
definition GASLIMIT :: u8 where [opcodes]: "GASLIMIT = 0x45"
definition POP :: u8 where [opcodes]: "POP = 0x50"
definition MLOAD :: u8 where [opcodes]: "MLOAD = 0x51"
definition MSTORE :: u8 where [opcodes]: "MSTORE = 0x52"
definition MSTORE8 :: u8 where [opcodes]: "MSTORE8 = 0x53"
definition SLOAD :: u8 where [opcodes]: "SLOAD = 0x54"
definition SSTORE :: u8 where [opcodes]: "SSTORE = 0x55"
definition JUMP :: u8 where [opcodes]: "JUMP = 0x56"
definition JUMPI :: u8 where [opcodes]: "JUMPI = 0x57"
definition PC :: u8 where [opcodes]: "PC = 0x58"
definition MSIZE :: u8 where [opcodes]: "MSIZE = 0x59"
definition GAS :: u8 where [opcodes]: "GAS = 0x5a"
definition JUMPDEST :: u8 where [opcodes]: "JUMPDEST = 0x5b"
definition CREATE :: u8 where [opcodes]: "CREATE = 0xf0"
definition CALL :: u8 where [opcodes]: "CALL = 0xf1"
definition CALLCODE :: u8 where [opcodes]: "CALLCODE = 0xf2"
definition RETURN :: u8 where [opcodes]: "RETURN = 0xf3"
definition DELEGATECALL :: u8 where [opcodes]: "DELEGATECALL = 0xf4"
definition CREATE2 :: u8 where [opcodes]: "CREATE2 = 0xf5"
definition STATICCALL :: u8 where [opcodes]: "STATICCALL = 0xfa"
definition REVERT :: u8 where [opcodes]: "REVERT = 0xfd"
definition SELFDESTRUCT :: u8 where [opcodes]: "SELFDESTRUCT = 0xff"
definition PUSH :: "nat \<Rightarrow> u8" where [opcodes]: "PUSH n = 0x5f + of_nat n"
definition DUP :: "nat \<Rightarrow> u8" where [opcodes]: "DUP n = 0x7f + of_nat n"
definition SWAP :: "nat \<Rightarrow> u8" where [opcodes]: "SWAP n = 0x8f + of_nat n"
definition LOG :: "nat \<Rightarrow> u8" where [opcodes]: "LOG n = 0xa0 + of_nat n"

definition IsPush :: "u8 \<Rightarrow> bool" where
  "IsPush b \<longleftrightarrow> PUSH 1 \<le> b \<and> b \<le> PUSH 32"

section \<open>Stack validation\<close>

type_synonym stack = "int list"

definition require :: "nat \<Rightarrow> stack \<Rightarrow> vm_error option" where
  "require n st = (if length st < n then Some (errStackUnderflow (length st) n) else None)"

definition makeStackFunc :: "nat \<Rightarrow> nat \<Rightarrow> stack \<Rightarrow> vm_error option" where
  "makeStackFunc pops pushes st =
     (case require pops st of
        Some err \<Rightarrow> Some err
      | None \<Rightarrow>
          if length st + pushes - pops > unat StackLimit then Some (errStackLimit (length st))
          else None)"

definition makeDupStackFunc :: "nat \<Rightarrow> stack \<Rightarrow> vm_error option" where
  "makeDupStackFunc n = makeStackFunc n (n + 1)"

definition makeSwapStackFunc :: "nat \<Rightarrow> stack \<Rightarrow> vm_error option" where
  "makeSwapStackFunc n = makeStackFunc n n"

text \<open>\<open>swap\<close> exchanges the top with the \<open>n\<close>-th item, \<open>dup\<close> copies the \<open>n\<close>-th item, counting from 1.\<close>

definition stack_swap :: "nat \<Rightarrow> stack \<Rightarrow> stack go" where
  "stack_swap n st =
     (if 0 < n \<and> n \<le> length st then Ret (st[n - 1 := st ! 0, 0 := st ! (n - 1)]) else Panic)"

definition stack_dup :: "nat \<Rightarrow> stack \<Rightarrow> stack go" where
  "stack_dup n st = (if 0 < n \<and> n \<le> length st then Ret (st ! (n - 1) # st) else Panic)"

section \<open>Memory\<close>

record Memory =
  store :: bytes
  lastGasCost :: u64

definition NewMemory :: Memory where
  "NewMemory = \<lparr>store = [], lastGasCost = 0\<rparr>"

text \<open>\<open>copy(m.store[lo:hi], src)\<close> with the slice bounds checked.\<close>

definition copy_into :: "nat \<Rightarrow> nat \<Rightarrow> bytes \<Rightarrow> bytes \<Rightarrow> bytes go" where
  "copy_into lo hi src dst =
     (if lo \<le> hi \<and> hi \<le> length dst
      then (let n = min (hi - lo) (length src)
            in Ret (take lo dst @ take n src @ drop (lo + n) dst))
      else Panic)"

definition mem_Set :: "u64 \<Rightarrow> u64 \<Rightarrow> bytes \<Rightarrow> Memory \<Rightarrow> Memory go" where
  "mem_Set offset sz val m =
     (if sz > 0 then
        if unat (offset + sz) > length (store m) then Panic
        else go_bind (copy_into (unat offset) (unat (offset + sz)) val (store m))
          (\<lambda>st. Ret (m\<lparr>store := st\<rparr>))
      else Ret m)"

definition mem_Set32 :: "u64 \<Rightarrow> int \<Rightarrow> Memory \<Rightarrow> Memory go" where
  "mem_Set32 offset val m =
     (if unat (offset + 32) > length (store m) then Panic
      else go_bind (copy_into (unat offset) (unat (offset + 32)) (replicate 32 0) (store m))
        (\<lambda>st1. go_bind (copy_into (unat offset) (unat (offset + 32)) (ReadBits val (replicate 32 0)) st1)
          (\<lambda>st2. Ret (m\<lparr>store := st2\<rparr>))))"

definition mem_Resize :: "u64 \<Rightarrow> Memory \<Rightarrow> Memory" where
  "mem_Resize sz m =
     (if length (store m) < unat sz
      then m\<lparr>store := store m @ replicate (unat sz - length (store m)) 0\<rparr> else m)"

text \<open>\<open>Get\<close> copies, \<open>GetPtr\<close> aliases; as the memory of a frame is not written after the frame
  hands out a pointer, both return the bytes. The arguments are \<open>int64\<close>.\<close>

definition mem_Get :: "int \<Rightarrow> int \<Rightarrow> Memory \<Rightarrow> bytes go" where
  "mem_Get offset sz m =
     (if sz = 0 then Ret []
      else if int (length (store m)) > offset then go_slice (store m) offset (offset + sz)
      else Ret [])"

definition mem_GetPtr :: "int \<Rightarrow> int \<Rightarrow> Memory \<Rightarrow> bytes go" where
  "mem_GetPtr offset sz m =
     (if sz = 0 then Ret []
      else if int (length (store m)) > offset then go_slice (store m) offset (offset + sz)
      else Ret [])"

section \<open>\<open>common.go\<close>\<close>

definition calcMemSize :: "int \<Rightarrow> int \<Rightarrow> int" where
  "calcMemSize off l = (if l = 0 then 0 else off + l)"

definition getData :: "bytes \<Rightarrow> u64 \<Rightarrow> u64 \<Rightarrow> bytes go" where
  "getData data start sz =
     (let len = of_nat (length data);
          s = (if start > len then len else start);
          e0 = s + sz;
          e = (if e0 > len then len else e0)
      in go_bind (go_slice data (uint s) (uint e)) (\<lambda>d. Ret (RightPadBytes d (sint sz))))"

definition getDataBig :: "bytes \<Rightarrow> int \<Rightarrow> int \<Rightarrow> bytes go" where
  "getDataBig data start sz =
     (let dlen = int (length data);
          s = BigMin start dlen;
          e = BigMin (s + sz) dlen
      in go_bind (go_slice data (uint (big_Uint64 s)) (uint (big_Uint64 e)))
           (\<lambda>d. Ret (RightPadBytes d (sint (big_Uint64 sz)))))"

definition bigUint64 :: "int \<Rightarrow> u64 \<times> bool" where
  "bigUint64 v = (big_Uint64 v, BitLen v > 64)"

definition toWordSize :: "u64 \<Rightarrow> u64" where
  "toWordSize sz = (if sz > MaxUint64 - 31 then MaxUint64 div 32 + 1 else (sz + 31) div 32)"

definition allZero :: "bytes \<Rightarrow> bool" where
  "allZero b = list_all (\<lambda>x. x = 0) b"

section \<open>Jump destination analysis\<close>

type_synonym bitvec = bytes

definition or_at :: "nat \<Rightarrow> u8 \<Rightarrow> bitvec \<Rightarrow> bitvec go" where
  "or_at i b bits = (if i < length bits then Ret (bits[i := or (bits ! i) b]) else Panic)"

definition bitvec_set :: "nat \<Rightarrow> bitvec \<Rightarrow> bitvec go" where
  "bitvec_set pos bits = or_at (pos div 8) (drop_bit (pos mod 8) 0x80) bits"

definition bitvec_set8 :: "nat \<Rightarrow> bitvec \<Rightarrow> bitvec go" where
  "bitvec_set8 pos bits =
     go_bind (or_at (pos div 8) (drop_bit (pos mod 8) 0xFF) bits)
       (or_at (pos div 8 + 1) (not (drop_bit (pos mod 8) 0xFF)))"

definition codeSegment :: "nat \<Rightarrow> bitvec \<Rightarrow> bool go" where
  "codeSegment pos bits =
     go_bind (go_index bits (pos div 8)) (\<lambda>b. Ret (and b (drop_bit (pos mod 8) 0x80) = 0))"

text \<open>The two inner loops that mark the argument bytes of a push.\<close>

fun mark8 :: "nat \<Rightarrow> nat \<Rightarrow> bitvec \<Rightarrow> (nat \<times> nat \<times> bitvec) go" where
  "mark8 numbits pc bits =
     (if numbits \<ge> 8 then go_bind (bitvec_set8 pc bits) (mark8 (numbits - 8) (pc + 8))
      else Ret (numbits, pc, bits))"

fun mark1 :: "nat \<Rightarrow> nat \<Rightarrow> bitvec \<Rightarrow> (nat \<times> bitvec) go" where
  "mark1 0 pc bits = Ret (pc, bits)"
| "mark1 (Suc n) pc bits = go_bind (bitvec_set pc bits) (mark1 n (pc + 1))"

declare mark8.simps [simp del]

definition push_bytes :: "u8 \<Rightarrow> nat" where
  "push_bytes op = unat (op - PUSH 1 + 1)"

text \<open>The outer loop. The code is shorter than \<open>2 ^ 63\<close> bytes, so \<open>pc\<close> does not wrap; as each
  round advances \<open>pc\<close>, \<open>length code\<close> rounds are enough.\<close>

fun bitmap_loop :: "nat \<Rightarrow> bytes \<Rightarrow> nat \<Rightarrow> bitvec \<Rightarrow> bitvec go" where
  "bitmap_loop 0 code pc bits = (if pc < length code then OutOfFuel else Ret bits)"
| "bitmap_loop (Suc n) code pc bits =
     (if pc < length code then
        (let op = code ! pc
         in if IsPush op then
              go_bind (mark8 (push_bytes op) (pc + 1) bits)
                (\<lambda>(numbits, pc1, bits1). go_bind (mark1 numbits pc1 bits1)
                  (\<lambda>(pc2, bits2). bitmap_loop n code pc2 bits2))
            else bitmap_loop n code (pc + 1) bits)
      else Ret bits)"

definition codeBitmap :: "bytes \<Rightarrow> bitvec go" where
  "codeBitmap code =
     bitmap_loop (length code) code 0 (replicate (length code div 8 + 1 + 4) 0)"

section \<open>Contracts\<close>

text \<open>\<open>self\<close> and \<open>CallerAddress\<close> are addresses; the field \<open>caller\<close> is only read when a delegate
  call is set up, where it is passed along. The map \<open>jumpdests\<close> is shared by all contracts
  of a call tree and lives in the record of the EVM.\<close>

record Contract =
  CallerAddress :: address
  self_addr :: address
  c_analysis :: "bitvec option"
  c_Code :: bytes
  c_CodeHash :: hash
  c_CodeAddr :: "address option"
  c_Input :: bytes
  c_Gas :: u64
  c_value :: int

datatype ContractRef = AccountRef address | ParentRef Contract

fun ref_Address :: "ContractRef \<Rightarrow> address" where
  "ref_Address (AccountRef a) = a"
| "ref_Address (ParentRef c) = self_addr c"

record Config =
  NoRecursion :: bool
  EnablePreimageRecording :: bool

record Context =
  GetHash :: "u64 \<Rightarrow> hash"
  Origin :: address
  GasPrice :: int
  Coinbase :: address
  ctx_GasLimit :: u64
  BlockNumber :: int
  Time :: int
  Difficulty :: int

datatype instruction_set = Frontier | Homestead | Byzantium | Constantinople

text \<open>The EVM with the state of its one interpreter: \<open>in_gasTable\<close>, the instruction set chosen
  for \<open>cfg.JumpTable\<close>, \<open>readOnly\<close> and \<open>returnData\<close>.\<close>

record EVM =
  ctx :: Context
  sdb :: StateDB
  depth :: nat
  chainConfig :: ChainConfig
  chainRules :: Rules
  vmConfig :: Config
  abort :: bool
  callGasTemp :: u64
  in_gasTable :: GasTable
  in_instructions :: instruction_set
  readOnly :: bool
  returnData :: bytes
  jumpdests :: "hash \<rightharpoonup> bitvec"

abbreviation block_num :: "EVM \<Rightarrow> int option" where
  "block_num evm \<equiv> Some (BlockNumber (ctx evm))"

definition NewContract ::
  "ContractRef \<Rightarrow> address \<Rightarrow> int \<Rightarrow> u64 \<Rightarrow> EVM \<Rightarrow> Contract \<times> EVM" where
  "NewContract caller object val gas evm =
     (\<lparr>CallerAddress = ref_Address caller, self_addr = object, c_analysis = None, c_Code = [],
       c_CodeHash = 0, c_CodeAddr = None, c_Input = [], c_Gas = gas, c_value = val\<rparr>,
      case caller of ParentRef p \<Rightarrow> evm | AccountRef a \<Rightarrow> evm\<lparr>jumpdests := Map.empty\<rparr>)"

definition AsDelegate :: "ContractRef \<Rightarrow> Contract \<Rightarrow> Contract go" where
  "AsDelegate caller c =
     (case caller of
        AccountRef a \<Rightarrow> Panic
      | ParentRef parent \<Rightarrow>
          Ret (c\<lparr>CallerAddress := CallerAddress parent, c_value := c_value parent\<rparr>))"

definition SetCallCode :: "address \<Rightarrow> hash \<Rightarrow> bytes \<Rightarrow> Contract \<Rightarrow> Contract" where
  "SetCallCode addr h code c = c\<lparr>c_Code := code, c_CodeHash := h, c_CodeAddr := Some addr\<rparr>"

definition GetByte :: "u64 \<Rightarrow> Contract \<Rightarrow> u8" where
  "GetByte n c = (if unat n < length (c_Code c) then c_Code c ! unat n else 0)"

definition UseGas :: "u64 \<Rightarrow> Contract \<Rightarrow> Contract \<times> bool" where
  "UseGas gas c = (if c_Gas c < gas then (c, False) else (c\<lparr>c_Gas := c_Gas c - gas\<rparr>, True))"

definition validJumpdest :: "int \<Rightarrow> Contract \<Rightarrow> EVM \<Rightarrow> (bool \<times> Contract \<times> EVM) go" where
  "validJumpdest dest c evm =
     (let udest = big_Uint64 dest
      in if BitLen dest \<ge> 63 \<or> unat udest \<ge> length (c_Code c) then Ret (False, c, evm)
         else if c_Code c ! unat udest \<noteq> JUMPDEST then Ret (False, c, evm)
         else if c_CodeHash c \<noteq> 0 then
           go_bind (case jumpdests evm (c_CodeHash c) of
                      Some a \<Rightarrow> Ret (a, evm)
                    | None \<Rightarrow> go_bind (codeBitmap (c_Code c))
                        (\<lambda>a. Ret (a, evm\<lparr>jumpdests := (jumpdests evm)(c_CodeHash c \<mapsto> a)\<rparr>)))
             (\<lambda>(a, evm1). go_bind (codeSegment (unat udest) a) (\<lambda>b. Ret (b, c, evm1)))
         else
           go_bind (case c_analysis c of
                      Some a \<Rightarrow> Ret (a, c)
                    | None \<Rightarrow> go_bind (codeBitmap (c_Code c)) (\<lambda>a. Ret (a, c\<lparr>c_analysis := Some a\<rparr>)))
             (\<lambda>(a, c1). go_bind (codeSegment (unat udest) a) (\<lambda>b. Ret (b, c1, evm))))"

section \<open>Frames\<close>

text \<open>The variables of \<open>Run\<close> that an instruction sees.\<close>

record frame =
  f_pc :: u64
  f_contract :: Contract
  f_mem :: Memory
  f_stack :: stack
  f_evm :: EVM

text \<open>\<open>run\<close> of \<open>evm.go\<close>, called back by the call and create instructions; it returns the output,
  the error, and the contract and EVM as it leaves them.\<close>

type_synonym runner =
  "EVM \<Rightarrow> Contract \<Rightarrow> bytes \<Rightarrow> bool \<Rightarrow> (bytes \<times> vm_error option \<times> Contract \<times> EVM) go"

type_synonym op_result = "(bytes \<times> vm_error option \<times> frame) go"
type_synonym executionFunc = "crypto \<Rightarrow> runner \<Rightarrow> frame \<Rightarrow> op_result"
type_synonym memorySizeFunc = "stack \<Rightarrow> int go"

end
