(* ===== verification/Precompiles.thy ===== *)
theory Precompiles
  imports Vm
begin

text \<open>
  The precompiled contracts of \<open>contracts.go\<close>: what they cost and what they return. The elliptic
  curve and hash libraries they call are fields of the \<open>crypto\<close> record.
\<close>

section \<open>Signature values, from \<open>crypto/crypto.go\<close>\<close>

definition secp256k1N :: int where
  "secp256k1N = 0xfffffffffffffffffffffffffffffffebaaedce6af48a03bbfd25e8cd0364141"

definition secp256k1halfN :: int where
  "secp256k1halfN = secp256k1N div 2"

definition ValidateSignatureValues :: "u8 \<Rightarrow> int \<Rightarrow> int \<Rightarrow> bool \<Rightarrow> bool" where
  "ValidateSignatureValues v r s homestead =
     (if r < 1 \<or> s < 1 then False
      else if homestead \<and> s > secp256k1halfN then False
      else r < secp256k1N \<and> s < secp256k1N \<and> (v = 0 \<or> v = 1))"

section \<open>The contracts\<close>

type_synonym run_result = "(bytes \<times> vm_error option) go"

text \<open>\<open>append(input[64:128], v)\<close>: an input longer than 128 bytes has room behind the slice, so
  that \<open>v\<close> is written over its byte 128. The second component is the input afterwards.\<close>

definition append_v :: "bytes \<Rightarrow> u8 \<Rightarrow> bytes \<times> bytes" where
  "append_v input v =
     (take 64 (drop 64 input) @ [v], if length input > 128 then input[128 := v] else input)"

definition ecrecover_RequiredGas :: "bytes \<Rightarrow> u64" where
  "ecrecover_RequiredGas input = EcrecoverGas"

definition ecrecover_Run :: "crypto \<Rightarrow> bytes \<Rightarrow> (bytes \<times> bytes) go" where
  "ecrecover_Run X input =
     (let inp = RightPadBytes input 128;
          r = SetBytes (take 32 (drop 64 inp));
          s = SetBytes (take 32 (drop 96 inp));
          v = inp ! 63 - 27
      in if \<not> allZero (take 31 (drop 32 inp)) \<or> \<not> ValidateSignatureValues v r s False
         then Ret ([], inp)
         else
           (case append_v inp v of
              (sig, inp1) \<Rightarrow>
                (case crypto_Ecrecover X (take 32 inp1) sig of
                   None \<Rightarrow> Ret ([], inp1)
                 | Some pubKey \<Rightarrow>
                     if pubKey = [] then Panic
                     else Ret (LeftPadBytes (drop 12 (Hash_Bytes (Keccak256 X (tl pubKey)))) 32, inp1))))"

definition sha256hash_RequiredGas :: "bytes \<Rightarrow> u64" where
  "sha256hash_RequiredGas input =
     of_nat (length input + 31) div 32 * Sha256PerWordGas + Sha256BaseGas"

definition sha256hash_Run :: "crypto \<Rightarrow> bytes \<Rightarrow> bytes" where
  "sha256hash_Run X input = Hash_Bytes (sha256_Sum256 X input)"

definition ripemd160hash_RequiredGas :: "bytes \<Rightarrow> u64" where
  "ripemd160hash_RequiredGas input =
     of_nat (length input + 31) div 32 * Ripemd160PerWordGas + Ripemd160BaseGas"

definition ripemd160hash_Run :: "crypto \<Rightarrow> bytes \<Rightarrow> bytes" where
  "ripemd160hash_Run X input = LeftPadBytes (ripemd160_Sum X input) 32"

definition dataCopy_RequiredGas :: "bytes \<Rightarrow> u64" where
  "dataCopy_RequiredGas input =
     of_nat (length input + 31) div 32 * IdentityPerWordGas + IdentityBaseGas"

definition dataCopy_Run :: "bytes \<Rightarrow> bytes" where
  "dataCopy_Run input = input"

subsection \<open>Modular exponentiation\<close>

text \<open>The input behind the three length words.\<close>

definition modexp_body :: "bytes \<Rightarrow> bytes" where
  "modexp_body input = (if length input > 96 then drop 96 input else [])"

definition modexp_mult :: "int \<Rightarrow> int" where
  "modexp_mult gas =
     (if gas \<le> 64 then gas * gas
      else if gas \<le> 1024 then gas * gas div 4 + (96 * gas - 3072)
      else gas * gas div 16 + (480 * gas - 199680))"

definition bigModExp_RequiredGas :: "bytes \<Rightarrow> u64 go" where
  "bigModExp_RequiredGas input =
     go_bind (getData input 0 32) (\<lambda>bl.
     go_bind (getData input 32 32) (\<lambda>el.
     go_bind (getData input 64 32) (\<lambda>ml.
       (let baseLen = SetBytes bl; expLen = SetBytes el; modLen = SetBytes ml;
            inp = modexp_body input
        in go_bind
             (if int (length inp) \<le> baseLen then Ret []
              else if expLen > 32 then getData inp (big_Uint64 baseLen) 32
              else getData inp (big_Uint64 baseLen) (big_Uint64 expLen))
             (\<lambda>h.
               (let expHead = SetBytes h;
                    msb = (if BitLen expHead > 0 then BitLen expHead - 1 else 0);
                    adjExpLen = (if expLen > 32 then 8 * (expLen - 32) else 0) + int msb;
                    gas = modexp_mult (BigMax modLen baseLen);
                    gas1 = gas * BigMax adjExpLen 1 div uint ModExpQuadCoeffDiv
                in if BitLen gas1 > 64 then Ret MaxUint64 else Ret (big_Uint64 gas1)))))))"

definition bigModExp_Run :: "bytes \<Rightarrow> bytes go" where
  "bigModExp_Run input =
     go_bind (getData input 0 32) (\<lambda>bl.
     go_bind (getData input 32 32) (\<lambda>el.
     go_bind (getData input 64 32) (\<lambda>ml.
       (let baseLen = big_Uint64 (SetBytes bl); expLen = big_Uint64 (SetBytes el);
            modLen = big_Uint64 (SetBytes ml);
            inp = modexp_body input
        in if baseLen = 0 \<and> modLen = 0 then Ret []
           else
             go_bind (getData inp 0 baseLen) (\<lambda>b.
             go_bind (getData inp baseLen expLen) (\<lambda>e.
             go_bind (getData inp (baseLen + expLen) modLen) (\<lambda>m.
               if BitLen (SetBytes m) = 0 then Ret (LeftPadBytes [] (sint modLen))
               else Ret (LeftPadBytes
                 (big_Bytes (SetBytes b ^ nat (SetBytes e) mod SetBytes m)) (sint modLen)))))))))"

subsection \<open>The bn256 curve\<close>

definition newCurvePoint :: "crypto \<Rightarrow> bytes \<Rightarrow> vm_error + bytes" where
  "newCurvePoint X blob =
     (case bn256_G1_Unmarshal X blob of Inl e \<Rightarrow> Inl (errCurvePoint e) | Inr p \<Rightarrow> Inr p)"

definition newTwistPoint :: "crypto \<Rightarrow> bytes \<Rightarrow> vm_error + bytes" where
  "newTwistPoint X blob =
     (case bn256_G2_Unmarshal X blob of Inl e \<Rightarrow> Inl (errCurvePoint e) | Inr p \<Rightarrow> Inr p)"

definition bn256Add_RequiredGas :: "bytes \<Rightarrow> u64" where
  "bn256Add_RequiredGas input = Bn256AddGas"

definition bn256Add_Run :: "crypto \<Rightarrow> bytes \<Rightarrow> run_result" where
  "bn256Add_Run X input =
     go_bind (getData input 0 64) (\<lambda>d1.
       case newCurvePoint X d1 of
         Inl err \<Rightarrow> Ret ([], Some err)
       | Inr x \<Rightarrow> go_bind (getData input 64 64) (\<lambda>d2.
           case newCurvePoint X d2 of
             Inl err \<Rightarrow> Ret ([], Some err)
           | Inr y \<Rightarrow> Ret (bn256_G1_Marshal X (bn256_G1_Add X x y), None)))"

definition bn256ScalarMul_RequiredGas :: "bytes \<Rightarrow> u64" where
  "bn256ScalarMul_RequiredGas input = Bn256ScalarMulGas"

definition bn256ScalarMul_Run :: "crypto \<Rightarrow> bytes \<Rightarrow> run_result" where
  "bn256ScalarMul_Run X input =
     go_bind (getData input 0 64) (\<lambda>d1.
       case newCurvePoint X d1 of
         Inl err \<Rightarrow> Ret ([], Some err)
       | Inr p \<Rightarrow> go_bind (getData input 64 32) (\<lambda>d2.
           Ret (bn256_G1_Marshal X (bn256_G1_ScalarMult X p (SetBytes d2)), None)))"

definition true32Byte :: bytes where
  "true32Byte = replicate 31 0 @ [1]"

definition false32Byte :: bytes where
  "false32Byte = replicate 32 0"

definition bn256Pairing_RequiredGas :: "bytes \<Rightarrow> u64" where
  "bn256Pairing_RequiredGas input =
     Bn256PairingBaseGas + of_nat (length input div 192) * Bn256PairingPerPointGas"

text \<open>The loop over the points; \<open>n\<close> counts the rounds that remain.\<close>

fun pairing_points :: "crypto \<Rightarrow> nat \<Rightarrow> bytes \<Rightarrow> vm_error + bytes list \<times> bytes list" where
  "pairing_points X 0 input = Inr ([], [])"
| "pairing_points X (Suc n) input =
     (case newCurvePoint X (take 64 input) of
        Inl err \<Rightarrow> Inl err
      | Inr c \<Rightarrow>
          (case newTwistPoint X (take 128 (drop 64 input)) of
             Inl err \<Rightarrow> Inl err
           | Inr t \<Rightarrow>
               (case pairing_points X n (drop 192 input) of
                  Inl err \<Rightarrow> Inl err
                | Inr (cs, ts) \<Rightarrow> Inr (c # cs, t # ts))))"

definition bn256Pairing_Run :: "crypto \<Rightarrow> bytes \<Rightarrow> run_result" where
  "bn256Pairing_Run X input =
     (if length input mod 192 > 0 then Ret ([], Some errBadPairingInput)
      else
        (case pairing_points X (length input div 192) input of
           Inl err \<Rightarrow> Ret ([], Some err)
         | Inr (cs, ts) \<Rightarrow>
             if bn256_PairingCheck X cs ts then Ret (true32Byte, None)
             else Ret (false32Byte, None)))"

section \<open>Dispatch\<close>

datatype PrecompiledContract =
    ecrecover | sha256hash | ripemd160hash | dataCopy | bigModExp | bn256Add | bn256ScalarMul
  | bn256Pairing

fun RequiredGas :: "PrecompiledContract \<Rightarrow> bytes \<Rightarrow> u64 go" where
  "RequiredGas ecrecover input = Ret (ecrecover_RequiredGas input)"
| "RequiredGas sha256hash input = Ret (sha256hash_RequiredGas input)"
| "RequiredGas ripemd160hash input = Ret (ripemd160hash_RequiredGas input)"
| "RequiredGas dataCopy input = Ret (dataCopy_RequiredGas input)"
| "RequiredGas bigModExp input = bigModExp_RequiredGas input"
| "RequiredGas bn256Add input = Ret (bn256Add_RequiredGas input)"
| "RequiredGas bn256ScalarMul input = Ret (bn256ScalarMul_RequiredGas input)"
| "RequiredGas bn256Pairing input = Ret (bn256Pairing_RequiredGas input)"

fun pre_Run :: "crypto \<Rightarrow> PrecompiledContract \<Rightarrow> bytes \<Rightarrow> run_result" where
  "pre_Run X ecrecover input = go_bind (ecrecover_Run X input) (\<lambda>(ret, inp). Ret (ret, None))"
| "pre_Run X sha256hash input = Ret (sha256hash_Run X input, None)"
| "pre_Run X ripemd160hash input = Ret (ripemd160hash_Run X input, None)"
| "pre_Run X dataCopy input = Ret (dataCopy_Run input, None)"
| "pre_Run X bigModExp input = go_bind (bigModExp_Run input) (\<lambda>ret. Ret (ret, None))"
| "pre_Run X bn256Add input = bn256Add_Run X input"
| "pre_Run X bn256ScalarMul input = bn256ScalarMul_Run X input"
| "pre_Run X bn256Pairing input = bn256Pairing_Run X input"

definition PrecompiledContractsHomestead :: "address \<rightharpoonup> PrecompiledContract" where
  "PrecompiledContractsHomestead =
     [1 \<mapsto> ecrecover, 2 \<mapsto> sha256hash, 3 \<mapsto> ripemd160hash, 4 \<mapsto> dataCopy]"

definition PrecompiledContractsByzantium :: "address \<rightharpoonup> PrecompiledContract" where
  "PrecompiledContractsByzantium =
     [1 \<mapsto> ecrecover, 2 \<mapsto> sha256hash, 3 \<mapsto> ripemd160hash, 4 \<mapsto> dataCopy,
      5 \<mapsto> bigModExp, 6 \<mapsto> bn256Add, 7 \<mapsto> bn256ScalarMul, 8 \<mapsto> bn256Pairing]"

definition RunPrecompiledContract ::
  "crypto \<Rightarrow> PrecompiledContract \<Rightarrow> bytes \<Rightarrow> Contract
     \<Rightarrow> (bytes \<times> vm_error option \<times> Contract) go" where
  "RunPrecompiledContract X p input contract =
     go_bind (RequiredGas p input)
       (\<lambda>gas. case UseGas gas contract of
          (c, True) \<Rightarrow> go_bind (pre_Run X p input) (\<lambda>(ret, err). Ret (ret, err, c))
        | (c, False) \<Rightarrow> Ret ([], Some ErrOutOfGas, c))"

end
