(* ===== verification/VmGas.thy ===== *)
theory VmGas
  imports Vm
begin

text \<open>
  What an instruction costs and how much memory it needs, from \<open>gas.go\<close>, \<open>memory_table.go\<close> and
  \<open>gas_table.go\<close>. A gas function returns an error or the cost, together with the frame: it may
  record the memory fee, fill caches of the state, change the refund counter and set
  \<open>callGasTemp\<close>. The interpreter drops the cost when there is an error.
\<close>

section \<open>\<open>gas.go\<close>\<close>

named_theorems gas_consts \<open>unfolding of the step prices\<close>

definition GasQuickStep :: u64 where [gas_consts]: "GasQuickStep = 2"
definition GasFastestStep :: u64 where [gas_consts]: "GasFastestStep = 3"
definition GasFastStep :: u64 where [gas_consts]: "GasFastStep = 5"
definition GasMidStep :: u64 where [gas_consts]: "GasMidStep = 8"
definition GasSlowStep :: u64 where [gas_consts]: "GasSlowStep = 10"
definition GasExtStep :: u64 where [gas_consts]: "GasExtStep = 20"

definition callGas :: "GasTable \<Rightarrow> u64 \<Rightarrow> u64 \<Rightarrow> int \<Rightarrow> vm_error + u64" where
  "callGas gt availableGas base callCost =
     (let available = availableGas - base;
          gas = available - available div 64
      in if gt_CreateBySuicide gt > 0 \<and> (BitLen callCost > 64 \<or> gas < big_Uint64 callCost)
         then Inr gas
         else if BitLen callCost > 64 then Inl errGasUintOverflow
         else Inr (big_Uint64 callCost))"

section \<open>\<open>memory_table.go\<close>\<close>

definition memorySha3 :: memorySizeFunc where
  "memorySha3 st = (case st of a # b # _ \<Rightarrow> Ret (calcMemSize a b) | _ \<Rightarrow> Panic)"

definition memoryCallDataCopy :: memorySizeFunc where
  "memoryCallDataCopy st = (case st of a # b # c # _ \<Rightarrow> Ret (calcMemSize a c) | _ \<Rightarrow> Panic)"

definition memoryReturnDataCopy :: memorySizeFunc where
  "memoryReturnDataCopy st = (case st of a # b # c # _ \<Rightarrow> Ret (calcMemSize a c) | _ \<Rightarrow> Panic)"

definition memoryCodeCopy :: memorySizeFunc where
  "memoryCodeCopy st = (case st of a # b # c # _ \<Rightarrow> Ret (calcMemSize a c) | _ \<Rightarrow> Panic)"

definition memoryExtCodeCopy :: memorySizeFunc where
  "memoryExtCodeCopy st = (case st of a # b # c # d # _ \<Rightarrow> Ret (calcMemSize b d) | _ \<Rightarrow> Panic)"

definition memoryMLoad :: memorySizeFunc where
  "memoryMLoad st = (case st of a # _ \<Rightarrow> Ret (calcMemSize a 32) | _ \<Rightarrow> Panic)"

definition memoryMStore8 :: memorySizeFunc where
  "memoryMStore8 st = (case st of a # _ \<Rightarrow> Ret (calcMemSize a 1) | _ \<Rightarrow> Panic)"

definition memoryMStore :: memorySizeFunc where
  "memoryMStore st = (case st of a # _ \<Rightarrow> Ret (calcMemSize a 32) | _ \<Rightarrow> Panic)"

definition memoryCreate :: memorySizeFunc where
  "memoryCreate st = (case st of a # b # c # _ \<Rightarrow> Ret (calcMemSize b c) | _ \<Rightarrow> Panic)"

definition memoryCreate2 :: memorySizeFunc where
  "memoryCreate2 st = (case st of a # b # c # _ \<Rightarrow> Ret (calcMemSize b c) | _ \<Rightarrow> Panic)"

definition memoryCall :: memorySizeFunc where
  "memoryCall st =
     (case st of
        g # a # v # io # is # ro # rs # _ \<Rightarrow> Ret (BigMax (calcMemSize ro rs) (calcMemSize io is))
      | _ \<Rightarrow> Panic)"

definition memoryDelegateCall :: memorySizeFunc where
  "memoryDelegateCall st =
     (case st of
        g # a # io # is # ro # rs # _ \<Rightarrow> Ret (BigMax (calcMemSize ro rs) (calcMemSize io is))
      | _ \<Rightarrow> Panic)"

definition memoryStaticCall :: memorySizeFunc where
  "memoryStaticCall st =
     (case st of
        g # a # io # is # ro # rs # _ \<Rightarrow> Ret (BigMax (calcMemSize ro rs) (calcMemSize io is))
      | _ \<Rightarrow> Panic)"

definition memoryReturn :: memorySizeFunc where
  "memoryReturn st = (case st of a # b # _ \<Rightarrow> Ret (calcMemSize a b) | _ \<Rightarrow> Panic)"

definition memoryRevert :: memorySizeFunc where
  "memoryRevert st = (case st of a # b # _ \<Rightarrow> Ret (calcMemSize a b) | _ \<Rightarrow> Panic)"

definition memoryLog :: memorySizeFunc where
  "memoryLog st = (case st of a # b # _ \<Rightarrow> Ret (calcMemSize a b) | _ \<Rightarrow> Panic)"

lemmas memory_table_defs = memorySha3_def memoryCallDataCopy_def memoryReturnDataCopy_def
  memoryCodeCopy_def memoryExtCodeCopy_def memoryMLoad_def memoryMStore8_def memoryMStore_def
  memoryCreate_def memoryCreate2_def memoryCall_def memoryDelegateCall_def memoryStaticCall_def
  memoryReturn_def memoryRevert_def memoryLog_def

section \<open>\<open>gas_table.go\<close>\<close>

text \<open>Early returns: an error ends the computation, an overflow is \<open>errGasUintOverflow\<close>.\<close>

definition sum_bind :: "'e + 'a \<Rightarrow> ('a \<Rightarrow> 'e + 'b) \<Rightarrow> 'e + 'b" where
  "sum_bind m k = (case m of Inl e \<Rightarrow> Inl e | Inr v \<Rightarrow> k v)"

definition no_overflow :: "u64 \<times> bool \<Rightarrow> (u64 \<Rightarrow> vm_error + u64) \<Rightarrow> vm_error + u64" where
  "no_overflow p k = (case p of (v, overflow) \<Rightarrow> if overflow then Inl errGasUintOverflow else k v)"

definition memoryGasCost :: "Memory \<Rightarrow> u64 \<Rightarrow> (vm_error + u64) \<times> Memory" where
  "memoryGasCost mem newMemSize =
     (if newMemSize = 0 then (Inr 0, mem)
      else if newMemSize > 0xffffffffe0 then (Inl errGasUintOverflow, mem)
      else
        (let newMemSizeWords = toWordSize newMemSize;
             newSize = newMemSizeWords * 32
         in if unat newSize > length (store mem) then
              (let square = newMemSizeWords * newMemSizeWords;
                   linCoef = newMemSizeWords * MemoryGas;
                   quadCoef = square div QuadCoeffDiv;
                   newTotalFee = linCoef + quadCoef;
                   fee = newTotalFee - lastGasCost mem
               in (Inr fee, mem\<lparr>lastGasCost := newTotalFee\<rparr>))
            else (Inr 0, mem)))"

text \<open>The memory fee first, then the rest of the price.\<close>

definition with_memory ::
  "u64 \<Rightarrow> frame \<Rightarrow> (u64 \<Rightarrow> vm_error + u64) \<Rightarrow> ((vm_error + u64) \<times> frame) go" where
  "with_memory memorySize fr k =
     (case memoryGasCost (f_mem fr) memorySize of
        (r, mem) \<Rightarrow> Ret (sum_bind r k, fr\<lparr>f_mem := mem\<rparr>))"

text \<open>\<open>base\<close> plus \<open>perWord\<close> for each word of the data of length \<open>len\<close>.\<close>

definition copy_price :: "u64 \<Rightarrow> u64 \<Rightarrow> int \<Rightarrow> u64 \<Rightarrow> vm_error + u64" where
  "copy_price base perWord len gas =
     no_overflow (SafeAdd gas base) (\<lambda>gas1.
     no_overflow (bigUint64 len) (\<lambda>words.
     no_overflow (SafeMul (toWordSize words) perWord) (\<lambda>wordGas.
     no_overflow (SafeAdd gas1 wordGas) Inr)))"

type_synonym gas_result = "((vm_error + u64) \<times> frame) go"
type_synonym gas_func = "crypto \<Rightarrow> GasTable \<Rightarrow> u64 \<Rightarrow> frame \<Rightarrow> gas_result"

definition constGasFunc :: "u64 \<Rightarrow> gas_func" where
  "constGasFunc gas X gt memorySize fr = Ret (Inr gas, fr)"

definition gasCallDataCopy :: gas_func where
  "gasCallDataCopy X gt memorySize fr =
     (case f_stack fr of
        a # b # len # _ \<Rightarrow> with_memory memorySize fr (copy_price GasFastestStep CopyGas len)
      | _ \<Rightarrow> Panic)"

definition gasReturnDataCopy :: gas_func where
  "gasReturnDataCopy X gt memorySize fr =
     (case f_stack fr of
        a # b # len # _ \<Rightarrow> with_memory memorySize fr (copy_price GasFastestStep CopyGas len)
      | _ \<Rightarrow> Panic)"

definition gasSStore :: gas_func where
  "gasSStore X gt memorySize fr =
     (case f_stack fr of
        x # y # _ \<Rightarrow>
          (let evm = f_evm fr;
               addr = self_addr (f_contract fr);
               (s1, current) = GetState X addr (BigToHash x) (sdb evm);
               fin = (\<lambda>s gas. Ret (Inr gas, fr\<lparr>f_evm := evm\<lparr>sdb := s\<rparr>\<rparr>))
           in if rIsPetersburg (chainRules evm) \<or> \<not> rIsConstantinople (chainRules evm) then
                if current = 0 \<and> y \<noteq> 0 then fin s1 SstoreSetGas
                else if current \<noteq> 0 \<and> y = 0 then fin (AddRefund SstoreRefundGas s1) SstoreClearGas
                else fin s1 SstoreResetGas
              else
                (let val = BigToHash y
                 in if current = val then fin s1 NetSstoreNoopGas
                    else
                      (let (s2, original) = GetCommittedState X addr (BigToHash x) s1
                       in if original = current then
                            if original = 0 then fin s2 NetSstoreInitGas
                            else if val = 0 then fin (AddRefund NetSstoreClearRefund s2) NetSstoreCleanGas
                            else fin s2 NetSstoreCleanGas
                          else
                            go_bind (if original \<noteq> 0 then
                                       if current = 0 then SubRefund NetSstoreClearRefund s2
                                       else if val = 0 then Ret (AddRefund NetSstoreClearRefund s2)
                                       else Ret s2
                                     else Ret s2)
                              (\<lambda>s3. fin (if original = val then
                                            if original = 0 then AddRefund NetSstoreResetClearRefund s3
                                            else AddRefund NetSstoreResetRefund s3
                                          else s3) NetSstoreDirtyGas))))
      | _ \<Rightarrow> Panic)"

definition makeGasLog :: "u64 \<Rightarrow> gas_func" where
  "makeGasLog n X gt memorySize fr =
     (case f_stack fr of
        a # b # _ \<Rightarrow>
          (case bigUint64 b of
             (requestedSize, overflow) \<Rightarrow>
               if overflow then Ret (Inl errGasUintOverflow, fr)
               else with_memory memorySize fr (\<lambda>gas.
                 no_overflow (SafeAdd gas LogGas) (\<lambda>gas1.
                 no_overflow (SafeAdd gas1 (n * LogTopicGas)) (\<lambda>gas2.
                 no_overflow (SafeMul requestedSize LogDataGas) (\<lambda>memorySizeGas.
                 no_overflow (SafeAdd gas2 memorySizeGas) Inr)))))
      | _ \<Rightarrow> Panic)"

definition gasSha3 :: gas_func where
  "gasSha3 X gt memorySize fr =
     (case f_stack fr of
        a # len # _ \<Rightarrow> with_memory memorySize fr (copy_price Sha3Gas Sha3WordGas len)
      | _ \<Rightarrow> Panic)"

definition gasCodeCopy :: gas_func where
  "gasCodeCopy X gt memorySize fr =
     (case f_stack fr of
        a # b # len # _ \<Rightarrow> with_memory memorySize fr (copy_price GasFastestStep CopyGas len)
      | _ \<Rightarrow> Panic)"

definition gasExtCodeCopy :: gas_func where
  "gasExtCodeCopy X gt memorySize fr =
     (case f_stack fr of
        a # b # c # len # _ \<Rightarrow>
          with_memory memorySize fr (copy_price (gt_ExtcodeCopy gt) CopyGas len)
      | _ \<Rightarrow> Panic)"

definition gasExtCodeHash :: gas_func where
  "gasExtCodeHash X gt memorySize fr = Ret (Inr (gt_ExtcodeHash gt), fr)"

definition gasMLoad :: gas_func where
  "gasMLoad X gt memorySize fr =
     with_memory memorySize fr (\<lambda>gas. no_overflow (SafeAdd gas GasFastestStep) Inr)"

definition gasMStore8 :: gas_func where
  "gasMStore8 X gt memorySize fr =
     with_memory memorySize fr (\<lambda>gas. no_overflow (SafeAdd gas GasFastestStep) Inr)"

definition gasMStore :: gas_func where
  "gasMStore X gt memorySize fr =
     with_memory memorySize fr (\<lambda>gas. no_overflow (SafeAdd gas GasFastestStep) Inr)"

definition gasCreate :: gas_func where
  "gasCreate X gt memorySize fr =
     with_memory memorySize fr (\<lambda>gas. no_overflow (SafeAdd gas CreateGas) Inr)"

definition gasCreate2 :: gas_func where
  "gasCreate2 X gt memorySize fr =
     (case f_stack fr of
        a # b # len # _ \<Rightarrow> with_memory memorySize fr (copy_price Create2Gas Sha3WordGas len)
      | _ \<Rightarrow> Panic)"

definition gasBalance :: gas_func where
  "gasBalance X gt memorySize fr = Ret (Inr (gt_Balance gt), fr)"

definition gasExtCodeSize :: gas_func where
  "gasExtCodeSize X gt memorySize fr = Ret (Inr (gt_ExtcodeSize gt), fr)"

definition gasSLoad :: gas_func where
  "gasSLoad X gt memorySize fr = Ret (Inr (gt_SLoad gt), fr)"

definition gasExp :: gas_func where
  "gasExp X gt memorySize fr =
     (case f_stack fr of
        a # b # _ \<Rightarrow>
          (let expByteLen = of_nat ((BitLen b + 7) div 8);
               gas = expByteLen * gt_ExpByte gt
           in Ret (no_overflow (SafeAdd gas ExpGas) Inr, fr))
      | _ \<Rightarrow> Panic)"

text \<open>The end of the call prices: the memory fee on top of \<open>gas\<close>, then what the callee gets.\<close>

definition call_tail :: "GasTable \<Rightarrow> int \<Rightarrow> u64 \<Rightarrow> frame \<Rightarrow> ((vm_error + u64) \<times> frame)" where
  "call_tail gt callCost gas fr =
     (case callGas gt (c_Gas (f_contract fr)) gas callCost of
        Inl e \<Rightarrow> (Inl e, fr\<lparr>f_evm := (f_evm fr)\<lparr>callGasTemp := 0\<rparr>\<rparr>)
      | Inr temp \<Rightarrow>
          (no_overflow (SafeAdd gas temp) Inr, fr\<lparr>f_evm := (f_evm fr)\<lparr>callGasTemp := temp\<rparr>\<rparr>))"

definition call_price :: "GasTable \<Rightarrow> u64 \<Rightarrow> int \<Rightarrow> u64 \<Rightarrow> frame \<Rightarrow> gas_result" where
  "call_price gt memorySize callCost gas fr =
     (case memoryGasCost (f_mem fr) memorySize of
        (Inl e, mem) \<Rightarrow> Ret (Inl e, fr\<lparr>f_mem := mem\<rparr>)
      | (Inr memoryGas, mem) \<Rightarrow>
          (case SafeAdd gas memoryGas of
             (gas1, overflow) \<Rightarrow>
               if overflow then Ret (Inl errGasUintOverflow, fr\<lparr>f_mem := mem\<rparr>)
               else Ret (call_tail gt callCost gas1 (fr\<lparr>f_mem := mem\<rparr>))))"

definition gasCall :: gas_func where
  "gasCall X gt memorySize fr =
     (case f_stack fr of
        callCost # addr # val # _ \<Rightarrow>
          (let evm = f_evm fr;
               transfersValue = (val \<noteq> 0);
               address = BigToAddress addr;
               (s1, fresh) =
                 (if IsEIP158 (chainConfig evm) (block_num evm) then
                    if transfersValue then Empty X address (sdb evm) else (sdb evm, False)
                  else (let (s2, e) = Exist X address (sdb evm) in (s2, \<not> e)));
               gas1 = gt_Calls gt + (if fresh then CallNewAccountGas else 0);
               gas2 = gas1 + (if transfersValue then CallValueTransferGas else 0)
           in call_price gt memorySize callCost gas2 (fr\<lparr>f_evm := evm\<lparr>sdb := s1\<rparr>\<rparr>))
      | _ \<Rightarrow> Panic)"

definition gasCallCode :: gas_func where
  "gasCallCode X gt memorySize fr =
     (case f_stack fr of
        callCost # addr # val # _ \<Rightarrow>
          call_price gt memorySize callCost
            (gt_Calls gt + (if val \<noteq> 0 then CallValueTransferGas else 0)) fr
      | _ \<Rightarrow> Panic)"

definition gasReturn :: gas_func where
  "gasReturn X gt memorySize fr = with_memory memorySize fr Inr"

definition gasRevert :: gas_func where
  "gasRevert X gt memorySize fr = with_memory memorySize fr Inr"

definition gasSuicide :: gas_func where
  "gasSuicide X gt memorySize fr =
     (case f_stack fr of
        a # _ \<Rightarrow>
          (let evm = f_evm fr;
               self = self_addr (f_contract fr);
               (s1, gas) =
                 (if IsEIP150 (chainConfig evm) (block_num evm) then
                    (let address = BigToAddress a
                     in if IsEIP158 (chainConfig evm) (block_num evm) then
                          (let (s2, e) = Empty X address (sdb evm)
                           in if e then
                                (let (s3, b) = GetBalance X self s2
                                 in (s3, if b \<noteq> 0 then gt_Suicide gt + gt_CreateBySuicide gt
                                         else gt_Suicide gt))
                              else (s2, gt_Suicide gt))
                        else
                          (let (s2, e) = Exist X address (sdb evm)
                           in (s2, if e then gt_Suicide gt
                                   else gt_Suicide gt + gt_CreateBySuicide gt)))
                  else (sdb evm, 0));
               (s4, already) = HasSuicided X self s1;
               s5 = (if already then s4 else AddRefund SuicideRefundGas s4)
           in Ret (Inr gas, fr\<lparr>f_evm := evm\<lparr>sdb := s5\<rparr>\<rparr>))
      | _ \<Rightarrow> Panic)"

text \<open>\<open>gasDelegateCall\<close> and \<open>gasStaticCall\<close> start from the memory fee and add \<open>gt.Calls\<close>.\<close>

definition gasDelegateCall :: gas_func where
  "gasDelegateCall X gt memorySize fr =
     (case f_stack fr of
        callCost # _ \<Rightarrow>
          (case memoryGasCost (f_mem fr) memorySize of
             (Inl e, mem) \<Rightarrow> Ret (Inl e, fr\<lparr>f_mem := mem\<rparr>)
           | (Inr memoryGas, mem) \<Rightarrow>
               (case SafeAdd memoryGas (gt_Calls gt) of
                  (gas1, overflow) \<Rightarrow>
                    if overflow then Ret (Inl errGasUintOverflow, fr\<lparr>f_mem := mem\<rparr>)
                    else Ret (call_tail gt callCost gas1 (fr\<lparr>f_mem := mem\<rparr>))))
      | _ \<Rightarrow> Panic)"

definition gasStaticCall :: gas_func where
  "gasStaticCall X gt memorySize fr =
     (case f_stack fr of
        callCost # _ \<Rightarrow>
          (case memoryGasCost (f_mem fr) memorySize of
             (Inl e, mem) \<Rightarrow> Ret (Inl e, fr\<lparr>f_mem := mem\<rparr>)
           | (Inr memoryGas, mem) \<Rightarrow>
               (case SafeAdd memoryGas (gt_Calls gt) of
                  (gas1, overflow) \<Rightarrow>
                    if overflow then Ret (Inl errGasUintOverflow, fr\<lparr>f_mem := mem\<rparr>)
                    else Ret (call_tail gt callCost gas1 (fr\<lparr>f_mem := mem\<rparr>))))
      | _ \<Rightarrow> Panic)"

definition gasPush :: gas_func where
  "gasPush X gt memorySize fr = Ret (Inr GasFastestStep, fr)"

definition gasSwap :: gas_func where
  "gasSwap X gt memorySize fr = Ret (Inr GasFastestStep, fr)"

definition gasDup :: gas_func where
  "gasDup X gt memorySize fr = Ret (Inr GasFastestStep, fr)"

end
