(* ===== verification/Rlp.thy ===== *)
theory Rlp
  imports BigMath
begin

text \<open>
  The serialisation format of \<open>rlp\<close>: the encoder of \<open>encode.go\<close>, which writes all string data to
  one buffer and keeps the list headers apart until their sizes are known, and the splitting
  functions of \<open>raw.go\<close>. The reflection that picks a writer for a Go type is replaced by the
  datatype \<open>rlp_val\<close> of the values the writers handle.
\<close>

section \<open>Values\<close>

datatype rlp_val =
    RBytes bytes
  | RUint u64
  | RBool bool
  | RBigInt int
  | RList "rlp_val list"

section \<open>\<open>encode.go\<close>\<close>

definition byte_at :: "nat \<Rightarrow> u64 \<Rightarrow> u8" where
  "byte_at sh i = ucast (drop_bit sh i)"

definition putint :: "u64 \<Rightarrow> bytes" where
  "putint i =
     (if i < 2 ^ 8 then [byte_at 0 i]
      else if i < 2 ^ 16 then [byte_at 8 i, byte_at 0 i]
      else if i < 2 ^ 24 then [byte_at 16 i, byte_at 8 i, byte_at 0 i]
      else if i < 2 ^ 32 then [byte_at 24 i, byte_at 16 i, byte_at 8 i, byte_at 0 i]
      else if i < 2 ^ 40 then
        [byte_at 32 i, byte_at 24 i, byte_at 16 i, byte_at 8 i, byte_at 0 i]
      else if i < 2 ^ 48 then
        [byte_at 40 i, byte_at 32 i, byte_at 24 i, byte_at 16 i, byte_at 8 i, byte_at 0 i]
      else if i < 2 ^ 56 then
        [byte_at 48 i, byte_at 40 i, byte_at 32 i, byte_at 24 i, byte_at 16 i, byte_at 8 i,
         byte_at 0 i]
      else
        [byte_at 56 i, byte_at 48 i, byte_at 40 i, byte_at 32 i, byte_at 24 i, byte_at 16 i,
         byte_at 8 i, byte_at 0 i])"

text \<open>\<open>intsize\<close> shifts its argument right by a byte until nothing is left.\<close>

function intsize_loop :: "nat \<Rightarrow> u64 \<Rightarrow> nat" where
  "intsize_loop sz i =
     (let i' = drop_bit 8 i in if i' = 0 then sz else intsize_loop (sz + 1) i')"
  by auto

lemma unat_drop_bit_8: "unat (drop_bit 8 (i :: u64)) = unat i div 256"
  by (simp add: drop_bit_eq_div unat_div)

termination intsize_loop
proof (relation "measure (\<lambda>(sz, i). unat i)", goal_cases)
  case (2 sz i i')
  then have "unat i div 256 \<noteq> 0"
    by (metis unat_drop_bit_8 unat_eq_zero)
  then show ?case
    using 2 by (simp add: unat_drop_bit_8)
qed simp

declare intsize_loop.simps [simp del]

definition intsize :: "u64 \<Rightarrow> nat" where
  "intsize i = intsize_loop 1 i"

definition headsize :: "u64 \<Rightarrow> nat" where
  "headsize sz = (if sz < 56 then 1 else 1 + intsize sz)"

text \<open>The bytes \<open>puthead\<close> writes to the front of its buffer.\<close>

definition puthead :: "u8 \<Rightarrow> u8 \<Rightarrow> u64 \<Rightarrow> bytes" where
  "puthead smalltag largetag sz =
     (if sz < 56 then [smalltag + ucast sz]
      else (let s = putint sz in (largetag + of_nat (length s)) # s))"

record listhead =
  lh_offset :: nat
  lh_size :: nat

record encbuf =
  str :: bytes
  lheads :: "listhead list"
  lhsize :: nat

definition reset :: encbuf where
  "reset = \<lparr>str = [], lheads = [], lhsize = 0\<rparr>"

definition head_encode :: "listhead \<Rightarrow> bytes" where
  "head_encode head = puthead 0xC0 0xF7 (of_nat (lh_size head))"

definition encbuf_size :: "encbuf \<Rightarrow> nat" where
  "encbuf_size w = length (str w) + lhsize w"

definition append_str :: "bytes \<Rightarrow> encbuf \<Rightarrow> encbuf" where
  "append_str b w = w\<lparr>str := str w @ b\<rparr>"

definition encodeStringHeader :: "nat \<Rightarrow> encbuf \<Rightarrow> encbuf" where
  "encodeStringHeader sz w =
     (if sz < 56 then append_str [0x80 + of_nat sz] w
      else (let s = putint (of_nat sz) in append_str ((0xB7 + of_nat (length s)) # s) w))"

definition encodeString :: "bytes \<Rightarrow> encbuf \<Rightarrow> encbuf" where
  "encodeString b w =
     (if length b = 1 \<and> b ! 0 \<le> 0x7F then append_str [b ! 0] w
      else append_str b (encodeStringHeader (length b) w))"

text \<open>\<open>list\<close> opens a list: the position of its header among \<open>lheads\<close> stands for the pointer that
  \<open>listEnd\<close> receives.\<close>

definition enc_list :: "encbuf \<Rightarrow> nat \<times> encbuf" where
  "enc_list w = (length (lheads w),
     w\<lparr>lheads := lheads w @ [\<lparr>lh_offset = length (str w), lh_size = lhsize w\<rparr>]\<rparr>)"

definition listEnd :: "nat \<Rightarrow> encbuf \<Rightarrow> encbuf" where
  "listEnd i w =
     (let lh = lheads w ! i;
          sz = encbuf_size w - lh_offset lh - lh_size lh
      in w\<lparr>lheads := (lheads w)[i := lh\<lparr>lh_size := sz\<rparr>],
           lhsize := lhsize w + (if sz < 56 then 1 else 1 + intsize (of_nat sz))\<rparr>)"

definition writeUint :: "u64 \<Rightarrow> encbuf \<Rightarrow> encbuf" where
  "writeUint i w =
     (if i = 0 then append_str [0x80] w
      else if i < 128 then append_str [ucast i] w
      else (let s = putint i in append_str ((0x80 + of_nat (length s)) # s) w))"

definition writeBool :: "bool \<Rightarrow> encbuf \<Rightarrow> encbuf" where
  "writeBool b w = append_str [if b then 0x01 else 0x80] w"

definition writeBigInt :: "int \<Rightarrow> encbuf \<Rightarrow> string + encbuf" where
  "writeBigInt i w =
     (if i < 0 then Inl ''rlp: cannot encode negative *big.Int''
      else if i = 0 then Inr (append_str [0x80] w)
      else Inr (encodeString (big_Bytes i) w))"

text \<open>The writers of byte strings, integers, slices and structs; an error in an element ends the
  encoding.\<close>

fun write_val :: "rlp_val \<Rightarrow> encbuf \<Rightarrow> string + encbuf"
  and write_vals :: "rlp_val list \<Rightarrow> encbuf \<Rightarrow> string + encbuf" where
  "write_val (RBytes b) w = Inr (encodeString b w)"
| "write_val (RUint i) w = Inr (writeUint i w)"
| "write_val (RBool b) w = Inr (writeBool b w)"
| "write_val (RBigInt i) w = writeBigInt i w"
| "write_val (RList vs) w =
     (case enc_list w of
        (i, w1) \<Rightarrow> (case write_vals vs w1 of Inl e \<Rightarrow> Inl e | Inr w2 \<Rightarrow> Inr (listEnd i w2)))"
| "write_vals [] w = Inr w"
| "write_vals (v # vs) w =
     (case write_val v w of Inl e \<Rightarrow> Inl e | Inr w1 \<Rightarrow> write_vals vs w1)"

text \<open>\<open>copy(out[pos:], src)\<close>, and writing a header at \<open>pos\<close>, which panics when it does not fit.\<close>

definition copy_at :: "nat \<Rightarrow> bytes \<Rightarrow> bytes \<Rightarrow> bytes go" where
  "copy_at pos src out =
     (if pos \<le> length out
      then (let n = min (length src) (length out - pos)
            in Ret (take pos out @ take n src @ drop (pos + n) out))
      else Panic)"

definition put_at :: "nat \<Rightarrow> bytes \<Rightarrow> bytes \<Rightarrow> bytes go" where
  "put_at pos src out =
     (if pos + length src \<le> length out then copy_at pos src out else Panic)"

fun toBytes_loop ::
  "bytes \<Rightarrow> listhead list \<Rightarrow> nat \<Rightarrow> nat \<Rightarrow> bytes \<Rightarrow> bytes go" where
  "toBytes_loop s [] strpos pos out =
     go_bind (go_slice s (int strpos) (int (length s))) (\<lambda>d. copy_at pos d out)"
| "toBytes_loop s (head # hs) strpos pos out =
     go_bind (go_slice s (int strpos) (int (lh_offset head)))
       (\<lambda>d. go_bind (copy_at pos d out)
         (\<lambda>out1.
           (let n = min (length d) (length out - pos); enc = head_encode head
            in go_bind (put_at (pos + n) enc out1)
                 (toBytes_loop s hs (strpos + n) (pos + n + length enc)))))"

definition toBytes :: "encbuf \<Rightarrow> bytes go" where
  "toBytes w = toBytes_loop (str w) (lheads w) 0 0 (replicate (encbuf_size w) 0)"

definition EncodeToBytes :: "rlp_val \<Rightarrow> (string + bytes) go" where
  "EncodeToBytes v =
     (case write_val v reset of
        Inl e \<Rightarrow> Ret (Inl e)
      | Inr w \<Rightarrow> go_bind (toBytes w) (\<lambda>b. Ret (Inr b)))"

section \<open>\<open>raw.go\<close>\<close>

datatype Kind = Byte | String | List

datatype rlp_error =
  ErrUnexpectedEOF | ErrCanonSize | ErrValueTooLarge | ErrExpectedString | ErrExpectedList

definition readSize :: "bytes \<Rightarrow> u8 \<Rightarrow> (rlp_error + u64) go" where
  "readSize b slen =
     (if unat slen > length b then Ret (Inl ErrUnexpectedEOF)
      else
        (let at = (\<lambda>i sh. push_bit sh (ucast (b ! i) :: u64));
             s = (if slen = 1 then at 0 0
                  else if slen = 2 then or (at 0 8) (at 1 0)
                  else if slen = 3 then or (or (at 0 16) (at 1 8)) (at 2 0)
                  else if slen = 4 then or (or (or (at 0 24) (at 1 16)) (at 2 8)) (at 3 0)
                  else if slen = 5 then
                    or (or (or (or (at 0 32) (at 1 24)) (at 2 16)) (at 3 8)) (at 4 0)
                  else if slen = 6 then
                    or (or (or (or (or (at 0 40) (at 1 32)) (at 2 24)) (at 3 16)) (at 4 8)) (at 5 0)
                  else if slen = 7 then
                    or (or (or (or (or (or (at 0 48) (at 1 40)) (at 2 32)) (at 3 24)) (at 4 16))
                      (at 5 8)) (at 6 0)
                  else if slen = 8 then
                    or (or (or (or (or (or (or (at 0 56) (at 1 48)) (at 2 40)) (at 3 32)) (at 4 24))
                      (at 5 16)) (at 6 8)) (at 7 0)
                  else 0)
         in if s < 56 then Ret (Inl ErrCanonSize)
            else go_bind (go_index b 0)
              (\<lambda>b0. if b0 = 0 then Ret (Inl ErrCanonSize) else Ret (Inr s))))"

definition readKind :: "bytes \<Rightarrow> (rlp_error + Kind \<times> u64 \<times> u64) go" where
  "readKind buf =
     (if buf = [] then Ret (Inl ErrUnexpectedEOF)
      else
        (let b = buf ! 0;
             fin = (\<lambda>k tagsize contentsize.
               if contentsize > of_nat (length buf) - tagsize then Ret (Inl ErrValueTooLarge)
               else Ret (Inr (k, tagsize, contentsize)));
             sized = (\<lambda>k slen. go_bind (readSize (drop 1 buf) slen)
               (\<lambda>r. case r of Inl e \<Rightarrow> Ret (Inl e) | Inr c \<Rightarrow> fin k (ucast slen + 1) c))
         in if b < 0x80 then fin Byte 0 1
            else if b < 0xB8 then
              (let contentsize = ucast (b - 0x80)
               in if contentsize = 1 \<and> length buf > 1 \<and> buf ! 1 < 128 then Ret (Inl ErrCanonSize)
                  else fin String 1 contentsize)
            else if b < 0xC0 then sized String (b - 0xB7)
            else if b < 0xF8 then fin List 1 (ucast (b - 0xC0))
            else sized List (b - 0xF7)))"

definition Split :: "bytes \<Rightarrow> (rlp_error + Kind \<times> bytes \<times> bytes) go" where
  "Split b =
     go_bind (readKind b)
       (\<lambda>r. case r of
          Inl e \<Rightarrow> Ret (Inl e)
        | Inr (k, ts, cs) \<Rightarrow>
            go_bind (go_slice b (uint ts) (uint (ts + cs)))
              (\<lambda>content. go_bind (go_slice b (uint (ts + cs)) (int (length b)))
                (\<lambda>rest. Ret (Inr (k, content, rest)))))"

definition SplitString :: "bytes \<Rightarrow> (rlp_error + bytes \<times> bytes) go" where
  "SplitString b =
     go_bind (Split b)
       (\<lambda>r. case r of
          Inl e \<Rightarrow> Ret (Inl e)
        | Inr (k, content, rest) \<Rightarrow>
            if k = List then Ret (Inl ErrExpectedString) else Ret (Inr (content, rest)))"

definition SplitList :: "bytes \<Rightarrow> (rlp_error + bytes \<times> bytes) go" where
  "SplitList b =
     go_bind (Split b)
       (\<lambda>r. case r of
          Inl e \<Rightarrow> Ret (Inl e)
        | Inr (k, content, rest) \<Rightarrow>
            if k \<noteq> List then Ret (Inl ErrExpectedList) else Ret (Inr (content, rest)))"

text \<open>The loop of \<open>CountValues\<close>; every round drops at least one byte, so \<open>length b\<close> rounds are
  enough.\<close>

fun count_loop :: "nat \<Rightarrow> nat \<Rightarrow> bytes \<Rightarrow> (rlp_error + nat) go" where
  "count_loop n i [] = Ret (Inr i)"
| "count_loop 0 i (x # xs) = OutOfFuel"
| "count_loop (Suc n) i (x # xs) =
     go_bind (readKind (x # xs))
       (\<lambda>r. case r of
          Inl e \<Rightarrow> Ret (Inl e)
        | Inr (k, tagsize, sz) \<Rightarrow>
            go_bind (go_slice (x # xs) (uint (tagsize + sz)) (int (length (x # xs))))
              (count_loop n (i + 1)))"

definition CountValues :: "bytes \<Rightarrow> (rlp_error + nat) go" where
  "CountValues b = count_loop (length b) 0 b"

definition ListSize :: "u64 \<Rightarrow> u64" where
  "ListSize contentSize = of_nat (headsize contentSize) + contentSize"

end
