(* ===== verification/Evm.thy ===== *)
theory Evm
  imports Precompiles VmGas Rlp
begin

text \<open>
  Calls and contract creation, from \<open>evm.go\<close> and \<open>core/evm.go\<close>. The interpreter that runs a
  contract's code is the argument \<open>rn\<close>, so that calls and the interpreter can be defined one after
  the other; \<open>Interpreter\<close> ties the knot. Each function returns output, leftover gas, error, and the
  EVM afterwards.
\<close>

section \<open>Contract addresses, from \<open>crypto/crypto.go\<close>\<close>

definition hash_address :: "hash \<Rightarrow> address" where
  "hash_address h = BytesToAddress (drop 12 (Hash_Bytes h))"

definition CreateAddress :: "crypto \<Rightarrow> address \<Rightarrow> u64 \<Rightarrow> address go" where
  "CreateAddress X b nonce =
     go_bind (EncodeToBytes (RList [RBytes (Address_Bytes b), RUint nonce]))
       (\<lambda>r. Ret (hash_address (Keccak256 X (case r of Inl e \<Rightarrow> [] | Inr data \<Rightarrow> data))))"

definition CreateAddress2 :: "crypto \<Rightarrow> address \<Rightarrow> hash \<Rightarrow> hash \<Rightarrow> address" where
  "CreateAddress2 X b salt inithash =
     hash_address (Keccak256 X ([0xff] @ Address_Bytes b @ Hash_Bytes salt @ Hash_Bytes inithash))"

section \<open>Transfers, from \<open>core/evm.go\<close>\<close>

definition CanTransfer :: "crypto \<Rightarrow> address \<Rightarrow> int \<Rightarrow> StateDB \<Rightarrow> StateDB \<times> bool" where
  "CanTransfer X addr amount db =
     (let (db1, b) = GetBalance X addr db in (db1, b \<ge> amount))"

definition Transfer :: "crypto \<Rightarrow> address \<Rightarrow> address \<Rightarrow> int \<Rightarrow> StateDB \<Rightarrow> StateDB" where
  "Transfer X sender recipient amount db =
     AddBalance X recipient amount (SubBalance X sender amount db)"

section \<open>Running a contract\<close>

definition precompiles_of :: "EVM \<Rightarrow> address \<rightharpoonup> PrecompiledContract" where
  "precompiles_of evm =
     (if IsByzantium (chainConfig evm) (block_num evm) then PrecompiledContractsByzantium
      else PrecompiledContractsHomestead)"

text \<open>\<open>run\<close>: a precompiled contract, or else the interpreter, of which there is exactly one and
  which can run everything.\<close>

definition evm_run :: "crypto \<Rightarrow> runner \<Rightarrow> runner" where
  "evm_run X interp evm contract input ro =
     (case Option.bind (c_CodeAddr contract) (precompiles_of evm) of
        Some p \<Rightarrow>
          go_bind (RunPrecompiledContract X p input contract)
            (\<lambda>(ret, err, c). Ret (ret, err, c, evm))
      | None \<Rightarrow> interp evm contract input ro)"

type_synonym call_result = "(bytes \<times> u64 \<times> vm_error option \<times> EVM) go"

text \<open>The end of every call: on an error the state goes back to the snapshot, and the gas is
  consumed unless the callee reverted.\<close>

definition consume_on :: "vm_error option \<Rightarrow> Contract \<Rightarrow> Contract" where
  "consume_on err c = (if err \<noteq> Some errExecutionReverted then fst (UseGas (c_Gas c) c) else c)"

definition revert_evm :: "crypto \<Rightarrow> int \<Rightarrow> EVM \<Rightarrow> EVM go" where
  "revert_evm X snapshot evm =
     go_bind (RevertToSnapshot X snapshot (sdb evm)) (\<lambda>s. Ret (evm\<lparr>sdb := s\<rparr>))"

definition call_end ::
  "crypto \<Rightarrow> int \<Rightarrow> bytes \<times> vm_error option \<times> Contract \<times> EVM \<Rightarrow> call_result" where
  "call_end X snapshot r =
     (case r of
        (ret, None, c, evm) \<Rightarrow> Ret (ret, c_Gas c, None, evm)
      | (ret, Some err, c, evm) \<Rightarrow>
          go_bind (revert_evm X snapshot evm)
            (\<lambda>evm1. Ret (ret, c_Gas (consume_on (Some err) c), Some err, evm1)))"

definition too_deep :: "EVM \<Rightarrow> bool" where
  "too_deep evm \<longleftrightarrow> depth evm > unat CallCreateDepth"

definition no_recursion :: "EVM \<Rightarrow> bool" where
  "no_recursion evm \<longleftrightarrow> NoRecursion (vmConfig evm) \<and> depth evm > 0"

text \<open>\<open>SetCallCode\<close> with the code hash and the code the state holds for \<open>addr\<close>.\<close>

definition load_code :: "crypto \<Rightarrow> address \<Rightarrow> Contract \<Rightarrow> EVM \<Rightarrow> Contract \<times> EVM" where
  "load_code X addr c evm =
     (let (s1, h) = GetCodeHash X addr (sdb evm);
          (s2, code) = GetCode X addr s1
      in (SetCallCode addr h code c, evm\<lparr>sdb := s2\<rparr>))"

definition Call ::
  "crypto \<Rightarrow> runner \<Rightarrow> ContractRef \<Rightarrow> address \<Rightarrow> bytes \<Rightarrow> u64 \<Rightarrow> int \<Rightarrow> EVM \<Rightarrow> call_result" where
  "Call X rn caller addr input gas val evm =
     (if no_recursion evm then Ret ([], gas, None, evm)
      else if too_deep evm then Ret ([], gas, Some ErrDepth, evm)
      else
        (case CanTransfer X (ref_Address caller) val (sdb evm) of
           (s1, False) \<Rightarrow> Ret ([], gas, Some ErrInsufficientBalance, evm\<lparr>sdb := s1\<rparr>)
         | (s1, True) \<Rightarrow>
             (let (s2, snapshot) = Snapshot s1;
                  (s3, exists) = Exist X addr s2
              in if \<not> exists \<and> precompiles_of evm addr = None
                    \<and> IsEIP158 (chainConfig evm) (block_num evm) \<and> val = 0
                 then Ret ([], gas, None, evm\<lparr>sdb := s3\<rparr>)
                 else
                   (let s4 = (if exists then s3 else CreateAccount X addr False s3);
                        s5 = Transfer X (ref_Address caller) addr val s4;
                        (c1, evm1) = NewContract caller addr val gas (evm\<lparr>sdb := s5\<rparr>);
                        (c2, evm2) = load_code X addr c1 evm1
                    in go_bind (rn evm2 c2 input False) (call_end X snapshot)))))"

definition CallCode ::
  "crypto \<Rightarrow> runner \<Rightarrow> ContractRef \<Rightarrow> address \<Rightarrow> bytes \<Rightarrow> u64 \<Rightarrow> int \<Rightarrow> EVM \<Rightarrow> call_result" where
  "CallCode X rn caller addr input gas val evm =
     (if no_recursion evm then Ret ([], gas, None, evm)
      else if too_deep evm then Ret ([], gas, Some ErrDepth, evm)
      else
        (case CanTransfer X (ref_Address caller) val (sdb evm) of
           (s1, False) \<Rightarrow> Ret ([], gas, Some ErrInsufficientBalance, evm\<lparr>sdb := s1\<rparr>)
         | (s1, True) \<Rightarrow>
             (let (s2, snapshot) = Snapshot s1;
                  (c1, evm1) = NewContract caller (ref_Address caller) val gas (evm\<lparr>sdb := s2\<rparr>);
                  (c2, evm2) = load_code X addr c1 evm1
              in go_bind (rn evm2 c2 input False) (call_end X snapshot))))"

definition DelegateCall ::
  "crypto \<Rightarrow> runner \<Rightarrow> ContractRef \<Rightarrow> address \<Rightarrow> bytes \<Rightarrow> u64 \<Rightarrow> EVM \<Rightarrow> call_result" where
  "DelegateCall X rn caller addr input gas evm =
     (if no_recursion evm then Ret ([], gas, None, evm)
      else if too_deep evm then Ret ([], gas, Some ErrDepth, evm)
      else
        (let (s2, snapshot) = Snapshot (sdb evm);
             (c0, evm1) = NewContract caller (ref_Address caller) 0 gas (evm\<lparr>sdb := s2\<rparr>)
         in go_bind (AsDelegate caller c0)
              (\<lambda>c1. let (c2, evm2) = load_code X addr c1 evm1
                    in go_bind (rn evm2 c2 input False) (call_end X snapshot))))"

definition StaticCall ::
  "crypto \<Rightarrow> runner \<Rightarrow> ContractRef \<Rightarrow> address \<Rightarrow> bytes \<Rightarrow> u64 \<Rightarrow> EVM \<Rightarrow> call_result" where
  "StaticCall X rn caller addr input gas evm =
     (if no_recursion evm then Ret ([], gas, None, evm)
      else if too_deep evm then Ret ([], gas, Some ErrDepth, evm)
      else
        (let (s2, snapshot) = Snapshot (sdb evm);
             (c1, evm1) = NewContract caller addr 0 gas (evm\<lparr>sdb := s2\<rparr>);
             (c2, evm2) = load_code X addr c1 evm1;
             evm3 = evm2\<lparr>sdb := AddBalance X addr 0 (sdb evm2)\<rparr>
         in go_bind (rn evm3 c2 input True) (call_end X snapshot)))"

section \<open>Contract creation\<close>

text \<open>\<open>codeAndHash\<close>: the hash is zero until \<open>Hash\<close> has been called.\<close>

record codeAndHash =
  ch_code :: bytes
  ch_hash :: hash

definition codeAndHash_Hash :: "crypto \<Rightarrow> codeAndHash \<Rightarrow> codeAndHash" where
  "codeAndHash_Hash X c = (if ch_hash c = 0 then c\<lparr>ch_hash := Keccak256 X (ch_code c)\<rparr> else c)"

definition SetCodeOptionalHash :: "address \<Rightarrow> codeAndHash \<Rightarrow> Contract \<Rightarrow> Contract" where
  "SetCodeOptionalHash addr ch c =
     c\<lparr>c_Code := ch_code ch, c_CodeHash := ch_hash ch, c_CodeAddr := Some addr\<rparr>"

type_synonym create_result = "(bytes \<times> address \<times> u64 \<times> vm_error option \<times> EVM) go"

text \<open>What \<open>create\<close> does with the outcome of the init code: store the code if it fits and can be paid
  for, and undo everything if not.\<close>

definition store_code ::
  "crypto \<Rightarrow> address \<Rightarrow> bytes \<Rightarrow> Contract \<Rightarrow> EVM \<Rightarrow> vm_error option \<times> Contract \<times> EVM" where
  "store_code X addr ret c evm =
     (case UseGas (of_nat (length ret) * CreateDataGas) c of
        (c1, True) \<Rightarrow> (None, c1, evm\<lparr>sdb := SetCode X addr ret (sdb evm)\<rparr>)
      | (c1, False) \<Rightarrow> (Some ErrCodeStoreOutOfGas, c1, evm))"

definition create_end ::
  "crypto \<Rightarrow> address \<Rightarrow> int \<Rightarrow> bytes \<times> vm_error option \<times> Contract \<times> EVM \<Rightarrow> create_result" where
  "create_end X addr snapshot r =
     (case r of
        (ret, err0, c0, evm0) \<Rightarrow>
          (let maxCodeSizeExceeded =
                 (IsEIP158 (chainConfig evm0) (block_num evm0) \<and> length ret > MaxCodeSize);
               (err, c, evm) =
                 (if err0 = None \<and> \<not> maxCodeSizeExceeded then store_code X addr ret c0 evm0
                  else (err0, c0, evm0));
               err1 = (if maxCodeSizeExceeded \<and> err = None then Some errMaxCodeSizeExceeded else err)
           in if maxCodeSizeExceeded
                 \<or> err \<noteq> None \<and> (IsHomestead (chainConfig evm0) (block_num evm0)
                      \<or> err \<noteq> Some ErrCodeStoreOutOfGas)
              then go_bind (revert_evm X snapshot evm)
                     (\<lambda>evm1. Ret (ret, addr, c_Gas (consume_on err c), err1, evm1))
              else Ret (ret, addr, c_Gas c, err1, evm)))"

definition create ::
  "crypto \<Rightarrow> runner \<Rightarrow> ContractRef \<Rightarrow> codeAndHash \<Rightarrow> u64 \<Rightarrow> int \<Rightarrow> address \<Rightarrow> EVM \<Rightarrow> create_result" where
  "create X rn caller ch gas val addr evm =
     (if too_deep evm then Ret ([], 0, gas, Some ErrDepth, evm)
      else
        (case CanTransfer X (ref_Address caller) val (sdb evm) of
           (s1, False) \<Rightarrow> Ret ([], 0, gas, Some ErrInsufficientBalance, evm\<lparr>sdb := s1\<rparr>)
         | (s1, True) \<Rightarrow>
             (let (s2, nonce) = GetNonce X (ref_Address caller) s1;
                  s3 = SetNonce X (ref_Address caller) (nonce + 1) s2;
                  (s4, contractHash) = GetCodeHash X addr s3;
                  (s5, n) = GetNonce X addr s4
              in if n \<noteq> 0 \<or> contractHash \<noteq> 0 \<and> contractHash \<noteq> emptyCodeHash X
                 then Ret ([], 0, 0, Some ErrContractAddressCollision, evm\<lparr>sdb := s5\<rparr>)
                 else
                   (let (s6, snapshot) = Snapshot s5;
                        s7 = CreateAccount X addr True s6;
                        s8 = (if IsEIP158 (chainConfig evm) (block_num evm) then SetNonce X addr 1 s7
                              else s7);
                        s9 = Transfer X (ref_Address caller) addr val s8;
                        (c1, evm1) = NewContract caller addr val gas (evm\<lparr>sdb := s9\<rparr>);
                        c2 = SetCodeOptionalHash addr ch c1
                    in if no_recursion evm then Ret ([], addr, gas, None, evm1)
                       else go_bind (rn evm1 c2 [] False) (create_end X addr snapshot)))))"

definition Create ::
  "crypto \<Rightarrow> runner \<Rightarrow> ContractRef \<Rightarrow> bytes \<Rightarrow> u64 \<Rightarrow> int \<Rightarrow> EVM \<Rightarrow> create_result" where
  "Create X rn caller code gas val evm =
     (let (s1, nonce) = GetNonce X (ref_Address caller) (sdb evm)
      in go_bind (CreateAddress X (ref_Address caller) nonce)
           (\<lambda>addr. create X rn caller \<lparr>ch_code = code, ch_hash = 0\<rparr> gas val addr (evm\<lparr>sdb := s1\<rparr>)))"

definition Create2 ::
  "crypto \<Rightarrow> runner \<Rightarrow> ContractRef \<Rightarrow> bytes \<Rightarrow> u64 \<Rightarrow> int \<Rightarrow> int \<Rightarrow> EVM \<Rightarrow> create_result" where
  "Create2 X rn caller code gas endowment salt evm =
     (let ch = codeAndHash_Hash X \<lparr>ch_code = code, ch_hash = 0\<rparr>;
          addr = CreateAddress2 X (ref_Address caller) (BigToHash salt) (ch_hash ch)
      in create X rn caller ch gas endowment addr evm)"

end
