(* ===== verification/Instructions.thy ===== *)
theory Instructions
  imports Evm
begin

text \<open>
  The instructions, from \<open>instructions.go\<close>. Each takes the frame and returns the data it produces,
  its error, and the changed frame. Popping from or peeking at a stack that is too short is a
  panic: the interpreter checks the stack before. The call and create instructions run the callee
  with \<open>rn\<close>.
\<close>

section \<open>Building blocks\<close>

definition stack_op :: "frame \<Rightarrow> stack \<Rightarrow> op_result" where
  "stack_op fr st = Ret ([], None, fr\<lparr>f_stack := st\<rparr>)"

definition set_sdb :: "StateDB \<Rightarrow> frame \<Rightarrow> frame" where
  "set_sdb s fr = fr\<lparr>f_evm := (f_evm fr)\<lparr>sdb := s\<rparr>\<rparr>"

definition bool_int :: "bool \<Rightarrow> int" where
  "bool_int b = (if b then 1 else 0)"

definition unary :: "(int \<Rightarrow> int) \<Rightarrow> frame \<Rightarrow> op_result" where
  "unary f fr = (case f_stack fr of x # st \<Rightarrow> stack_op fr (f x # st) | _ \<Rightarrow> Panic)"

definition binary :: "(int \<Rightarrow> int \<Rightarrow> int) \<Rightarrow> frame \<Rightarrow> op_result" where
  "binary f fr = (case f_stack fr of x # y # st \<Rightarrow> stack_op fr (f x y # st) | _ \<Rightarrow> Panic)"

definition ternary :: "(int \<Rightarrow> int \<Rightarrow> int \<Rightarrow> int) \<Rightarrow> frame \<Rightarrow> op_result" where
  "ternary f fr = (case f_stack fr of x # y # z # st \<Rightarrow> stack_op fr (f x y z # st) | _ \<Rightarrow> Panic)"

definition push_value :: "int \<Rightarrow> frame \<Rightarrow> op_result" where
  "push_value v fr = stack_op fr (v # f_stack fr)"

section \<open>Arithmetic\<close>

definition opAdd :: executionFunc where
  "opAdd X rn = binary (\<lambda>x y. U256 (x + y))"

definition opSub :: executionFunc where
  "opSub X rn = binary (\<lambda>x y. U256 (x - y))"

definition opMul :: executionFunc where
  "opMul X rn = binary (\<lambda>x y. U256 (x * y))"

definition opDiv :: executionFunc where
  "opDiv X rn = binary (\<lambda>x y. if y \<noteq> 0 then U256 (x div y) else 0)"

definition opSdiv :: executionFunc where
  "opSdiv X rn = binary (\<lambda>x0 y0. let x = S256 x0; y = S256 y0 in
     if y = 0 \<or> x = 0 then 0
     else if sgn x \<noteq> sgn y then U256 (- (\<bar>x\<bar> div \<bar>y\<bar>))
     else U256 (\<bar>x\<bar> div \<bar>y\<bar>))"

definition opMod :: executionFunc where
  "opMod X rn = binary (\<lambda>x y. if y = 0 then 0 else U256 (x mod y))"

definition opSmod :: executionFunc where
  "opSmod X rn = binary (\<lambda>x0 y0. let x = S256 x0; y = S256 y0 in
     if y = 0 then 0
     else if x < 0 then U256 (- (\<bar>x\<bar> mod \<bar>y\<bar>))
     else U256 (\<bar>x\<bar> mod \<bar>y\<bar>))"

definition opExp :: executionFunc where
  "opExp X rn = binary (\<lambda>base exponent.
     if exponent < 1 then 1
     else if base = 0 then 0
     else if exponent = 1 then base
     else fst (math_Exp base exponent))"

definition opSignExtend :: executionFunc where
  "opSignExtend X rn fr =
     (case f_stack fr of
        back # st \<Rightarrow>
          if back < 31 then
            (case st of
               num # st1 \<Rightarrow>
                 (let b = unat (big_Uint64 back * 8 + 7);
                      mask = push_bit b 1 - 1;
                      num1 = (if bit num b then or num (not mask) else and num mask)
                  in stack_op fr (U256 num1 # st1))
             | [] \<Rightarrow> Panic)
          else stack_op fr st
      | [] \<Rightarrow> Panic)"

definition opNot :: executionFunc where
  "opNot X rn = unary (\<lambda>x. U256 (not x))"

definition opLt :: executionFunc where
  "opLt X rn = binary (\<lambda>x y. bool_int (x < y))"

definition opGt :: executionFunc where
  "opGt X rn = binary (\<lambda>x y. bool_int (x > y))"

definition opSlt :: executionFunc where
  "opSlt X rn = binary (\<lambda>x y.
     if x \<ge> tt255 \<and> y < tt255 then 1
     else if x < tt255 \<and> y \<ge> tt255 then 0
     else bool_int (x < y))"

definition opSgt :: executionFunc where
  "opSgt X rn = binary (\<lambda>x y.
     if x \<ge> tt255 \<and> y < tt255 then 0
     else if x < tt255 \<and> y \<ge> tt255 then 1
     else bool_int (x > y))"

definition opEq :: executionFunc where
  "opEq X rn = binary (\<lambda>x y. bool_int (x = y))"

definition opIszero :: executionFunc where
  "opIszero X rn = unary (\<lambda>x. if x > 0 then 0 else 1)"

definition opAnd :: executionFunc where
  "opAnd X rn = binary (\<lambda>x y. and x y)"

definition opOr :: executionFunc where
  "opOr X rn = binary (\<lambda>x y. or x y)"

definition opXor :: executionFunc where
  "opXor X rn = binary (\<lambda>x y. xor x y)"

definition opByte :: executionFunc where
  "opByte X rn = binary (\<lambda>th val.
     if th < 32 then uint (math_Byte val 32 (nat (big_Int64 th))) else 0)"

definition opAddmod :: executionFunc where
  "opAddmod X rn = ternary (\<lambda>x y z. if z > 0 then U256 ((x + y) mod z) else 0)"

definition opMulmod :: executionFunc where
  "opMulmod X rn = ternary (\<lambda>x y z. if z > 0 then U256 (x * y mod z) else 0)"

definition opSHL :: executionFunc where
  "opSHL X rn = binary (\<lambda>s v. let shift = U256 s; val = U256 v in
     if shift \<ge> 256 then 0 else U256 (push_bit (unat (big_Uint64 shift)) val))"

definition opSHR :: executionFunc where
  "opSHR X rn = binary (\<lambda>s v. let shift = U256 s; val = U256 v in
     if shift \<ge> 256 then 0 else U256 (drop_bit (unat (big_Uint64 shift)) val))"

definition opSAR :: executionFunc where
  "opSAR X rn = binary (\<lambda>s v. let shift = U256 s; val = S256 v in
     if shift \<ge> 256 then U256 (if val \<ge> 0 then 0 else - 1)
     else U256 (drop_bit (unat (big_Uint64 shift)) val))"

section \<open>Environment and data\<close>

definition opSha3 :: executionFunc where
  "opSha3 X rn fr =
     (case f_stack fr of
        offset # sz # st \<Rightarrow>
          go_bind (mem_Get (big_Int64 offset) (big_Int64 sz) (f_mem fr))
            (\<lambda>data.
              (let h = Keccak256 X data;
                   evm = f_evm fr;
                   s = (if EnablePreimageRecording (vmConfig evm) then AddPreimage h data (sdb evm)
                        else sdb evm)
               in stack_op (set_sdb s fr) (SetBytes (Hash_Bytes h) # st)))
      | _ \<Rightarrow> Panic)"

definition opAddress :: executionFunc where
  "opAddress X rn fr = push_value (Address_Big (self_addr (f_contract fr))) fr"

definition opBalance :: executionFunc where
  "opBalance X rn fr =
     (case f_stack fr of
        slot # st \<Rightarrow>
          (let (s, b) = GetBalance X (BigToAddress slot) (sdb (f_evm fr))
           in stack_op (set_sdb s fr) (b # st))
      | _ \<Rightarrow> Panic)"

definition opOrigin :: executionFunc where
  "opOrigin X rn fr = push_value (Address_Big (Origin (ctx (f_evm fr)))) fr"

definition opCaller :: executionFunc where
  "opCaller X rn fr = push_value (Address_Big (CallerAddress (f_contract fr))) fr"

definition opCallValue :: executionFunc where
  "opCallValue X rn fr = push_value (c_value (f_contract fr)) fr"

definition opCallDataLoad :: executionFunc where
  "opCallDataLoad X rn fr =
     (case f_stack fr of
        x # st \<Rightarrow>
          go_bind (getDataBig (c_Input (f_contract fr)) x 32) (\<lambda>d. stack_op fr (SetBytes d # st))
      | _ \<Rightarrow> Panic)"

definition opCallDataSize :: executionFunc where
  "opCallDataSize X rn fr = push_value (int (length (c_Input (f_contract fr)))) fr"

text \<open>Copying \<open>data\<close> to memory, padded with zeros.\<close>

definition copy_to_memory :: "bytes \<Rightarrow> int \<Rightarrow> int \<Rightarrow> int \<Rightarrow> frame \<Rightarrow> stack \<Rightarrow> op_result" where
  "copy_to_memory data memOffset dataOffset len fr st =
     go_bind (getDataBig data dataOffset len)
       (\<lambda>d. go_bind (mem_Set (big_Uint64 memOffset) (big_Uint64 len) d (f_mem fr))
         (\<lambda>m. stack_op (fr\<lparr>f_mem := m\<rparr>) st))"

definition opCallDataCopy :: executionFunc where
  "opCallDataCopy X rn fr =
     (case f_stack fr of
        memOffset # dataOffset # len # st \<Rightarrow>
          copy_to_memory (c_Input (f_contract fr)) memOffset dataOffset len fr st
      | _ \<Rightarrow> Panic)"

definition opReturnDataSize :: executionFunc where
  "opReturnDataSize X rn fr = push_value (int (length (returnData (f_evm fr)))) fr"

definition opReturnDataCopy :: executionFunc where
  "opReturnDataCopy X rn fr =
     (case f_stack fr of
        memOffset # dataOffset # len # st \<Rightarrow>
          (let e = dataOffset + len;
               rd = returnData (f_evm fr)
           in if BitLen e > 64 \<or> int (length rd) < uint (big_Uint64 e)
              then Ret ([], Some errReturnDataOutOfBounds, fr\<lparr>f_stack := st\<rparr>)
              else go_bind (go_slice rd (uint (big_Uint64 dataOffset)) (uint (big_Uint64 e)))
                (\<lambda>d. go_bind (mem_Set (big_Uint64 memOffset) (big_Uint64 len) d (f_mem fr))
                  (\<lambda>m. stack_op (fr\<lparr>f_mem := m\<rparr>) st)))
      | _ \<Rightarrow> Panic)"

definition opExtCodeSize :: executionFunc where
  "opExtCodeSize X rn fr =
     (case f_stack fr of
        slot # st \<Rightarrow>
          (let (s, n) = GetCodeSize X (BigToAddress slot) (sdb (f_evm fr))
           in stack_op (set_sdb s fr) (uint (word_of_int n :: u64) # st))
      | _ \<Rightarrow> Panic)"

definition opCodeSize :: executionFunc where
  "opCodeSize X rn fr = push_value (int (length (c_Code (f_contract fr)))) fr"

definition opCodeCopy :: executionFunc where
  "opCodeCopy X rn fr =
     (case f_stack fr of
        memOffset # codeOffset # len # st \<Rightarrow>
          copy_to_memory (c_Code (f_contract fr)) memOffset codeOffset len fr st
      | _ \<Rightarrow> Panic)"

definition opExtCodeCopy :: executionFunc where
  "opExtCodeCopy X rn fr =
     (case f_stack fr of
        a # memOffset # codeOffset # len # st \<Rightarrow>
          (let (s, code) = GetCode X (BigToAddress a) (sdb (f_evm fr))
           in copy_to_memory code memOffset codeOffset len (set_sdb s fr) st)
      | _ \<Rightarrow> Panic)"

definition opExtCodeHash :: executionFunc where
  "opExtCodeHash X rn fr =
     (case f_stack fr of
        slot # st \<Rightarrow>
          (let address = BigToAddress slot;
               (s1, e) = Empty X address (sdb (f_evm fr))
           in if e then stack_op (set_sdb s1 fr) (0 # st)
              else
                (let (s2, h) = GetCodeHash X address s1
                 in stack_op (set_sdb s2 fr) (SetBytes (Hash_Bytes h) # st)))
      | _ \<Rightarrow> Panic)"

definition opGasprice :: executionFunc where
  "opGasprice X rn fr = push_value (GasPrice (ctx (f_evm fr))) fr"

definition opBlockhash :: executionFunc where
  "opBlockhash X rn fr =
     (case f_stack fr of
        num # st \<Rightarrow>
          (let c = ctx (f_evm fr)
           in if num > BlockNumber c - 257 \<and> num < BlockNumber c
              then stack_op fr (Hash_Big (GetHash c (big_Uint64 num)) # st)
              else stack_op fr (0 # st))
      | _ \<Rightarrow> Panic)"

definition opCoinbase :: executionFunc where
  "opCoinbase X rn fr = push_value (Address_Big (Coinbase (ctx (f_evm fr)))) fr"

definition opTimestamp :: executionFunc where
  "opTimestamp X rn fr = push_value (U256 (Time (ctx (f_evm fr)))) fr"

definition opNumber :: executionFunc where
  "opNumber X rn fr = push_value (U256 (BlockNumber (ctx (f_evm fr)))) fr"

definition opDifficulty :: executionFunc where
  "opDifficulty X rn fr = push_value (U256 (Difficulty (ctx (f_evm fr)))) fr"

definition opGasLimit :: executionFunc where
  "opGasLimit X rn fr = push_value (U256 (uint (ctx_GasLimit (ctx (f_evm fr))))) fr"

section \<open>Stack, memory, storage and control\<close>

definition opPop :: executionFunc where
  "opPop X rn fr = (case f_stack fr of x # st \<Rightarrow> stack_op fr st | _ \<Rightarrow> Panic)"

definition opMload :: executionFunc where
  "opMload X rn fr =
     (case f_stack fr of
        offset # st \<Rightarrow>
          go_bind (mem_Get (big_Int64 offset) 32 (f_mem fr)) (\<lambda>d. stack_op fr (SetBytes d # st))
      | _ \<Rightarrow> Panic)"

definition opMstore :: executionFunc where
  "opMstore X rn fr =
     (case f_stack fr of
        mStart # val # st \<Rightarrow>
          go_bind (mem_Set32 (big_Uint64 mStart) val (f_mem fr))
            (\<lambda>m. stack_op (fr\<lparr>f_mem := m\<rparr>) st)
      | _ \<Rightarrow> Panic)"

definition opMstore8 :: executionFunc where
  "opMstore8 X rn fr =
     (case f_stack fr of
        o1 # v1 # st \<Rightarrow>
          (let off = big_Int64 o1; val = big_Int64 v1;
               m = f_mem fr
           in if 0 \<le> off \<and> off < int (length (store m))
              then stack_op (fr\<lparr>f_mem := m\<lparr>store := (store m)[nat off := word_of_int (and val 0xff)]\<rparr>\<rparr>) st
              else Panic)
      | _ \<Rightarrow> Panic)"

definition opSload :: executionFunc where
  "opSload X rn fr =
     (case f_stack fr of
        loc # st \<Rightarrow>
          (let (s, val) = GetState X (self_addr (f_contract fr)) (BigToHash loc) (sdb (f_evm fr))
           in stack_op (set_sdb s fr) (SetBytes (Hash_Bytes val) # st))
      | _ \<Rightarrow> Panic)"

definition opSstore :: executionFunc where
  "opSstore X rn fr =
     (case f_stack fr of
        loc # val # st \<Rightarrow>
          stack_op (set_sdb (SetState X (self_addr (f_contract fr)) (BigToHash loc) (BigToHash val)
            (sdb (f_evm fr))) fr) st
      | _ \<Rightarrow> Panic)"

definition jump_to :: "int \<Rightarrow> frame \<Rightarrow> op_result" where
  "jump_to pos fr =
     go_bind (validJumpdest pos (f_contract fr) (f_evm fr))
       (\<lambda>(ok, c, evm).
         (let fr1 = fr\<lparr>f_contract := c, f_evm := evm\<rparr>
          in if \<not> ok
             then Ret ([], Some (errInvalidJump (GetByte (big_Uint64 pos) c) pos), fr1)
             else Ret ([], None, fr1\<lparr>f_pc := big_Uint64 pos\<rparr>)))"

definition opJump :: executionFunc where
  "opJump X rn fr =
     (case f_stack fr of
        pos # st \<Rightarrow> jump_to pos (fr\<lparr>f_stack := st\<rparr>)
      | _ \<Rightarrow> Panic)"

definition opJumpi :: executionFunc where
  "opJumpi X rn fr =
     (case f_stack fr of
        pos # cond # st \<Rightarrow>
          if cond \<noteq> 0 then jump_to pos (fr\<lparr>f_stack := st\<rparr>)
          else Ret ([], None, fr\<lparr>f_stack := st, f_pc := f_pc fr + 1\<rparr>)
      | _ \<Rightarrow> Panic)"

definition opJumpdest :: executionFunc where
  "opJumpdest X rn fr = Ret ([], None, fr)"

definition opPc :: executionFunc where
  "opPc X rn fr = push_value (uint (f_pc fr)) fr"

definition opMsize :: executionFunc where
  "opMsize X rn fr = push_value (int (length (store (f_mem fr)))) fr"

definition opGas :: executionFunc where
  "opGas X rn fr = push_value (uint (c_Gas (f_contract fr))) fr"

section \<open>Creating contracts\<close>

definition add_gas :: "u64 \<Rightarrow> Contract \<Rightarrow> Contract" where
  "add_gas gas c = c\<lparr>c_Gas := c_Gas c + gas\<rparr>"

definition create_result_of :: "vm_error option \<Rightarrow> bytes \<Rightarrow> bytes" where
  "create_result_of suberr res = (if suberr = Some errExecutionReverted then res else [])"

definition opCreate :: executionFunc where
  "opCreate X rn fr =
     (case f_stack fr of
        val # offset # sz # st \<Rightarrow>
          go_bind (mem_Get (big_Int64 offset) (big_Int64 sz) (f_mem fr))
            (\<lambda>input.
              (let evm = f_evm fr;
                   gas0 = c_Gas (f_contract fr);
                   gas = (if IsEIP150 (chainConfig evm) (block_num evm) then gas0 - gas0 div 64 else gas0);
                   c1 = fst (UseGas gas (f_contract fr))
               in go_bind (Create X rn (ParentRef c1) input gas val evm)
                    (\<lambda>(res, addr, returnGas, suberr, evm1).
                      (let top =
                             (if IsHomestead (chainConfig evm1) (block_num evm1)
                                 \<and> suberr = Some ErrCodeStoreOutOfGas then 0
                              else if suberr \<noteq> None \<and> suberr \<noteq> Some ErrCodeStoreOutOfGas then 0
                              else Address_Big addr)
                       in Ret (create_result_of suberr res, None,
                            fr\<lparr>f_stack := top # st, f_contract := add_gas returnGas c1, f_evm := evm1\<rparr>)))))
      | _ \<Rightarrow> Panic)"

definition opCreate2 :: executionFunc where
  "opCreate2 X rn fr =
     (case f_stack fr of
        endowment # offset # sz # salt # st \<Rightarrow>
          go_bind (mem_Get (big_Int64 offset) (big_Int64 sz) (f_mem fr))
            (\<lambda>input.
              (let evm = f_evm fr;
                   gas0 = c_Gas (f_contract fr);
                   gas = gas0 - gas0 div 64;
                   c1 = fst (UseGas gas (f_contract fr))
               in go_bind (Create2 X rn (ParentRef c1) input gas endowment salt evm)
                    (\<lambda>(res, addr, returnGas, suberr, evm1).
                      (let top = (if suberr \<noteq> None then 0 else Address_Big addr)
                       in Ret (create_result_of suberr res, None,
                            fr\<lparr>f_stack := top # st, f_contract := add_gas returnGas c1, f_evm := evm1\<rparr>)))))
      | _ \<Rightarrow> Panic)"

section \<open>Calls\<close>

text \<open>What every call instruction does with the outcome of the call.\<close>

definition after_call ::
  "frame \<Rightarrow> stack \<Rightarrow> int \<Rightarrow> int \<Rightarrow> bytes \<times> u64 \<times> vm_error option \<times> EVM \<Rightarrow> op_result" where
  "after_call fr st retOffset retSize r =
     (case r of
        (ret, returnGas, err, evm) \<Rightarrow>
          go_bind (if err = None \<or> err = Some errExecutionReverted
                   then mem_Set (big_Uint64 retOffset) (big_Uint64 retSize) ret (f_mem fr)
                   else Ret (f_mem fr))
            (\<lambda>m. Ret (ret, None,
               fr\<lparr>f_stack := bool_int (err = None) # st, f_mem := m,
                  f_contract := add_gas returnGas (f_contract fr), f_evm := evm\<rparr>)))"

definition with_stipend :: "int \<Rightarrow> u64 \<Rightarrow> u64" where
  "with_stipend val gas = (if val \<noteq> 0 then gas + CallStipend else gas)"

definition opCall :: executionFunc where
  "opCall X rn fr =
     (case f_stack fr of
        g # addr # v # inOffset # inSize # retOffset # retSize # st \<Rightarrow>
          (let val = U256 v
           in go_bind (mem_Get (big_Int64 inOffset) (big_Int64 inSize) (f_mem fr))
                (\<lambda>args. go_bind
                   (Call X rn (ParentRef (f_contract fr)) (BigToAddress addr) args
                     (with_stipend val (callGasTemp (f_evm fr))) val (f_evm fr))
                   (after_call fr st retOffset retSize)))
      | _ \<Rightarrow> Panic)"

definition opCallCode :: executionFunc where
  "opCallCode X rn fr =
     (case f_stack fr of
        g # addr # v # inOffset # inSize # retOffset # retSize # st \<Rightarrow>
          (let val = U256 v
           in go_bind (mem_Get (big_Int64 inOffset) (big_Int64 inSize) (f_mem fr))
                (\<lambda>args. go_bind
                   (CallCode X rn (ParentRef (f_contract fr)) (BigToAddress addr) args
                     (with_stipend val (callGasTemp (f_evm fr))) val (f_evm fr))
                   (after_call fr st retOffset retSize)))
      | _ \<Rightarrow> Panic)"

definition opDelegateCall :: executionFunc where
  "opDelegateCall X rn fr =
     (case f_stack fr of
        g # addr # inOffset # inSize # retOffset # retSize # st \<Rightarrow>
          go_bind (mem_Get (big_Int64 inOffset) (big_Int64 inSize) (f_mem fr))
            (\<lambda>args. go_bind
               (DelegateCall X rn (ParentRef (f_contract fr)) (BigToAddress addr) args
                 (callGasTemp (f_evm fr)) (f_evm fr))
               (after_call fr st retOffset retSize))
      | _ \<Rightarrow> Panic)"

definition opStaticCall :: executionFunc where
  "opStaticCall X rn fr =
     (case f_stack fr of
        g # addr # inOffset # inSize # retOffset # retSize # st \<Rightarrow>
          go_bind (mem_Get (big_Int64 inOffset) (big_Int64 inSize) (f_mem fr))
            (\<lambda>args. go_bind
               (StaticCall X rn (ParentRef (f_contract fr)) (BigToAddress addr) args
                 (callGasTemp (f_evm fr)) (f_evm fr))
               (after_call fr st retOffset retSize))
      | _ \<Rightarrow> Panic)"

section \<open>Ending, logs, push, dup, swap\<close>

definition opReturn :: executionFunc where
  "opReturn X rn fr =
     (case f_stack fr of
        offset # sz # st \<Rightarrow>
          go_bind (mem_GetPtr (big_Int64 offset) (big_Int64 sz) (f_mem fr))
            (\<lambda>ret. Ret (ret, None, fr\<lparr>f_stack := st\<rparr>))
      | _ \<Rightarrow> Panic)"

definition opRevert :: executionFunc where
  "opRevert X rn fr =
     (case f_stack fr of
        offset # sz # st \<Rightarrow>
          go_bind (mem_GetPtr (big_Int64 offset) (big_Int64 sz) (f_mem fr))
            (\<lambda>ret. Ret (ret, None, fr\<lparr>f_stack := st\<rparr>))
      | _ \<Rightarrow> Panic)"

definition opStop :: executionFunc where
  "opStop X rn fr = Ret ([], None, fr)"

definition opSuicide :: executionFunc where
  "opSuicide X rn fr =
     (case f_stack fr of
        a # st \<Rightarrow>
          (let self = self_addr (f_contract fr);
               (s1, balance) = GetBalance X self (sdb (f_evm fr));
               s2 = AddBalance X (BigToAddress a) balance s1;
               (s3, b) = Suicide X self s2
           in stack_op (set_sdb s3 fr) st)
      | _ \<Rightarrow> Panic)"

definition makeLog :: "nat \<Rightarrow> executionFunc" where
  "makeLog n X rn fr =
     (case f_stack fr of
        mStart # mSize # st \<Rightarrow>
          if length st < n then Panic
          else
            go_bind (mem_Get (big_Int64 mStart) (big_Int64 mSize) (f_mem fr))
              (\<lambda>d.
                (let evm = f_evm fr;
                     l = \<lparr>log_Address = self_addr (f_contract fr),
                          log_Topics = map BigToHash (take n st), log_Data = d,
                          log_BlockNumber = big_Uint64 (BlockNumber (ctx evm)),
                          log_TxHash = 0, log_TxIndex = 0, log_BlockHash = 0, log_Index = 0\<rparr>
                 in stack_op (set_sdb (AddLog l (sdb evm)) fr) (drop n st)))
      | _ \<Rightarrow> Panic)"

definition makePush :: "u64 \<Rightarrow> nat \<Rightarrow> executionFunc" where
  "makePush sz pushByteSize X rn fr =
     (let code = c_Code (f_contract fr);
          codeLen = int (length code);
          start = sint (f_pc fr + 1);
          startMin = (if start < codeLen then start else codeLen);
          endMin = (if startMin + int pushByteSize < codeLen then startMin + int pushByteSize
                    else codeLen)
      in go_bind (go_slice code startMin endMin)
           (\<lambda>d. Ret ([], None,
              fr\<lparr>f_stack := SetBytes (RightPadBytes d (int pushByteSize)) # f_stack fr,
                 f_pc := f_pc fr + sz\<rparr>)))"

definition makeDup :: "nat \<Rightarrow> executionFunc" where
  "makeDup n X rn fr = go_bind (stack_dup n (f_stack fr)) (stack_op fr)"

definition makeSwap :: "nat \<Rightarrow> executionFunc" where
  "makeSwap n X rn fr = go_bind (stack_swap (n + 1) (f_stack fr)) (stack_op fr)"

end
