(* ===== verification/JumpTable.thy ===== *)
theory JumpTable
  imports Instructions
begin

text \<open>
  The instruction sets of \<open>jump_table.go\<close>: for each opcode the function that executes it, its price,
  its stack check, the memory it needs and its flags. An instruction set is a list of entries in
  which the first one for an opcode counts; an opcode without an entry is invalid. The entries of
  \<open>PUSH1\<close> to \<open>PUSH32\<close>, \<open>DUP1\<close> to \<open>DUP16\<close>, \<open>SWAP1\<close> to \<open>SWAP16\<close> and \<open>LOG0\<close> to \<open>LOG4\<close> are generated.
\<close>

section \<open>Operations\<close>

record operation =
  op_execute :: executionFunc
  op_gasCost :: gas_func
  op_validateStack :: "stack \<Rightarrow> vm_error option"
  op_memorySize :: "memorySizeFunc option"
  op_halts :: bool
  op_jumps :: bool
  op_writes :: bool
  op_reverts :: bool
  op_returns :: bool

definition plain ::
  "executionFunc \<Rightarrow> gas_func \<Rightarrow> (stack \<Rightarrow> vm_error option) \<Rightarrow> operation" where
  "plain ex gas vs = \<lparr>op_execute = ex, op_gasCost = gas, op_validateStack = vs,
     op_memorySize = None, op_halts = False, op_jumps = False, op_writes = False,
     op_reverts = False, op_returns = False\<rparr>"

type_synonym entries = "(u8 \<times> operation) list"

section \<open>The sets\<close>

text \<open>Frontier, part one: arithmetic, comparison and bits.\<close>

definition frontier_arith :: entries where
  "frontier_arith = [
    (STOP, (plain opStop (constGasFunc 0) (makeStackFunc 0 0))\<lparr>op_halts := True\<rparr>),
    (ADD, plain opAdd (constGasFunc GasFastestStep) (makeStackFunc 2 1)),
    (MUL, plain opMul (constGasFunc GasFastStep) (makeStackFunc 2 1)),
    (SUB, plain opSub (constGasFunc GasFastestStep) (makeStackFunc 2 1)),
    (DIV, plain opDiv (constGasFunc GasFastStep) (makeStackFunc 2 1)),
    (SDIV, plain opSdiv (constGasFunc GasFastStep) (makeStackFunc 2 1)),
    (MOD, plain opMod (constGasFunc GasFastStep) (makeStackFunc 2 1)),
    (SMOD, plain opSmod (constGasFunc GasFastStep) (makeStackFunc 2 1)),
    (ADDMOD, plain opAddmod (constGasFunc GasMidStep) (makeStackFunc 3 1)),
    (MULMOD, plain opMulmod (constGasFunc GasMidStep) (makeStackFunc 3 1)),
    (EXP, plain opExp gasExp (makeStackFunc 2 1)),
    (SIGNEXTEND, plain opSignExtend (constGasFunc GasFastStep) (makeStackFunc 2 1)),
    (LT, plain opLt (constGasFunc GasFastestStep) (makeStackFunc 2 1)),
    (GT, plain opGt (constGasFunc GasFastestStep) (makeStackFunc 2 1)),
    (SLT, plain opSlt (constGasFunc GasFastestStep) (makeStackFunc 2 1)),
    (SGT, plain opSgt (constGasFunc GasFastestStep) (makeStackFunc 2 1)),
    (EQ, plain opEq (constGasFunc GasFastestStep) (makeStackFunc 2 1)),
    (ISZERO, plain opIszero (constGasFunc GasFastestStep) (makeStackFunc 1 1)),
    (AND, plain opAnd (constGasFunc GasFastestStep) (makeStackFunc 2 1)),
    (XOR, plain opXor (constGasFunc GasFastestStep) (makeStackFunc 2 1)),
    (OR, plain opOr (constGasFunc GasFastestStep) (makeStackFunc 2 1)),
    (NOT, plain opNot (constGasFunc GasFastestStep) (makeStackFunc 1 1)),
    (BYTE, plain opByte (constGasFunc GasFastestStep) (makeStackFunc 2 1))]"

text \<open>Part two: hashing, environment and block information.\<close>

definition frontier_env :: entries where
  "frontier_env = [
    (SHA3, (plain opSha3 gasSha3 (makeStackFunc 2 1))\<lparr>op_memorySize := Some memorySha3\<rparr>),
    (ADDRESS, plain opAddress (constGasFunc GasQuickStep) (makeStackFunc 0 1)),
    (BALANCE, plain opBalance gasBalance (makeStackFunc 1 1)),
    (ORIGIN, plain opOrigin (constGasFunc GasQuickStep) (makeStackFunc 0 1)),
    (CALLER, plain opCaller (constGasFunc GasQuickStep) (makeStackFunc 0 1)),
    (CALLVALUE, plain opCallValue (constGasFunc GasQuickStep) (makeStackFunc 0 1)),
    (CALLDATALOAD, plain opCallDataLoad (constGasFunc GasFastestStep) (makeStackFunc 1 1)),
    (CALLDATASIZE, plain opCallDataSize (constGasFunc GasQuickStep) (makeStackFunc 0 1)),
    (CALLDATACOPY, (plain opCallDataCopy gasCallDataCopy (makeStackFunc 3 0))\<lparr>op_memorySize := Some memoryCallDataCopy\<rparr>),
    (CODESIZE, plain opCodeSize (constGasFunc GasQuickStep) (makeStackFunc 0 1)),
    (CODECOPY, (plain opCodeCopy gasCodeCopy (makeStackFunc 3 0))\<lparr>op_memorySize := Some memoryCodeCopy\<rparr>),
    (GASPRICE, plain opGasprice (constGasFunc GasQuickStep) (makeStackFunc 0 1)),
    (EXTCODESIZE, plain opExtCodeSize gasExtCodeSize (makeStackFunc 1 1)),
    (EXTCODECOPY, (plain opExtCodeCopy gasExtCodeCopy (makeStackFunc 4 0))\<lparr>op_memorySize := Some memoryExtCodeCopy\<rparr>),
    (BLOCKHASH, plain opBlockhash (constGasFunc GasExtStep) (makeStackFunc 1 1)),
    (COINBASE, plain opCoinbase (constGasFunc GasQuickStep) (makeStackFunc 0 1)),
    (TIMESTAMP, plain opTimestamp (constGasFunc GasQuickStep) (makeStackFunc 0 1)),
    (NUMBER, plain opNumber (constGasFunc GasQuickStep) (makeStackFunc 0 1)),
    (DIFFICULTY, plain opDifficulty (constGasFunc GasQuickStep) (makeStackFunc 0 1)),
    (GASLIMIT, plain opGasLimit (constGasFunc GasQuickStep) (makeStackFunc 0 1))]"

text \<open>Part three: stack, memory, storage, control, and the system operations.\<close>

definition frontier_sys :: entries where
  "frontier_sys = [
    (POP, plain opPop (constGasFunc GasQuickStep) (makeStackFunc 1 0)),
    (MLOAD, (plain opMload gasMLoad (makeStackFunc 1 1))\<lparr>op_memorySize := Some memoryMLoad\<rparr>),
    (MSTORE, (plain opMstore gasMStore (makeStackFunc 2 0))\<lparr>op_memorySize := Some memoryMStore\<rparr>),
    (MSTORE8, (plain opMstore8 gasMStore8 (makeStackFunc 2 0))\<lparr>op_memorySize := Some memoryMStore8\<rparr>),
    (SLOAD, plain opSload gasSLoad (makeStackFunc 1 1)),
    (SSTORE, (plain opSstore gasSStore (makeStackFunc 2 0))\<lparr>op_writes := True\<rparr>),
    (JUMP, (plain opJump (constGasFunc GasMidStep) (makeStackFunc 1 0))\<lparr>op_jumps := True\<rparr>),
    (JUMPI, (plain opJumpi (constGasFunc GasSlowStep) (makeStackFunc 2 0))\<lparr>op_jumps := True\<rparr>),
    (PC, plain opPc (constGasFunc GasQuickStep) (makeStackFunc 0 1)),
    (MSIZE, plain opMsize (constGasFunc GasQuickStep) (makeStackFunc 0 1)),
    (GAS, plain opGas (constGasFunc GasQuickStep) (makeStackFunc 0 1)),
    (JUMPDEST, plain opJumpdest (constGasFunc JumpdestGas) (makeStackFunc 0 0)),
    (CREATE, (plain opCreate gasCreate (makeStackFunc 3 1))\<lparr>op_memorySize := Some memoryCreate, op_writes := True, op_returns := True\<rparr>),
    (CALL, (plain opCall gasCall (makeStackFunc 7 1))\<lparr>op_memorySize := Some memoryCall, op_returns := True\<rparr>),
    (CALLCODE, (plain opCallCode gasCallCode (makeStackFunc 7 1))\<lparr>op_memorySize := Some memoryCall, op_returns := True\<rparr>),
    (RETURN, (plain opReturn gasReturn (makeStackFunc 2 0))\<lparr>op_memorySize := Some memoryReturn, op_halts := True\<rparr>),
    (SELFDESTRUCT, (plain opSuicide gasSuicide (makeStackFunc 1 0))\<lparr>op_halts := True, op_writes := True\<rparr>)]"

definition frontier_push :: entries where
  "frontier_push =
     map (\<lambda>n. (PUSH n, plain (makePush (of_nat n) n) gasPush (makeStackFunc 0 1))) [1..<33]"

definition frontier_dup :: entries where
  "frontier_dup = map (\<lambda>n. (DUP n, plain (makeDup n) gasDup (makeDupStackFunc n))) [1..<17]"

definition frontier_swap :: entries where
  "frontier_swap = map (\<lambda>n. (SWAP n, plain (makeSwap n) gasSwap (makeSwapStackFunc (n + 1)))) [1..<17]"

definition frontier_log :: entries where
  "frontier_log = map (\<lambda>n. (LOG n, (plain (makeLog n) (makeGasLog (of_nat n)) (makeStackFunc (n + 2) 0))
     \<lparr>op_memorySize := Some memoryLog, op_writes := True\<rparr>)) [0..<5]"

definition newFrontierInstructionSet :: entries where
  "newFrontierInstructionSet = frontier_arith @ frontier_env @ frontier_sys @ frontier_push
     @ frontier_dup @ frontier_swap @ frontier_log"

definition newHomesteadInstructionSet :: entries where
  "newHomesteadInstructionSet = [
    (DELEGATECALL, (plain opDelegateCall gasDelegateCall (makeStackFunc 6 1))\<lparr>op_memorySize := Some memoryDelegateCall, op_returns := True\<rparr>)] @ newFrontierInstructionSet"

definition newByzantiumInstructionSet :: entries where
  "newByzantiumInstructionSet = [
    (STATICCALL, (plain opStaticCall gasStaticCall (makeStackFunc 6 1))\<lparr>op_memorySize := Some memoryStaticCall, op_returns := True\<rparr>),
    (RETURNDATASIZE, plain opReturnDataSize (constGasFunc GasQuickStep) (makeStackFunc 0 1)),
    (RETURNDATACOPY, (plain opReturnDataCopy gasReturnDataCopy (makeStackFunc 3 0))\<lparr>op_memorySize := Some memoryReturnDataCopy\<rparr>),
    (REVERT, (plain opRevert gasRevert (makeStackFunc 2 0))\<lparr>op_memorySize := Some memoryRevert, op_reverts := True, op_returns := True\<rparr>)] @ newHomesteadInstructionSet"

definition newConstantinopleInstructionSet :: entries where
  "newConstantinopleInstructionSet = [
    (SHL, plain opSHL (constGasFunc GasFastestStep) (makeStackFunc 2 1)),
    (SHR, plain opSHR (constGasFunc GasFastestStep) (makeStackFunc 2 1)),
    (SAR, plain opSAR (constGasFunc GasFastestStep) (makeStackFunc 2 1)),
    (EXTCODEHASH, plain opExtCodeHash gasExtCodeHash (makeStackFunc 1 1)),
    (CREATE2, (plain opCreate2 gasCreate2 (makeStackFunc 4 1))\<lparr>op_memorySize := Some memoryCreate2, op_writes := True, op_returns := True\<rparr>)] @ newByzantiumInstructionSet"

fun JumpTable_of :: "instruction_set \<Rightarrow> entries" where
  "JumpTable_of Frontier = newFrontierInstructionSet"
| "JumpTable_of Homestead = newHomesteadInstructionSet"
| "JumpTable_of Byzantium = newByzantiumInstructionSet"
| "JumpTable_of Constantinople = newConstantinopleInstructionSet"

end
