(* ===== verification/Interpreter.thy ===== *)
theory Interpreter
  imports JumpTable
begin

text \<open>
  The interpreter loop of \<open>interpreter.go\<close>, tied together with the calls of \<open>evm.go\<close>. The loop is
  recursive on fuel: a round takes one unit, and a callee runs on the fuel that is left. Every round
  that does not end the frame burns gas and a callee gets less gas than its caller had, so fuel above
  the gas supplied is always enough; \<open>Termination\<close> proves it.
\<close>

section \<open>\<open>NewEVM\<close> and \<open>NewEVMInterpreter\<close>\<close>

definition instructions_of :: "ChainConfig \<Rightarrow> int option \<Rightarrow> instruction_set" where
  "instructions_of c num =
     (if IsConstantinople c num then Constantinople
      else if IsByzantium c num then Byzantium
      else if IsHomestead c num then Homestead
      else Frontier)"

definition NewEVM :: "Context \<Rightarrow> StateDB \<Rightarrow> ChainConfig \<Rightarrow> Config \<Rightarrow> EVM go" where
  "NewEVM context statedb cc cfg =
     (let num = Some (BlockNumber context)
      in if IsEWASM cc num then Panic
         else Ret \<lparr>ctx = context, sdb = statedb, depth = 0, chainConfig = cc,
           chainRules = Rules_of cc num, vmConfig = cfg, abort = False, callGasTemp = 0,
           in_gasTable = GasTable_of cc num, in_instructions = instructions_of cc num,
           readOnly = False, returnData = [], jumpdests = Map.empty\<rparr>)"

section \<open>One round of the loop\<close>

definition enforceRestrictions :: "u8 \<Rightarrow> operation \<Rightarrow> stack \<Rightarrow> EVM \<Rightarrow> vm_error option go" where
  "enforceRestrictions op operation st evm =
     (if rIsByzantium (chainRules evm) \<and> readOnly evm then
        if op_writes operation then Ret (Some errWriteProtection)
        else if op = CALL then
          go_bind (go_index st 2)
            (\<lambda>v. Ret (if BitLen v > 0 then Some errWriteProtection else None))
        else Ret None
      else Ret None)"

definition memory_needed :: "operation \<Rightarrow> stack \<Rightarrow> (vm_error + u64) go" where
  "memory_needed operation st =
     (case op_memorySize operation of
        None \<Rightarrow> Ret (Inr 0)
      | Some f \<Rightarrow>
          go_bind (f st)
            (\<lambda>sz. case bigUint64 sz of
               (memSize, overflow) \<Rightarrow>
                 if overflow then Ret (Inl errGasUintOverflow)
                 else
                   (case SafeMul (toWordSize memSize) 32 of
                      (memorySize, overflow2) \<Rightarrow>
                        if overflow2 then Ret (Inl errGasUintOverflow) else Ret (Inr memorySize))))"

datatype outcome = Halt bytes "vm_error option" frame | Next frame

definition set_returnData :: "bytes \<Rightarrow> frame \<Rightarrow> frame" where
  "set_returnData d fr = fr\<lparr>f_evm := (f_evm fr)\<lparr>returnData := d\<rparr>\<rparr>"

text \<open>What follows the execution of an operation: the return data, and how the loop goes on.\<close>

definition after_op ::
  "operation \<Rightarrow> bytes \<times> vm_error option \<times> frame \<Rightarrow> outcome" where
  "after_op operation r =
     (case r of
        (res, err, fr) \<Rightarrow>
          (let fr1 = (if op_returns operation then set_returnData res fr else fr)
           in if err \<noteq> None then Halt [] err fr1
              else if op_reverts operation then Halt res (Some errExecutionReverted) fr1
              else if op_halts operation then Halt res None fr1
              else if \<not> op_jumps operation then Next (fr1\<lparr>f_pc := f_pc fr1 + 1\<rparr>)
              else Next fr1))"

text \<open>Charging for an operation and growing the memory; \<open>Inl\<close> is the frame in which the gas ran
  out.\<close>

definition charge ::
  "crypto \<Rightarrow> operation \<Rightarrow> u64 \<Rightarrow> frame \<Rightarrow> (frame + frame) go" where
  "charge X operation memorySize fr =
     go_bind (op_gasCost operation X (in_gasTable (f_evm fr)) memorySize fr)
       (\<lambda>(r, fr1).
         case r of
           Inl err \<Rightarrow> Ret (Inl fr1)
         | Inr cost \<Rightarrow>
             (case UseGas cost (f_contract fr1) of
                (c, False) \<Rightarrow> Ret (Inl fr1)
              | (c, True) \<Rightarrow>
                  Ret (Inr (fr1\<lparr>f_contract := c,
                    f_mem := (if memorySize > 0 then mem_Resize memorySize (f_mem fr1)
                              else f_mem fr1)\<rparr>))))"

definition step :: "crypto \<Rightarrow> runner \<Rightarrow> frame \<Rightarrow> outcome go" where
  "step X rn fr =
     (let op = GetByte (f_pc fr) (f_contract fr)
      in case map_of (JumpTable_of (in_instructions (f_evm fr))) op of
           None \<Rightarrow> Ret (Halt [] (Some (errInvalidOpcode op)) fr)
         | Some operation \<Rightarrow>
             (case op_validateStack operation (f_stack fr) of
                Some err \<Rightarrow> Ret (Halt [] (Some err) fr)
              | None \<Rightarrow>
                  go_bind (enforceRestrictions op operation (f_stack fr) (f_evm fr))
                    (\<lambda>restriction. case restriction of
                       Some err \<Rightarrow> Ret (Halt [] (Some err) fr)
                     | None \<Rightarrow>
                         go_bind (memory_needed operation (f_stack fr))
                           (\<lambda>needed. case needed of
                              Inl err \<Rightarrow> Ret (Halt [] (Some err) fr)
                            | Inr memorySize \<Rightarrow>
                                go_bind (charge X operation memorySize fr)
                                  (\<lambda>charged. case charged of
                                     Inl fr1 \<Rightarrow> Ret (Halt [] (Some ErrOutOfGas) fr1)
                                   | Inr fr1 \<Rightarrow>
                                       go_bind (op_execute operation X rn fr1)
                                         (\<lambda>r. Ret (after_op operation r)))))))"

section \<open>\<open>Run\<close>\<close>

text \<open>\<open>Run\<close> around its loop: depth, read-only mode and return data are set up and, by the deferred
  functions, restored.\<close>

type_synonym loop = "frame \<Rightarrow> (bytes \<times> vm_error option \<times> frame) go"

definition enter :: "bool \<Rightarrow> EVM \<Rightarrow> EVM" where
  "enter ro evm = evm\<lparr>depth := depth evm + 1, readOnly := readOnly evm \<or> ro, returnData := []\<rparr>"

definition leave :: "bool \<Rightarrow> EVM \<Rightarrow> EVM \<Rightarrow> EVM" where
  "leave ro evm evm1 = evm1\<lparr>depth := depth evm1 - 1,
     readOnly := (if ro \<and> \<not> readOnly evm then False else readOnly evm1)\<rparr>"

definition Run :: "loop \<Rightarrow> runner" where
  "Run loop evm contract input ro =
     (let evm1 = enter ro evm
      in if c_Code contract = [] then Ret ([], None, contract, leave ro evm evm1)
         else
           go_bind (loop \<lparr>f_pc = 0, f_contract = contract\<lparr>c_Input := input\<rparr>, f_mem = NewMemory,
                           f_stack = [], f_evm = evm1\<rparr>)
             (\<lambda>(ret, err, fr). Ret (ret, err, f_contract fr, leave ro evm (f_evm fr))))"

primrec run_loop :: "crypto \<Rightarrow> nat \<Rightarrow> loop" where
  "run_loop X 0 fr = OutOfFuel"
| "run_loop X (Suc n) fr =
     (if abort (f_evm fr) then Ret ([], None, fr)
      else
        go_bind (step X (evm_run X (Run (run_loop X n))) fr)
          (\<lambda>r. case r of Halt ret err fr1 \<Rightarrow> Ret (ret, err, fr1) | Next fr1 \<Rightarrow> run_loop X n fr1))"

text \<open>\<open>run\<close> of \<open>evm.go\<close> on \<open>n\<close> units of fuel.\<close>

definition runner_of :: "crypto \<Rightarrow> nat \<Rightarrow> runner" where
  "runner_of X n = evm_run X (Run (run_loop X n))"

end
