(* ===== verification/StateTransition.thy ===== *)
theory StateTransition
  imports Interpreter
begin

text \<open>
  How a message is applied to the state: \<open>core/state_transition.go\<close> and the gas pool of a block,
  \<open>core/gaspool.go\<close>. Gas is bought at the start, the message runs as a call or a creation, what is left
  is sold back, the miner is paid.
\<close>

section \<open>Errors and messages\<close>

datatype tx_error = ErrGasLimitReached | ErrNonceTooHigh | ErrNonceTooLow | errInsufficientBalanceForGas
  | VmError vm_error

record Message =
  From :: address
  To :: "address option"
  msg_GasPrice :: int
  msg_Gas :: u64
  msg_Value :: int
  msg_Nonce :: u64
  CheckNonce :: bool
  msg_Data :: bytes

section \<open>The gas pool\<close>

type_synonym GasPool = u64

definition AddGas :: "u64 \<Rightarrow> GasPool \<Rightarrow> GasPool go" where
  "AddGas amount gp = (if gp > MaxUint64 - amount then Panic else Ret (gp + amount))"

definition SubGas :: "u64 \<Rightarrow> GasPool \<Rightarrow> tx_error + GasPool" where
  "SubGas amount gp = (if gp < amount then Inl ErrGasLimitReached else Inr (gp - amount))"

section \<open>Intrinsic gas\<close>

definition IntrinsicGas :: "bytes \<Rightarrow> bool \<Rightarrow> bool \<Rightarrow> vm_error + u64" where
  "IntrinsicGas data contractCreation homestead =
     (let gas = (if contractCreation \<and> homestead then TxGasContractCreation else TxGas)
      in if length data > 0 then
           (let nz = of_nat (length (filter (\<lambda>byt. byt \<noteq> 0) data))
            in if (MaxUint64 - gas) div TxDataNonZeroGas < nz then Inl ErrOutOfGas
               else
                 (let gas1 = gas + nz * TxDataNonZeroGas;
                      z = of_nat (length data) - nz
                  in if (MaxUint64 - gas1) div TxDataZeroGas < z then Inl ErrOutOfGas
                     else Inr (gas1 + z * TxDataZeroGas)))
         else Inr gas)"

section \<open>The state transition\<close>

text \<open>The field \<open>state\<close> is the \<open>StateDB\<close> of the EVM, so \<open>sdb (st_evm st)\<close>; the gas pool, a pointer in the
  code, is held by value.\<close>

record StateTransition =
  st_gp :: GasPool
  st_msg :: Message
  st_gas :: u64
  st_gasPrice :: int
  initialGas :: u64
  st_value :: int
  st_data :: bytes
  st_evm :: EVM

definition NewStateTransition :: "EVM \<Rightarrow> Message \<Rightarrow> GasPool \<Rightarrow> StateTransition" where
  "NewStateTransition evm msg gp =
     \<lparr>st_gp = gp, st_msg = msg, st_gas = 0, st_gasPrice = msg_GasPrice msg, initialGas = 0,
      st_value = msg_Value msg, st_data = msg_Data msg, st_evm = evm\<rparr>"

definition set_state :: "StateDB \<Rightarrow> StateTransition \<Rightarrow> StateTransition" where
  "set_state s st = st\<lparr>st_evm := (st_evm st)\<lparr>sdb := s\<rparr>\<rparr>"

abbreviation st_state :: "StateTransition \<Rightarrow> StateDB" where
  "st_state st \<equiv> sdb (st_evm st)"

definition st_to :: "StateTransition \<Rightarrow> address" where
  "st_to st = (case To (st_msg st) of None \<Rightarrow> 0 | Some a \<Rightarrow> a)"

definition st_useGas :: "u64 \<Rightarrow> StateTransition \<Rightarrow> tx_error + StateTransition" where
  "st_useGas amount st =
     (if st_gas st < amount then Inl (VmError ErrOutOfGas) else Inr (st\<lparr>st_gas := st_gas st - amount\<rparr>))"

text \<open>An error comes with the transition as it is then.\<close>

definition buyGas :: "crypto \<Rightarrow> StateTransition \<Rightarrow> tx_error option \<times> StateTransition" where
  "buyGas X st =
     (let msg = st_msg st;
          mgval = uint (msg_Gas msg) * st_gasPrice st;
          (s1, balance) = GetBalance X (From msg) (st_state st);
          st1 = set_state s1 st
      in if balance < mgval then (Some errInsufficientBalanceForGas, st1)
         else
           (case SubGas (msg_Gas msg) (st_gp st1) of
              Inl err \<Rightarrow> (Some err, st1)
            | Inr gp \<Rightarrow>
                (None, (set_state (SubBalance X (From msg) mgval (st_state st1)) st1)
                   \<lparr>st_gp := gp, st_gas := st_gas st1 + msg_Gas msg, initialGas := msg_Gas msg\<rparr>)))"

definition preCheck :: "crypto \<Rightarrow> StateTransition \<Rightarrow> tx_error option \<times> StateTransition" where
  "preCheck X st =
     (let msg = st_msg st
      in if CheckNonce msg then
           (let (s1, nonce) = GetNonce X (From msg) (st_state st);
                st1 = set_state s1 st
            in if nonce < msg_Nonce msg then (Some ErrNonceTooHigh, st1)
               else if nonce > msg_Nonce msg then (Some ErrNonceTooLow, st1)
               else buyGas X st1)
         else buyGas X st)"

definition st_gasUsed :: "StateTransition \<Rightarrow> u64" where
  "st_gasUsed st = initialGas st - st_gas st"

definition refundGas :: "crypto \<Rightarrow> StateTransition \<Rightarrow> StateTransition go" where
  "refundGas X st =
     (let refund0 = st_gasUsed st div 2;
          refund1 = (if refund0 > GetRefund (st_state st) then GetRefund (st_state st) else refund0);
          st1 = st\<lparr>st_gas := st_gas st + refund1\<rparr>;
          remaining = uint (st_gas st1) * st_gasPrice st1;
          st2 = set_state (AddBalance X (From (st_msg st1)) remaining (st_state st1)) st1
      in go_bind (AddGas (st_gas st2) (st_gp st2)) (\<lambda>gp. Ret (st2\<lparr>st_gp := gp\<rparr>)))"

text \<open>The run of the message: the output, the error of the virtual machine, and the transition with the
  gas that is left.\<close>

definition run_message ::
  "crypto \<Rightarrow> runner \<Rightarrow> StateTransition \<Rightarrow> (bytes \<times> vm_error option \<times> StateTransition) go" where
  "run_message X rn st =
     (let msg = st_msg st; sender = AccountRef (From msg)
      in case To msg of
           None \<Rightarrow>
             go_bind (Create X rn sender (st_data st) (st_gas st) (st_value st) (st_evm st))
               (\<lambda>(ret, addr, gas, vmerr, evm). Ret (ret, vmerr, st\<lparr>st_gas := gas, st_evm := evm\<rparr>))
         | Some a \<Rightarrow>
             (let (s1, nonce) = GetNonce X (ref_Address sender) (st_state st);
                  st1 = set_state (SetNonce X (From msg) (nonce + 1) s1) st
              in go_bind (Call X rn sender (st_to st1) (st_data st1) (st_gas st1) (st_value st1) (st_evm st1))
                   (\<lambda>(ret, gas, vmerr, evm). Ret (ret, vmerr, st1\<lparr>st_gas := gas, st_evm := evm\<rparr>))))"

type_synonym transition_result = "(bytes \<times> u64 \<times> bool \<times> tx_error option \<times> StateTransition) go"

definition TransitionDb :: "crypto \<Rightarrow> runner \<Rightarrow> StateTransition \<Rightarrow> transition_result" where
  "TransitionDb X rn st0 =
     (case preCheck X st0 of
        (Some err, st) \<Rightarrow> Ret ([], 0, False, Some err, st)
      | (None, st) \<Rightarrow>
          (let homestead = IsHomestead (chainConfig (st_evm st)) (block_num (st_evm st));
               contractCreation = (To (st_msg st) = None)
           in case IntrinsicGas (st_data st) contractCreation homestead of
                Inl err \<Rightarrow> Ret ([], 0, False, Some (VmError err), st)
              | Inr gas \<Rightarrow>
                  (case st_useGas gas st of
                     Inl err \<Rightarrow> Ret ([], 0, False, Some err, st)
                   | Inr st1 \<Rightarrow>
                       go_bind (run_message X rn st1)
                         (\<lambda>(ret, vmerr, st2).
                           if vmerr = Some ErrInsufficientBalance
                           then Ret ([], 0, False, Some (VmError ErrInsufficientBalance), st2)
                           else
                             go_bind (refundGas X st2)
                               (\<lambda>st3.
                                 (let fee = uint (st_gasUsed st3) * st_gasPrice st3;
                                      st4 = set_state (AddBalance X (Coinbase (ctx (st_evm st3))) fee (st_state st3)) st3
                                  in Ret (ret, st_gasUsed st4, vmerr \<noteq> None, None, st4)))))))"

definition ApplyMessage :: "crypto \<Rightarrow> runner \<Rightarrow> EVM \<Rightarrow> Message \<Rightarrow> GasPool \<Rightarrow> transition_result" where
  "ApplyMessage X rn evm msg gp = TransitionDb X rn (NewStateTransition evm msg gp)"

end
