(* ===== verification/StateActions.thy ===== *)
theory StateActions
  imports StateRevert
begin

text \<open>
  Sequences of state changes with nested snapshots, the way the virtual machine uses the
  database: a scope takes a snapshot, runs its actions, and either keeps them or reverts to the
  snapshot. The abstract meaning of a reverted scope is to do nothing at all; the concrete
  one runs the journal backwards. The main result is that the two agree.
\<close>

section \<open>Actions on the database\<close>

datatype action =
    ACreateAccount address
  | ASetBalance address int
  | AAddBalance address int
  | ASubBalance address int
  | ASetNonce address u64
  | ASetCode address bytes
  | ASetState address hash hash
  | ASuicide address
  | AAddLog Log
  | AAddPreimage hash bytes
  | AAddRefund u64
  | ASubRefund u64
  | AScope "action list" bool

fun perform :: "crypto \<Rightarrow> action \<Rightarrow> StateDB \<Rightarrow> StateDB go"
  and performs :: "crypto \<Rightarrow> action list \<Rightarrow> StateDB \<Rightarrow> StateDB go" where
  "perform X (ACreateAccount a) s = Ret (CreateAccount X a True s)"
| "perform X (ASetBalance a b) s = Ret (SetBalance X a b s)"
| "perform X (AAddBalance a b) s = Ret (AddBalance X a b s)"
| "perform X (ASubBalance a b) s = Ret (SubBalance X a b s)"
| "perform X (ASetNonce a n) s = Ret (SetNonce X a n s)"
| "perform X (ASetCode a c) s = Ret (SetCode X a c s)"
| "perform X (ASetState a k v) s = Ret (SetState X a k v s)"
| "perform X (ASuicide a) s = Ret (fst (Suicide X a s))"
| "perform X (AAddLog l) s = Ret (AddLog l s)"
| "perform X (AAddPreimage h p) s = Ret (AddPreimage h p s)"
| "perform X (AAddRefund g) s = Ret (AddRefund g s)"
| "perform X (ASubRefund g) s = SubRefund g s"
| "perform X (AScope as keep) s =
     (case Snapshot s of
        (s1, rid) \<Rightarrow> go_bind (performs X as s1)
          (\<lambda>s2. if keep then Ret s2 else RevertToSnapshot X rid s2))"
| "performs X [] s = Ret s"
| "performs X (a # as) s = go_bind (perform X a s) (performs X as)"

section \<open>Their meaning on the view\<close>

text \<open>What a log takes from the transaction being executed.\<close>

definition tx_of :: "StateDB \<Rightarrow> hash \<times> hash \<times> u64" where
  "tx_of s = (thash s, bhash s, txIndex s)"

definition view_add_log :: "hash \<times> hash \<times> u64 \<Rightarrow> Log \<Rightarrow> state_view \<Rightarrow> state_view" where
  "view_add_log tx l w = (case tx of (th, bh, ti) \<Rightarrow>
     w\<lparr>vlogs := (vlogs w)(th := vlogs w th @ [l\<lparr>log_TxHash := th, log_BlockHash := bh,
         log_TxIndex := ti, log_Index := vlogSize w\<rparr>]),
       vlogSize := vlogSize w + 1\<rparr>)"

fun mean :: "crypto \<Rightarrow> StateReader \<Rightarrow> hash \<times> hash \<times> u64 \<Rightarrow> action \<Rightarrow> state_view \<Rightarrow> state_view option"
  and means :: "crypto \<Rightarrow> StateReader \<Rightarrow> hash \<times> hash \<times> u64 \<Rightarrow> action list \<Rightarrow> state_view
    \<Rightarrow> state_view option" where
  "mean X r tx (ACreateAccount a) w = Some (put_account a (reset_account X r a (accounts w a)) w)"
| "mean X r tx (ASetBalance a b) w = Some (upd_account X r a (\<lambda>v. v\<lparr>v_balance := b\<rparr>) w)"
| "mean X r tx (AAddBalance a b) w = Some (upd_account X r a (\<lambda>v. v\<lparr>v_balance := v_balance v + b\<rparr>) w)"
| "mean X r tx (ASubBalance a b) w = Some (upd_account X r a (\<lambda>v. v\<lparr>v_balance := v_balance v - b\<rparr>) w)"
| "mean X r tx (ASetNonce a n) w = Some (upd_account X r a (\<lambda>v. v\<lparr>v_nonce := n\<rparr>) w)"
| "mean X r tx (ASetCode a c) w =
     Some (upd_account X r a (\<lambda>v. v\<lparr>v_codehash := Keccak256 X c, v_code := c\<rparr>) w)"
| "mean X r tx (ASetState a k x) w =
     Some (upd_account X r a (\<lambda>v. v\<lparr>v_storage := (v_storage v)(k := x)\<rparr>) w)"
| "mean X r tx (ASuicide a) w = Some (case accounts w a of None \<Rightarrow> w
     | Some v \<Rightarrow> put_account a (v\<lparr>v_suicided := True, v_balance := 0\<rparr>) w)"
| "mean X r tx (AAddLog l) w = Some (view_add_log tx l w)"
| "mean X r tx (AAddPreimage h p) w = Some (w\<lparr>vpreimages :=
     (if vpreimages w h = None then (vpreimages w)(h \<mapsto> p) else vpreimages w)\<rparr>)"
| "mean X r tx (AAddRefund g) w = Some (w\<lparr>vrefund := vrefund w + g\<rparr>)"
| "mean X r tx (ASubRefund g) w =
     (if g \<le> vrefund w then Some (w\<lparr>vrefund := vrefund w - g\<rparr>) else None)"
| "mean X r tx (AScope as keep) w =
     (case means X r tx as w of None \<Rightarrow> None | Some w1 \<Rightarrow> Some (if keep then w1 else w))"
| "means X r tx [] w = Some w"
| "means X r tx (a # as) w =
     (case mean X r tx a w of None \<Rightarrow> None | Some w1 \<Rightarrow> means X r tx as w1)"

section \<open>The transaction context stays\<close>

named_theorems tx_simps \<open>operations that leave the transaction context alone\<close>

lemma tx_basic [tx_simps]:
  "tx_of (setStateObject o1 s) = tx_of s" "tx_of (setError err s) = tx_of s"
  "tx_of (log_change e s) = tx_of s" "tx_of (s\<lparr>sjournal := j\<rparr>) = tx_of s"
  by (simp_all add: tx_of_def setStateObject_def setError_def log_change_def)

lemma tx_getStateObject [tx_simps]: "tx_of (fst (getStateObject X a s)) = tx_of s"
  by (simp add: getStateObject_def tx_simps Let_def split: option.splits sum.splits)
    (simp add: tx_of_def)

lemma tx_getStateObject_eq: "getStateObject X a s = (s1, res) \<Longrightarrow> tx_of s1 = tx_of s"
  by (metis fst_conv tx_getStateObject)

lemma tx_createObject [tx_simps]: "tx_of (fst (createObject X a p s)) = tx_of s"
  by (simp add: createObject_def Let_def tx_simps split: option.splits)

lemma tx_GetOrNewStateObject: "GetOrNewStateObject X a s = (s1, o1) \<Longrightarrow> tx_of s1 = tx_of s"
  using tx_createObject [of X a]
  by (auto simp: GetOrNewStateObject_def split: prod.splits option.splits if_splits
      dest!: tx_getStateObject_eq) (metis fst_conv)+

lemma tx_object_methods [tx_simps]:
  "tx_of (so_SetBalance b o1 s) = tx_of s" "tx_of (so_SetNonce n o1 s) = tx_of s"
  "tx_of (so_touch o1 s) = tx_of s"
  "tx_of (so_SetState k v o1 s) = tx_of s" "tx_of (so_SetCode X h c o1 s) = tx_of s"
  by (simp_all add: so_SetBalance_def so_SetNonce_def so_touch_def so_SetState_def so_SetCode_def
      tx_simps Let_def split: prod.splits)

lemma tx_setters [tx_simps]:
  "tx_of (SetBalance X a b s) = tx_of s" "tx_of (AddBalance X a b s) = tx_of s"
  "tx_of (SubBalance X a b s) = tx_of s" "tx_of (SetNonce X a n s) = tx_of s"
  "tx_of (SetCode X a c s) = tx_of s" "tx_of (SetState X a k v s) = tx_of s"
  by (auto simp: SetBalance_def AddBalance_def SubBalance_def SetNonce_def SetCode_def SetState_def
      so_AddBalance_def so_SubBalance_def tx_simps split: prod.splits dest!: tx_GetOrNewStateObject)

lemma tx_CreateAccount [tx_simps]: "tx_of (CreateAccount X a p s) = tx_of s"
proof -
  obtain s1 prev where g: "(if p then getStateObject X a s else (s, None)) = (s1, prev)"
    by fastforce
  then have "tx_of s1 = tx_of s"
    using tx_getStateObject [of X a s] by (auto split: if_splits)
  moreover obtain s2 n where c: "createObject X a prev s1 = (s2, n)"
    by fastforce
  then have "tx_of s2 = tx_of s1"
    using tx_createObject [of X a prev s1] by simp
  ultimately show ?thesis
    using g c by (simp add: CreateAccount_def tx_simps split: option.splits)
qed

lemma tx_Suicide [tx_simps]: "tx_of (fst (Suicide X a s)) = tx_of s"
  by (auto simp: Suicide_def tx_simps split: prod.splits option.splits dest!: tx_getStateObject_eq)

lemma tx_counters [tx_simps]:
  "tx_of (AddLog l s) = tx_of s" "tx_of (AddPreimage h p s) = tx_of s"
  "tx_of (AddRefund g s) = tx_of s" "tx_of (fst (Snapshot s)) = tx_of s"
  by (simp_all add: tx_of_def AddLog_def AddPreimage_def AddRefund_def Snapshot_def log_change_def
      Let_def)

lemma tx_SubRefund: "SubRefund g s = Ret s1 \<Longrightarrow> tx_of s1 = tx_of s"
  by (auto simp: SubRefund_def tx_of_def log_change_def split: if_splits)

lemma tx_on_object: "on_object X a f s = Ret s1 \<Longrightarrow> tx_of s1 = tx_of s"
  by (auto simp: on_object_def tx_simps split: prod.splits option.splits dest!: tx_getStateObject_eq)

lemma tx_revert_entry: "revert_entry X e s = Ret s1 \<Longrightarrow> tx_of s1 = tx_of s"
proof (cases e)
  case (suicideChange a p b)
  then show "revert_entry X e s = Ret s1 \<Longrightarrow> tx_of s1 = tx_of s"
    by (auto simp: tx_simps split: prod.splits option.splits dest!: tx_getStateObject_eq)
next
  case (addLogChange h)
  then show "revert_entry X e s = Ret s1 \<Longrightarrow> tx_of s1 = tx_of s"
    by (auto simp: Let_def tx_of_def split: if_splits)
qed (auto simp: setStateObject_def tx_of_def dest: tx_on_object [unfolded tx_of_def])

lemma tx_revert_entries: "revert_entries X es s = Ret s1 \<Longrightarrow> tx_of s1 = tx_of s"
  by (induction es arbitrary: s) (auto simp: go_simps tx_simps dest!: tx_revert_entry)

lemma tx_RevertToSnapshot: "RevertToSnapshot X rid s = Ret s1 \<Longrightarrow> tx_of s1 = tx_of s"
  by (auto simp: RevertToSnapshot_def journal_revert_def Let_def go_simps split: if_splits
      dest!: tx_revert_entries) (simp_all add: tx_of_def)

section \<open>Refinement\<close>

definition implements ::
  "crypto \<Rightarrow> StateDB \<Rightarrow> StateDB go \<Rightarrow> state_view option \<Rightarrow> bool" where
  "implements X s m w \<longleftrightarrow> (case w of
     None \<Rightarrow> m = Panic
   | Some v \<Rightarrow> (\<exists>s'. m = Ret s' \<and> extends X s s' \<and> view X s' = v \<and> tx_of s' = tx_of s))"

lemma implements_Ret:
  "extends X s s' \<and> view X s' = v \<Longrightarrow> tx_of s' = tx_of s \<Longrightarrow> implements X s (Ret s') (Some v)"
  by (simp add: implements_def)

lemma view_simps:
  "vlogs (view X s) h = GetLogs h s" "vlogSize (view X s) = logSize s"
  "vrefund (view X s) = refund s" "vpreimages (view X s) = preimages s"
  "accounts (view X s) = account_at X s"
  by (simp_all add: view_def)

lemma implements_scope:
  assumes "wf_state X s" "Snapshot s = (s1, rid)" "implements X s1 m w"
  shows "implements X s (go_bind m (\<lambda>s2. if keep then Ret s2 else RevertToSnapshot X rid s2))
     (case w of None \<Rightarrow> None | Some w1 \<Rightarrow> Some (if keep then w1 else view X s))"
proof (cases w)
  case None
  with assms show ?thesis by (simp add: implements_def)
next
  case (Some w1)
  then obtain s2 where s2: "m = Ret s2" "extends X s1 s2" "view X s2 = w1" "tx_of s2 = tx_of s1"
    using assms(3) by (auto simp: implements_def)
  have s1: "extends X s s1" "tx_of s1 = tx_of s"
    using Snapshot_extends [OF assms(1,2)] tx_counters(4) [of s] assms(2) by simp_all
  obtain s3 where s3: "RevertToSnapshot X rid s2 = Ret s3" "quiet X s s3"
    using RevertToSnapshot_restores [OF assms(1,2) s2(2)] by blast
  show ?thesis
    using Some s2 s1 s3 extends_trans [OF s1(1) s2(2)] tx_RevertToSnapshot [OF s3(1)]
    by (simp add: implements_def quiet_extends quiet_view)
qed

lemma implements_bind:
  assumes "implements X s m w"
    and "\<And>s1. m = Ret s1 \<Longrightarrow> extends X s s1 \<Longrightarrow> w = Some (view X s1) \<Longrightarrow> tx_of s1 = tx_of s
      \<Longrightarrow> implements X s1 (k s1) (f (view X s1))"
  shows "implements X s (go_bind m k) (case w of None \<Rightarrow> None | Some w1 \<Rightarrow> f w1)"
proof (cases w)
  case None
  with assms show ?thesis by (simp add: implements_def)
next
  case (Some w1)
  then obtain s1 where s1: "m = Ret s1" "extends X s s1" "view X s1 = w1" "tx_of s1 = tx_of s"
    using assms(1) by (auto simp: implements_def)
  have "implements X s1 (k s1) (f w1)"
    using assms(2) [OF s1(1,2) _ s1(4)] Some s1 by simp
  then show ?thesis
    using s1 Some by (auto simp: implements_def split: option.splits intro: extends_trans)
qed

lemma perform_implements:
  "wf_state X s \<Longrightarrow> implements X s (perform X a s) (mean X (stateReader s) (tx_of s) a (view X s))"
  "wf_state X s \<Longrightarrow> implements X s (performs X as s) (means X (stateReader s) (tx_of s) as (view X s))"
proof (induction X a s and X as s rule: perform_performs.induct)
  case (1 X a s)
  then show ?case
    using CreateAccount_refines [of X s True a]
    by (simp add: implements_Ret tx_simps view_simps)
next
  case (8 X a s)
  then show ?case
    using Suicide_refines [of X s a "fst (Suicide X a s)" "snd (Suicide X a s)"]
    by (simp add: implements_Ret tx_simps view_simps)
next
  case (9 X l s)
  then show ?case
    using AddLog_refines [of X s l]
    by (simp add: implements_Ret tx_simps view_simps view_add_log_def)
      (simp add: implements_Ret tx_simps tx_of_def [of s] view_simps)
next
  case (12 X g s)
  show ?case
  proof (cases "g \<le> refund s")
    case True
    then obtain s1 where s1: "SubRefund g s = Ret s1"
      by (simp add: SubRefund_def not_less)
    with True SubRefund_refines [OF 12 s1] tx_SubRefund [OF s1] show ?thesis
      by (simp add: implements_Ret view_simps)
  next
    case False
    then show ?thesis by (simp add: implements_def SubRefund_def view_simps)
  qed
next
  case (13 X as keep s)
  obtain s1 rid where s1: "Snapshot s = (s1, rid)"
    by fastforce
  note ext = Snapshot_extends [OF "13.prems" s1]
  then have "implements X s1 (performs X as s1) (means X (stateReader s) (tx_of s) as (view X s))"
    using "13.IH" [of s1 rid] s1 tx_counters(4) [of s] extends_wf extends_reader
    by fastforce
  from implements_scope [OF "13.prems" s1 this] s1 show ?case
    by (simp add: option.case_distrib cong: option.case_cong)
next
  case (15 X a as s)
  then show ?case
    by (auto intro!: implements_bind simp: extends_reader extends_wf)
qed (simp_all add: implements_Ret tx_simps view_simps extends_refl SetBalance_refines
    AddBalance_refines SubBalance_refines SetNonce_refines SetCode_refines SetState_refines
    AddPreimage_refines AddRefund_refines)

section \<open>Properties\<close>


text \<open>A reader with no accounts and a stand-in for the hash function, for concrete inputs.\<close>

definition empty_reader :: StateReader where
  "empty_reader = \<lparr>ReadAccountData = (\<lambda>a. Inr None), ReadAccountStorage = (\<lambda>a k. Inr None),
     ReadAccountCode = (\<lambda>h. (None, None)), ReadAccountCodeSize = (\<lambda>h. (0, None))\<rparr>"

definition length_crypto :: crypto where
  "length_crypto = \<lparr>Keccak256 = (\<lambda>b. of_nat (length b) + 1), sha256_Sum256 = (\<lambda>b. 0),
     ripemd160_Sum = (\<lambda>b. replicate 20 0), crypto_Ecrecover = (\<lambda>h sig. None),
     bn256_G1_Unmarshal = Inr, bn256_G2_Unmarshal = Inr, bn256_G1_Add = (\<lambda>a b. a),
     bn256_G1_ScalarMult = (\<lambda>a k. a), bn256_G1_Marshal = take 64,
     bn256_PairingCheck = (\<lambda>ps qs. True)\<rparr>"



lemma performs_returns:
  assumes "wf_state X s" "means X (stateReader s) (tx_of s) as (view X s) = Some w"
  shows "\<exists>s'. performs X as s = Ret s'"
  using perform_implements(2) [OF assms(1), of as] assms(2)
  by (auto simp: implements_def)




end
