(* ===== verification/Ledger.thy ===== *)
theory Ledger
  imports StateActions
begin

text \<open>
  What the virtual machine does to the world state as a whole: well-formedness of the view (code
  hashes belong to the code, balances are not negative and add up to less than \<open>2 ^ 256\<close>), and the
  relation between the states before and after an execution: journalled changes only, no ether
  created, and nothing but empty accounts added where the execution is static.
\<close>

section \<open>Sound states\<close>

text \<open>The largest byte string an execution handles.\<close>

definition size_limit :: nat where
  "size_limit = 2 ^ 40"

definition code_ok :: "crypto \<Rightarrow> account_view \<Rightarrow> bool" where
  "code_ok X v \<longleftrightarrow> v_codehash v = Keccak256 X (v_code v) \<and> length (v_code v) \<le> size_limit"

definition codes_ok :: "crypto \<Rightarrow> state_view \<Rightarrow> bool" where
  "codes_ok X w \<longleftrightarrow> (\<forall>a v. accounts w a = Some v \<longrightarrow> code_ok X v)"

definition ether :: "state_view \<Rightarrow> int" where
  "ether w = (\<Sum>a \<in> UNIV. balance_of w a)"

definition solvent :: "state_view \<Rightarrow> bool" where
  "solvent w \<longleftrightarrow> (\<forall>a. 0 \<le> balance_of w a) \<and> ether w < 2 ^ 256"

definition view_ok :: "crypto \<Rightarrow> state_view \<Rightarrow> bool" where
  "view_ok X w \<longleftrightarrow> codes_ok X w \<and> solvent w"

definition state_ok :: "crypto \<Rightarrow> StateDB \<Rightarrow> bool" where
  "state_ok X s \<longleftrightarrow> wf_state X s \<and> view_ok X (view X s)"

text \<open>The empty account's code: \<open>createObject\<close> gives it the hash of no code.\<close>

lemma code_ok_fresh: "code_ok X (fresh_account X r a)"
  by (simp add: code_ok_def fresh_account_def emptyCodeHash_def size_limit_def)

lemma code_ok_get_or_fresh: "codes_ok X w \<Longrightarrow> code_ok X (get_or_fresh X r a w)"
  by (auto simp: codes_ok_def get_or_fresh_def code_ok_fresh split: option.splits)

lemma codes_ok_put: "codes_ok X w \<Longrightarrow> code_ok X v \<Longrightarrow> codes_ok X (put_account a v w)"
  by (simp add: codes_ok_def put_account_def)

lemma balance_get_or_fresh: "v_balance (get_or_fresh X r a w) = balance_of w a"
  by (simp add: get_or_fresh_def balance_of_def fresh_account_def split: option.splits)

lemma balance_put: "balance_of (put_account a v w) = (balance_of w)(a := v_balance v)"
  by (rule ext) (simp add: balance_of_def put_account_def)

lemma sum_fun_upd: "(\<Sum>x \<in> UNIV. (f(a := b)) x) = (\<Sum>x \<in> UNIV. f x) - f a + (b :: int)"
  for a :: "'a :: finite"
  by (simp add: sum.remove [of UNIV a])

lemma ether_put: "ether (put_account a v w) = ether w - balance_of w a + v_balance v"
  unfolding ether_def balance_put by (rule sum_fun_upd)

lemma balance_le_ether: "solvent w \<Longrightarrow> balance_of w a \<le> ether w"
  unfolding ether_def solvent_def by (rule member_le_sum) auto

lemma balance_range: "solvent w \<Longrightarrow> 0 \<le> balance_of w a \<and> balance_of w a < 2 ^ 256"
  using balance_le_ether [of w a] by (simp add: solvent_def)

section \<open>What an execution may do\<close>

text \<open>\<open>frozen\<close>: every existing account is untouched, an account that did not exist may have become
  an empty one; refunds and logs are the same. This is what static execution guarantees.\<close>

definition frozen :: "crypto \<Rightarrow> StateReader \<Rightarrow> state_view \<Rightarrow> state_view \<Rightarrow> bool" where
  "frozen X r w w' \<longleftrightarrow>
     (\<forall>a. case accounts w a of
        Some v \<Rightarrow> accounts w' a = Some v
      | None \<Rightarrow> accounts w' a = None \<or> accounts w' a = Some (fresh_account X r a))
     \<and> vrefund w' = vrefund w \<and> vlogs w' = vlogs w \<and> vlogSize w' = vlogSize w"

definition srel :: "crypto \<Rightarrow> bool \<Rightarrow> StateDB \<Rightarrow> StateDB \<Rightarrow> bool" where
  "srel X ro s s' \<longleftrightarrow> state_ok X s' \<and> extends X s s'
     \<and> ether (view X s') \<le> ether (view X s)
     \<and> (ro \<longrightarrow> frozen X (stateReader s) (view X s) (view X s'))"

lemma frozen_refl: "frozen X r w w"
  by (auto simp: frozen_def split: option.splits)

lemma frozen_trans:
  assumes "frozen X r u v" "frozen X r v w"
  shows "frozen X r u w"
  unfolding frozen_def
proof (intro conjI allI)
  fix a
  show "case accounts u a of None \<Rightarrow> accounts w a = None \<or> accounts w a = Some (fresh_account X r a)
      | Some x \<Rightarrow> accounts w a = Some x"
    using assms [unfolded frozen_def, THEN conjunct1, THEN spec, of a]
    by (auto split: option.splits)
qed (use assms in \<open>simp_all add: frozen_def\<close>)

lemma srel_ok: "srel X ro s s' \<Longrightarrow> state_ok X s'"
  by (simp add: srel_def)

lemma srel_extends: "srel X ro s s' \<Longrightarrow> extends X s s'"
  by (simp add: srel_def)

lemma srel_wf: "state_ok X s \<Longrightarrow> wf_state X s"
  by (simp add: state_ok_def)

lemma srel_trans: "srel X ro s t \<Longrightarrow> srel X ro t u \<Longrightarrow> srel X ro s u"
  using frozen_trans extends_reader by (fastforce simp: srel_def intro: extends_trans)

lemma srel_weaken: "srel X True s t \<Longrightarrow> srel X ro s t"
  by (simp add: srel_def)

lemma srel_same_view:
  assumes "state_ok X s" "extends X s s'" "view X s' = view X s"
  shows "srel X ro s s'"
  using assms by (simp add: srel_def state_ok_def frozen_refl extends_wf)

lemma srel_quiet: "state_ok X s \<Longrightarrow> quiet X s s' \<Longrightarrow> srel X ro s s'"
  by (simp add: srel_same_view quiet_extends quiet_view)

lemma srel_refl: "state_ok X s \<Longrightarrow> srel X ro s s"
  by (simp add: srel_quiet quiet_refl state_ok_def)

text \<open>Introduction from the view after a journalled change.\<close>

lemma srelI:
  assumes "extends X s s'" "view_ok X (view X s')" "ether (view X s') \<le> ether (view X s)"
    and "ro \<Longrightarrow> frozen X (stateReader s) (view X s) (view X s')"
  shows "srel X ro s s'"
  using assms by (simp add: srel_def state_ok_def extends_wf)

section \<open>Changes that keep balances\<close>

lemma view_ok_upd:
  assumes "view_ok X w" "\<And>v. code_ok X v \<Longrightarrow> code_ok X (f v)"
    and "v_balance (f (get_or_fresh X r a w)) = balance_of w a"
  shows "view_ok X (upd_account X r a f w) \<and> ether (upd_account X r a f w) = ether w"
proof -
  have b: "balance_of (upd_account X r a f w) = balance_of w"
    unfolding upd_account_def balance_put assms(3) by simp
  then have s: "ether (upd_account X r a f w) = ether w"
    by (simp add: ether_def)
  have "codes_ok X (upd_account X r a f w)"
    unfolding upd_account_def
    using assms(1,2) code_ok_get_or_fresh codes_ok_put by (simp add: view_ok_def)
  with b s assms(1) show ?thesis
    by (simp add: view_ok_def solvent_def)
qed

lemma srel_upd:
  assumes "state_ok X s" "extends X s s' \<and> view X s' = upd_account X (stateReader s) a f (view X s)"
    and "\<And>v. code_ok X v \<Longrightarrow> code_ok X (f v)"
    and "v_balance (f (get_or_fresh X (stateReader s) a (view X s))) = balance_of (view X s) a"
  shows "srel X False s s'"
proof -
  have "view_ok X (upd_account X (stateReader s) a f (view X s))
      \<and> ether (upd_account X (stateReader s) a f (view X s)) = ether (view X s)"
    using assms by (intro view_ok_upd) (simp_all add: state_ok_def)
  with assms(2) show ?thesis
    by (intro srelI) simp_all
qed

lemma SetState_srel: "state_ok X s \<Longrightarrow> srel X False s (SetState X a k v s)"
  by (rule srel_upd [OF _ SetState_refines]) (simp_all add: state_ok_def code_ok_def balance_get_or_fresh)

lemma SetNonce_srel: "state_ok X s \<Longrightarrow> srel X False s (SetNonce X a n s)"
  by (rule srel_upd [OF _ SetNonce_refines]) (simp_all add: state_ok_def code_ok_def balance_get_or_fresh)

lemma SetCode_srel: "state_ok X s \<Longrightarrow> length c \<le> size_limit \<Longrightarrow> srel X False s (SetCode X a c s)"
  by (rule srel_upd [OF _ SetCode_refines]) (simp_all add: state_ok_def code_ok_def balance_get_or_fresh)

lemma frozen_upd:
  assumes "f (get_or_fresh X r a w) = get_or_fresh X r a w"
  shows "frozen X r w (upd_account X r a f w)"
  using assms
  by (auto simp: frozen_def upd_account_def put_account_def get_or_fresh_def split: option.splits)

text \<open>Changes of the counters, logs and preimages.\<close>

lemma view_ok_cong: "accounts w' = accounts w \<Longrightarrow> view_ok X w' \<longleftrightarrow> view_ok X w"
  "accounts w' = accounts w \<Longrightarrow> ether w' = ether w"
  by (simp_all add: view_ok_def codes_ok_def solvent_def ether_def balance_of_def)

lemma srel_accounts:
  assumes "state_ok X s" "extends X s s'" "accounts (view X s') = accounts (view X s)"
  shows "srel X False s s'"
  using assms view_ok_cong [OF assms(3)] by (intro srelI) (simp_all add: state_ok_def)

lemma AddRefund_srel: "state_ok X s \<Longrightarrow> srel X False s (AddRefund g s)"
  using AddRefund_refines [of X s g] by (intro srel_accounts) (simp_all add: state_ok_def)

lemma AddLog_srel: "state_ok X s \<Longrightarrow> srel X False s (AddLog l s)"
  using AddLog_refines [of X s l] by (intro srel_accounts) (simp_all add: state_ok_def)

lemma AddPreimage_srel:
  assumes "state_ok X s"
  shows "srel X ro s (AddPreimage h p s)"
proof (rule srelI)
  note r = AddPreimage_refines [OF assms [unfolded state_ok_def, THEN conjunct1], of h p]
  show "extends X s (AddPreimage h p s)"
    using r by simp
  have a: "accounts (view X (AddPreimage h p s)) = accounts (view X s)"
    using r by simp
  then show "view_ok X (view X (AddPreimage h p s))" "ether (view X (AddPreimage h p s)) \<le> ether (view X s)"
    using assms view_ok_cong [OF a] by (simp_all add: state_ok_def)
  show "frozen X (stateReader s) (view X s) (view X (AddPreimage h p s))"
    unfolding frozen_def a using r by (simp split: option.splits)
qed

lemma Snapshot_srel:
  assumes "state_ok X s" "Snapshot s = (s1, rid)"
  shows "srel X ro s s1"
  using assms Snapshot_extends [OF _ assms(2)] by (intro srel_same_view) (simp_all add: state_ok_def)

section \<open>Moving ether\<close>

text \<open>Taking \<open>v\<close> from one account and giving it to another.\<close>

definition move :: "crypto \<Rightarrow> StateReader \<Rightarrow> address \<Rightarrow> address \<Rightarrow> int \<Rightarrow> state_view \<Rightarrow> state_view" where
  "move X r a b v w = upd_account X r b (\<lambda>u. u\<lparr>v_balance := v_balance u + v\<rparr>)
     (upd_account X r a (\<lambda>u. u\<lparr>v_balance := v_balance u - v\<rparr>) w)"

lemma balance_upd:
  "balance_of (upd_account X r a (\<lambda>u. u\<lparr>v_balance := g (v_balance u)\<rparr>) w)
   = (balance_of w)(a := g (balance_of w a))"
  by (simp add: upd_account_def balance_put balance_get_or_fresh)

lemma ether_upd:
  "ether (upd_account X r a (\<lambda>u. u\<lparr>v_balance := g (v_balance u)\<rparr>) w)
   = ether w - balance_of w a + g (balance_of w a)"
  by (simp add: upd_account_def ether_put balance_get_or_fresh)

lemma codes_upd_balance:
  "codes_ok X w \<Longrightarrow> codes_ok X (upd_account X r a (\<lambda>u. u\<lparr>v_balance := g (v_balance u)\<rparr>) w)"
  unfolding upd_account_def
  by (rule codes_ok_put) (use code_ok_get_or_fresh [of X w r a] in \<open>simp_all add: code_ok_def\<close>)

lemma move_ok:
  assumes "view_ok X w" "0 \<le> v" "v \<le> balance_of w a"
  shows "view_ok X (move X r a b v w) \<and> ether (move X r a b v w) = ether w"
proof -
  have "ether (move X r a b v w) = ether w"
    unfolding move_def ether_upd [where g = "\<lambda>x. x + v"] ether_upd [where g = "\<lambda>x. x - v"] by simp
  moreover have "codes_ok X (move X r a b v w)"
    unfolding move_def
    using codes_upd_balance [where g = "\<lambda>x. x + v"] codes_upd_balance [where g = "\<lambda>x. x - v"] assms(1)
    by (simp add: view_ok_def)
  moreover have "balance_of (move X r a b v w)
      = ((balance_of w)(a := balance_of w a - v))(b := ((balance_of w)(a := balance_of w a - v)) b + v)"
    unfolding move_def balance_upd [where g = "\<lambda>x. x + v"] balance_upd [where g = "\<lambda>x. x - v"] ..
  ultimately show ?thesis
    using assms by (simp add: view_ok_def solvent_def)
qed

lemma move_zero_frozen: "frozen X r w (move X r a b 0 w)"
  unfolding move_def by (rule frozen_trans [OF frozen_upd frozen_upd]) simp_all

lemma AddBalance_zero_srel:
  assumes "state_ok X s"
  shows "srel X ro s (AddBalance X a 0 s)"
proof -
  have r: "extends X s (AddBalance X a 0 s)"
    "view X (AddBalance X a 0 s) = upd_account X (stateReader s) a (\<lambda>v. v) (view X s)"
    using AddBalance_refines [of X s a 0] assms by (simp_all add: state_ok_def)
  show ?thesis
    using r assms view_ok_upd [of X "view X s" "\<lambda>v. v" "stateReader s" a]
      frozen_upd [of "\<lambda>v. v" X "stateReader s" a "view X s"]
    by (intro srelI) (simp_all add: state_ok_def balance_get_or_fresh)
qed

section \<open>New accounts and self-destruction\<close>

lemma CreateAccount_absent_srel:
  assumes "state_ok X s" "accounts (view X s) a = None"
  shows "srel X ro s (CreateAccount X a False s)"
proof -
  have r: "extends X s (CreateAccount X a False s)"
    "view X (CreateAccount X a False s) = put_account a (fresh_account X (stateReader s) a) (view X s)"
    using CreateAccount_refines [of X s False a] assms
    by (simp_all add: state_ok_def reset_account_def accounts_view)
  have p: "put_account a (fresh_account X (stateReader s) a) (view X s)
      = upd_account X (stateReader s) a (\<lambda>v. v) (view X s)"
    using assms(2) by (simp add: upd_account_def get_or_fresh_def)
  show ?thesis
    using r p assms view_ok_upd [of X "view X s" "\<lambda>v. v" "stateReader s" a]
      frozen_upd [of "\<lambda>v. v" X "stateReader s" a "view X s"]
    by (intro srelI) (simp_all add: state_ok_def balance_get_or_fresh)
qed

text \<open>\<open>create\<close> resets an account only when it has no code.\<close>

lemma CreateAccount_srel:
  assumes "state_ok X s"
    and "\<forall>v. accounts (view X s) a = Some v \<longrightarrow> v_codehash v = emptyCodeHash X"
  shows "srel X False s (CreateAccount X a True s)"
proof -
  let ?w = "view X s" and ?v = "reset_account X (stateReader s) a (account_at X s a)"
  have r: "extends X s (CreateAccount X a True s)" "view X (CreateAccount X a True s) = put_account a ?v ?w"
    using CreateAccount_refines [of X s True a] assms(1) by (simp_all add: state_ok_def)
  have b: "v_balance ?v = balance_of ?w a"
    by (simp add: reset_account_def fresh_account_def balance_of_def accounts_view split: option.splits)
  have c: "code_ok X ?v"
    using assms(2)
    by (auto simp: reset_account_def code_ok_fresh accounts_view code_of_def code_ok_def
        emptyCodeHash_def size_limit_def fresh_account_def split: option.splits)
  have "balance_of (put_account a ?v ?w) = balance_of ?w"
    unfolding balance_put b by simp
  then have "solvent (put_account a ?v ?w)" "ether (put_account a ?v ?w) = ether ?w"
    using assms(1) by (simp_all add: solvent_def ether_def state_ok_def view_ok_def)
  then show ?thesis
    using r c codes_ok_put assms(1) by (intro srelI) (simp_all add: state_ok_def view_ok_def)
qed

text \<open>The two steps of \<open>SELFDESTRUCT\<close>: the beneficiary gets the balance, then the contract loses it.
  A contract that names itself destroys it.\<close>

definition destruct :: "crypto \<Rightarrow> StateReader \<Rightarrow> address \<Rightarrow> address \<Rightarrow> state_view \<Rightarrow> state_view" where
  "destruct X r a b w =
     (let w1 = upd_account X r b (\<lambda>u. u\<lparr>v_balance := v_balance u + balance_of w a\<rparr>) w
      in case accounts w1 a of None \<Rightarrow> w1
         | Some v \<Rightarrow> put_account a (v\<lparr>v_suicided := True, v_balance := 0\<rparr>) w1)"

lemma destruct_ok:
  assumes "view_ok X w"
  shows "view_ok X (destruct X r a b w) \<and> ether (destruct X r a b w) \<le> ether w"
proof -
  define w1 where "w1 = upd_account X r b (\<lambda>u. u\<lparr>v_balance := v_balance u + balance_of w a\<rparr>) w"
  have b1: "balance_of w1 = (balance_of w)(b := balance_of w b + balance_of w a)"
    unfolding w1_def by (rule balance_upd)
  have s1: "ether w1 = ether w + balance_of w a"
    unfolding w1_def by (simp add: ether_upd [where g = "\<lambda>x. x + balance_of w a"])
  have c1: "codes_ok X w1"
    unfolding w1_def using assms by (intro codes_upd_balance) (simp add: view_ok_def)
  have nn: "0 \<le> balance_of w x" for x
    using assms by (simp add: view_ok_def solvent_def)
  show ?thesis
  proof (cases "accounts w1 a")
    case None
    then have "balance_of w1 a = 0"
      by (simp add: balance_of_def)
    with b1 nn [of a] nn [of b] have "balance_of w a = 0"
      by (cases "a = b") auto
    moreover from None have "destruct X r a b w = w1"
      by (simp add: destruct_def w1_def)
    ultimately show ?thesis
      using b1 s1 c1 nn assms by (auto simp: view_ok_def solvent_def)
  next
    case (Some v)
    let ?w2 = "put_account a (v\<lparr>v_suicided := True, v_balance := 0\<rparr>) w1"
    have "destruct X r a b w = ?w2"
      using Some by (simp add: destruct_def w1_def)
    moreover have "codes_ok X ?w2"
      using c1 Some by (intro codes_ok_put) (auto simp: codes_ok_def code_ok_def)
    moreover have "ether ?w2 = ether w1 - balance_of w1 a"
      by (simp add: ether_put)
    moreover have "balance_of w a \<le> balance_of w1 a"
      using b1 nn [of b] nn [of a] by simp
    moreover have "0 \<le> balance_of ?w2 x" for x
      unfolding balance_put b1 using nn by simp
    ultimately show ?thesis
      using s1 assms by (auto simp: view_ok_def solvent_def)
  qed
qed

lemma Suicide_srel:
  assumes "state_ok X s" "GetBalance X a s = (s1, bal)" "Suicide X a (AddBalance X b bal s1) = (s3, d)"
  shows "srel X False s s3"
proof -
  have q: "quiet X s s1" "bal = balance_of (view X s) a"
    using GetBalance_spec [of X s a] assms(1,2) by (simp_all add: state_ok_def)
  have wf1: "wf_state X s1" "stateReader s1 = stateReader s" "view X s1 = view X s"
    using q(1) by (simp_all add: quiet_wf quiet_reader quiet_view)
  let ?s2 = "AddBalance X b bal s1"
  have 2: "extends X s1 ?s2" "view X ?s2
      = upd_account X (stateReader s) b (\<lambda>u. u\<lparr>v_balance := v_balance u + bal\<rparr>) (view X s)"
    using AddBalance_refines [OF wf1(1), of b bal] wf1 by simp_all
  have 3: "extends X ?s2 s3" "view X s3 = destruct X (stateReader s) a b (view X s)"
    using Suicide_refines [OF extends_wf [OF 2(1)] assms(3)]
    unfolding destruct_def accounts_view [symmetric] Let_def q(2) [symmetric] 2(2) by simp_all
  have "extends X s s3"
    using q(1) 2(1) 3(1) by (blast intro: extends_trans quiet_extends)
  then show ?thesis
    using 3(2) destruct_ok [of X "view X s" "stateReader s" a b] assms(1)
    by (intro srelI) (simp_all add: state_ok_def)
qed

end
