(* ===== verification/Analysis.thy ===== *)
theory Analysis
  imports Vm StateActions
begin

text \<open>
  The jump destination analysis is right: the bit vector \<open>codeBitmap\<close> computes with its byte-wise
  stores marks exactly the argument bytes of push instructions, as defined by walking over the
  code, and \<open>validJumpdest\<close> accepts exactly the \<open>JUMPDEST\<close> instructions outside of them.
\<close>

section \<open>The reference\<close>

definition push_len :: "u8 \<Rightarrow> nat" where
  "push_len op = (if IsPush op then push_bytes op else 0)"

text \<open>For every byte of the code, whether an instruction starts there.\<close>

function segments :: "bytes \<Rightarrow> bool list" where
  "segments [] = []"
| "segments (op # rest) =
     True # replicate (min (push_len op) (length rest)) False @ segments (drop (push_len op) rest)"
  by pat_completeness auto
termination
  by (relation "measure length") auto

lemma length_segments [simp]: "length (segments code) = length code"
  by (induction code rule: segments.induct) auto

section \<open>Bits of a bit vector\<close>

definition marked :: "bitvec \<Rightarrow> nat \<Rightarrow> bool" where
  "marked bits p \<longleftrightarrow> bit (bits ! (p div 8)) (7 - p mod 8)"

lemma set_mask: "k < 8 \<Longrightarrow> drop_bit k (0x80 :: u8) = 2 ^ (7 - k)"
proof -
  assume "k < 8"
  then consider "k = 0" | "k = 1" | "k = 2" | "k = 3" | "k = 4" | "k = 5" | "k = 6" | "k = 7"
    by linarith
  then show ?thesis by cases simp_all
qed

lemma bit_probe: "k < 8 \<Longrightarrow> and (b :: u8) (drop_bit k 0x80) = 0 \<longleftrightarrow> \<not> bit b (7 - k)"
  by (simp only: set_mask and_exp_eq_0_iff_not_bit)

lemma codeSegment_marked:
  "p div 8 < length bits \<Longrightarrow> codeSegment p bits = Ret (\<not> marked bits p)"
  by (simp add: codeSegment_def marked_def bit_probe)

lemma bit_set_mask: "k < 8 \<Longrightarrow> m < 8 \<Longrightarrow> bit (drop_bit k (0x80 :: u8)) m \<longleftrightarrow> m = 7 - k"
  by (simp only: set_mask) (auto simp: bit_exp_iff)

lemma bit_set8_mask: "m < 8 \<Longrightarrow> bit (drop_bit k (0xFF :: u8)) m \<longleftrightarrow> m < 8 - k"
proof -
  assume m: "m < 8"
  have ones: "(0xFF :: u8) = mask 8"
    by (simp add: mask_eq_exp_minus_1)
  have "bit (drop_bit k (mask 8 :: u8)) m \<longleftrightarrow> possible_bit TYPE(u8) (k + m) \<and> k + m < 8"
    by (simp only: bit_drop_bit_eq comp_apply bit_mask_iff)
  then show ?thesis
    unfolding ones by auto
qed

lemma or_at_Ret:
  "i < length bits \<Longrightarrow> or_at i b bits = Ret (bits[i := or (bits ! i) b])"
  by (simp add: or_at_def)

lemma bitvec_set_marked:
  assumes "pos div 8 < length bits"
  shows "\<exists>bits'. bitvec_set pos bits = Ret bits' \<and> length bits' = length bits
    \<and> (\<forall>p. p div 8 < length bits \<longrightarrow> marked bits' p = (marked bits p \<or> p = pos))"
proof -
  have "marked (bits[pos div 8 := or (bits ! (pos div 8)) (drop_bit (pos mod 8) 0x80)]) p
      = (marked bits p \<or> p = pos)" for p
  proof (cases "p div 8 = pos div 8")
    case True
    moreover have "7 - p mod 8 = 7 - pos mod 8 \<longleftrightarrow> p mod 8 = pos mod 8"
      using mod_less_divisor [of 8 p] mod_less_divisor [of 8 pos] by linarith
    moreover have "p = pos \<longleftrightarrow> p mod 8 = pos mod 8"
      using True by (metis div_mult_mod_eq)
    ultimately show ?thesis
      using assms by (simp add: marked_def bit_or_iff bit_set_mask)
  next
    case False
    then show ?thesis
      by (auto simp: marked_def)
  qed
  then show ?thesis
    using assms by (simp add: bitvec_set_def or_at_Ret)
qed

lemma bitvec_set8_marked:
  assumes "pos div 8 + 1 < length bits"
  shows "\<exists>bits'. bitvec_set8 pos bits = Ret bits' \<and> length bits' = length bits
    \<and> (\<forall>p. p div 8 < length bits \<longrightarrow> marked bits' p = (marked bits p \<or> pos \<le> p \<and> p < pos + 8))"
proof -
  let ?m = "drop_bit (pos mod 8) 0xFF :: u8" and ?i = "pos div 8"
  let ?b = "bits[?i := or (bits ! ?i) ?m, ?i + 1 := or (bits ! (?i + 1)) (not ?m)]"
  have "marked ?b p = (marked bits p \<or> pos \<le> p \<and> p < pos + 8)" for p
  proof -
    define i k where "i = p div 8" and "k = p mod 8"
    define j l where "j = pos div 8" and "l = pos mod 8"
    have p: "p = 8 * i + k" "k < 8" and pos: "pos = 8 * j + l" "l < 8"
      by (simp_all add: i_def k_def j_def l_def)
    consider "i = j" | "i = j + 1" | "i \<noteq> j" "i \<noteq> j + 1"
      by blast
    then have "bit (?b ! i) (7 - k) = (bit (bits ! i) (7 - k) \<or> pos \<le> p \<and> p < pos + 8)"
    proof cases
      case 1
      then have "?b ! i = or (bits ! i) ?m"
        using assms by (simp add: j_def)
      moreover have "bit ?m (7 - k) \<longleftrightarrow> l \<le> k"
        using p(2) pos(2) by (auto simp: bit_set8_mask l_def)
      ultimately show ?thesis
        using 1 p pos by (auto simp: bit_or_iff)
    next
      case 2
      then have "?b ! i = or (bits ! i) (not ?m)"
        using assms by (simp add: j_def)
      moreover have "bit (not ?m) (7 - k) \<longleftrightarrow> k < l"
        using p(2) pos(2) by (auto simp: bit_not_iff bit_set8_mask l_def)
      ultimately show ?thesis
        using 2 p pos by (auto simp: bit_or_iff)
    next
      case 3
      then have "?b ! i = bits ! i"
        by (simp add: j_def)
      moreover have "i < j \<or> j + 2 \<le> i"
        using 3 by linarith
      then have "\<not> (pos \<le> p \<and> p < pos + 8)"
        using p pos by linarith
      ultimately show ?thesis by auto
    qed
    then show ?thesis
      by (simp add: marked_def i_def k_def)
  qed
  moreover have "bitvec_set8 pos bits = Ret ?b"
    using assms by (simp add: bitvec_set8_def or_at_Ret)
  ultimately show ?thesis by simp
qed

section \<open>Marking the argument of a push\<close>

text \<open>\<open>marks bits bits' lo hi\<close>: the bits from \<open>lo\<close> below \<open>hi\<close> have been set, the others kept.\<close>

definition marks :: "bitvec \<Rightarrow> bitvec \<Rightarrow> nat \<Rightarrow> nat \<Rightarrow> bool" where
  "marks bits bits' lo hi \<longleftrightarrow> length bits' = length bits
     \<and> (\<forall>p. p div 8 < length bits \<longrightarrow> marked bits' p = (marked bits p \<or> lo \<le> p \<and> p < hi))"

lemma marks_refl: "marks bits bits lo lo"
  by (auto simp: marks_def)

lemma marks_trans: "marks a b lo mid \<Longrightarrow> marks b c mid hi \<Longrightarrow> lo \<le> mid \<Longrightarrow> mid \<le> hi \<Longrightarrow> marks a c lo hi"
  by (auto simp: marks_def)

lemma mark8_marks:
  "pc + n < 8 * length bits
   \<Longrightarrow> \<exists>bits'. mark8 n pc bits = Ret (n mod 8, pc + 8 * (n div 8), bits')
     \<and> marks bits bits' pc (pc + 8 * (n div 8))"
proof (induction n pc bits rule: mark8.induct)
  case (1 n pc bits)
  show ?case
  proof (cases "n \<ge> 8")
    case True
    then have "pc div 8 + 1 < length bits"
      using "1.prems" by linarith
    from bitvec_set8_marked [OF this] obtain b where b: "bitvec_set8 pc bits = Ret b"
      "marks bits b pc (pc + 8)"
      by (auto simp: marks_def)
    then have len: "length b = length bits"
      by (simp add: marks_def)
    have "pc + 8 + (n - 8) < 8 * length b"
      using "1.prems" True len by simp
    from "1.IH" [OF True b(1) this] obtain b' where
      b': "mark8 (n - 8) (pc + 8) b = Ret ((n - 8) mod 8, pc + 8 + 8 * ((n - 8) div 8), b')"
        "marks b b' (pc + 8) (pc + 8 + 8 * ((n - 8) div 8))"
      by blast
    have n: "n mod 8 = (n - 8) mod 8" "8 * (n div 8) = 8 + 8 * ((n - 8) div 8)"
      using True by (simp_all add: le_mod_geq le_div_geq)
    have "mark8 n pc bits = Ret (n mod 8, pc + 8 * (n div 8), b')"
      using True b(1) b'(1) n by (simp add: mark8.simps [of n])
    moreover have "marks bits b' pc (pc + 8 * (n div 8))"
      using marks_trans [OF b(2) b'(2)] n(2) by (simp add: add.assoc)
    ultimately show ?thesis by blast
  next
    case False
    then show ?thesis
      by (auto simp: mark8.simps [of n] marks_refl)
  qed
qed

lemma mark1_marks:
  "pc + n \<le> 8 * length bits
   \<Longrightarrow> \<exists>bits'. mark1 n pc bits = Ret (pc + n, bits') \<and> marks bits bits' pc (pc + n)"
proof (induction n arbitrary: pc bits)
  case 0
  then show ?case by (simp add: marks_refl)
next
  case (Suc n)
  then have "pc div 8 < length bits"
    by linarith
  from bitvec_set_marked [OF this] obtain b where b: "bitvec_set pc bits = Ret b"
    "length b = length bits" "\<forall>p. p div 8 < length bits \<longrightarrow> marked b p = (marked bits p \<or> p = pc)"
    by blast
  then have m: "marks bits b pc (pc + 1)"
    unfolding marks_def by auto
  then have "pc + 1 + n \<le> 8 * length b"
    using Suc.prems by (simp add: marks_def)
  from Suc.IH [OF this] obtain b' where "mark1 n (pc + 1) b = Ret (pc + 1 + n, b')"
    "marks b b' (pc + 1) (pc + 1 + n)"
    by blast
  with b(1) marks_trans [OF m] show ?case by auto
qed

section \<open>The whole analysis\<close>

lemma push_bytes_le: "IsPush op \<Longrightarrow> 1 \<le> push_bytes op \<and> push_bytes op \<le> 32"
proof -
  assume "IsPush op"
  then have op: "0x60 \<le> op" "op \<le> 0x7f"
    by (simp_all add: IsPush_def PUSH_def)
  then have "unat (op - 0x5f) = unat op - 95" "96 \<le> unat op" "unat op \<le> 127"
    by (simp_all add: unat_sub word_le_nat_alt)
  moreover have "push_bytes op = unat (op - 0x5f)"
    by (simp add: push_bytes_def PUSH_def)
  ultimately show ?thesis by linarith
qed

lemma push_len_le: "push_len op \<le> 32"
  using push_bytes_le [of op] by (simp add: push_len_def)

text \<open>The state of the outer loop: everything below \<open>pc\<close> is decided, nothing from \<open>pc\<close> on is marked.\<close>

definition decided :: "bytes \<Rightarrow> nat \<Rightarrow> bitvec \<Rightarrow> bool" where
  "decided code pc bits \<longleftrightarrow> length bits = length code div 8 + 5
     \<and> (\<forall>p < pc. p < length code \<longrightarrow> marked bits p = (\<not> segments code ! p))
     \<and> (\<forall>p \<ge> pc. p div 8 < length bits \<longrightarrow> \<not> marked bits p)
     \<and> (pc < length code \<longrightarrow> drop pc (segments code) = segments (drop pc code))"

lemma segments_step:
  assumes "pc < length code" "drop pc (segments code) = segments (drop pc code)"
  defines "n \<equiv> push_len (code ! pc)"
  shows "segments code ! pc"
    and "pc < p \<Longrightarrow> p < pc + 1 + n \<Longrightarrow> p < length code \<Longrightarrow> \<not> segments code ! p"
    and "pc + 1 + n < length code \<Longrightarrow> drop (pc + 1 + n) (segments code) = segments (drop (pc + 1 + n) code)"
proof -
  define rest where "rest = drop (Suc pc) code"
  have d: "drop pc code = code ! pc # rest"
    using assms(1) by (simp add: Cons_nth_drop_Suc rest_def)
  have s: "drop pc (segments code) = True # replicate (min n (length rest)) False @ segments (drop n rest)"
    unfolding assms(2) d n_def by simp
  have nth: "segments code ! (pc + i) = drop pc (segments code) ! i" if "pc + i < length code" for i
    using that by simp
  show "segments code ! pc"
    using nth [of 0] assms(1) s by simp
  show "\<not> segments code ! p" if "pc < p" "p < pc + 1 + n" "p < length code"
  proof -
    define i where "i = p - pc - 1"
    then have i: "p = pc + Suc i" "i < n"
      using that by auto
    moreover have "i < length rest"
      using that i by (simp add: rest_def)
    ultimately show ?thesis
      using nth [of "Suc i"] that s by (simp add: nth_append)
  qed
  show "drop (pc + 1 + n) (segments code) = segments (drop (pc + 1 + n) code)" if "pc + 1 + n < length code"
  proof -
    have "n < length rest"
      using that by (simp add: rest_def)
    then have "drop (1 + n) (drop pc (segments code)) = segments (drop n rest)"
      unfolding s by simp
    then show ?thesis
      by (simp add: rest_def add.commute add.left_commute)
  qed
qed

text \<open>One round of the outer loop marks the argument of the instruction at \<open>pc\<close>.\<close>

lemma bitmap_round:
  assumes "pc < length code" "length bits = length code div 8 + 5"
  shows "\<exists>b. bitmap_loop (Suc n) code pc bits = bitmap_loop n code (pc + 1 + push_len (code ! pc)) b
    \<and> marks bits b (pc + 1) (pc + 1 + push_len (code ! pc))"
proof (cases "IsPush (code ! pc)")
  case True
  let ?k = "push_bytes (code ! pc)"
  have k: "?k \<le> 32"
    using push_bytes_le [OF True] by simp
  have fits: "pc + 1 + ?k < 8 * length bits"
    using assms k by linarith
  from mark8_marks [OF fits] obtain b where b: "mark8 ?k (pc + 1) bits
      = Ret (?k mod 8, pc + 1 + 8 * (?k div 8), b)" "marks bits b (pc + 1) (pc + 1 + 8 * (?k div 8))"
    by blast
  have e: "pc + 1 + 8 * (?k div 8) + ?k mod 8 = pc + 1 + ?k"
    by simp
  have "pc + 1 + 8 * (?k div 8) + ?k mod 8 \<le> 8 * length b"
    unfolding e using b(2) fits by (simp add: marks_def)
  from mark1_marks [OF this] obtain b' where b': "mark1 (?k mod 8) (pc + 1 + 8 * (?k div 8)) b
      = Ret (pc + 1 + ?k, b')" "marks b b' (pc + 1 + 8 * (?k div 8)) (pc + 1 + ?k)"
    unfolding e by blast
  have "marks bits b' (pc + 1) (pc + 1 + ?k)"
    using marks_trans [OF b(2) b'(2)] e by linarith
  then show ?thesis
    using True assms(1) b(1) b'(1) by (auto simp: push_len_def Let_def)
next
  case False
  then show ?thesis
    using assms(1) by (auto simp: push_len_def Let_def marks_refl)
qed

lemma decided_step:
  assumes "decided code pc bits" "pc < length code"
    and "marks bits b (pc + 1) (pc + 1 + push_len (code ! pc))"
  shows "decided code (pc + 1 + push_len (code ! pc)) b"
proof -
  define q where "q = pc + 1 + push_len (code ! pc)"
  have d: "drop pc (segments code) = segments (drop pc code)" "length bits = length code div 8 + 5"
    and below: "\<And>p. p < pc \<Longrightarrow> p < length code \<Longrightarrow> marked bits p = (\<not> segments code ! p)"
    and above: "\<And>p. p \<ge> pc \<Longrightarrow> p div 8 < length bits \<Longrightarrow> \<not> marked bits p"
    using assms(1,2) by (simp_all add: decided_def)
  have m: "p div 8 < length bits \<Longrightarrow> marked b p = (marked bits p \<or> pc + 1 \<le> p \<and> p < q)" for p
    using assms(3) by (simp add: marks_def q_def)
  note seg = segments_step [OF assms(2) d(1), folded q_def]
  have "marked b p = (\<not> segments code ! p)" if p: "p < q" "p < length code" for p
  proof -
    have "p div 8 < length bits"
      using p d(2) by linarith
    note mp = m [OF this] and ap = above [OF _ this]
    consider "p < pc" | "p = pc" | "pc < p"
      by linarith
    then show ?thesis
    proof cases
      case 1
      then show ?thesis using below [OF 1 p(2)] mp by simp
    next
      case 2
      then show ?thesis using seg(1) mp ap by simp
    next
      case 3
      then show ?thesis using seg(2) [OF 3 p] mp p by simp
    qed
  qed
  moreover have "\<not> marked b p" if "p \<ge> q" "p div 8 < length bits" for p
    using above [of p] m [of p] that by (simp add: q_def)
  moreover have "length b = length bits"
    using assms(3) by (simp add: marks_def)
  ultimately show ?thesis
    using d(2) seg(3) unfolding decided_def q_def [symmetric] by presburger
qed

lemma bitmap_loop_decides:
  "decided code pc bits \<Longrightarrow> length code \<le> pc + n
   \<Longrightarrow> \<exists>b pc'. bitmap_loop n code pc bits = Ret b \<and> decided code pc' b \<and> length code \<le> pc'"
proof (induction n arbitrary: pc bits)
  case 0
  then show ?case
    by auto
next
  case (Suc n)
  show ?case
  proof (cases "pc < length code")
    case True
    have "length bits = length code div 8 + 5"
      using Suc.prems by (simp add: decided_def)
    from bitmap_round [OF True this, of n] obtain b where
      b: "bitmap_loop (Suc n) code pc bits = bitmap_loop n code (pc + 1 + push_len (code ! pc)) b"
        "marks bits b (pc + 1) (pc + 1 + push_len (code ! pc))"
      by blast
    show ?thesis
      unfolding b(1) using decided_step [OF Suc.prems(1) True b(2)] Suc.prems(2)
      by (intro Suc.IH) auto
  next
    case False
    then show ?thesis
      using Suc.prems(1) by auto
  qed
qed

lemma codeBitmap_decides: "\<exists>b pc. codeBitmap code = Ret b \<and> decided code pc b \<and> length code \<le> pc"
proof -
  have "decided code 0 (replicate (length code div 8 + 5) 0)"
    by (auto simp: decided_def marked_def)
  from bitmap_loop_decides [OF this, of "length code"] show ?thesis
    by (simp add: codeBitmap_def add.commute)
qed

text \<open>Any vector of the right length can be probed at any position of the code.\<close>

lemma codeSegment_Ret:
  "length bits = length code div 8 + 5 \<Longrightarrow> p < length code \<Longrightarrow> codeSegment p bits = Ret (\<not> marked bits p)"
  by (intro codeSegment_marked) (simp add: div_le_mono less_Suc_eq_le)

section \<open>Valid jump destinations\<close>

text \<open>Both caches hold analyses of the code they are consulted for.\<close>

definition caches_ok :: "Contract \<Rightarrow> EVM \<Rightarrow> bool" where
  "caches_ok c evm \<longleftrightarrow>
     (\<forall>a. jumpdests evm (c_CodeHash c) = Some a \<longrightarrow> codeBitmap (c_Code c) = Ret a)
     \<and> (\<forall>a. c_analysis c = Some a \<longrightarrow> codeBitmap (c_Code c) = Ret a)"

definition is_jumpdest :: "bytes \<Rightarrow> nat \<Rightarrow> bool" where
  "is_jumpdest code p \<longleftrightarrow> p < length code \<and> code ! p = JUMPDEST \<and> segments code ! p"

lemma codeBitmap_probe:
  "p < length code \<Longrightarrow> \<exists>a. codeBitmap code = Ret a \<and> codeSegment p a = Ret (segments code ! p)"
  using codeBitmap_decides [of code] codeSegment_Ret [of _ code p] by (auto simp: decided_def)

lemma jump_in_range:
  "0 \<le> dest \<Longrightarrow> n < 2 ^ 62
   \<Longrightarrow> (BitLen dest \<ge> 63 \<or> unat (big_Uint64 dest) \<ge> n) = (nat dest \<ge> n)"
  using BitLen_gt [of 62 dest] unat_big_Uint64 [of dest]
  by (cases "BitLen dest \<ge> 63") (auto simp: nat_le_iff)

section \<open>Properties\<close>

text \<open>C23: the jump destination analysis returns for every code, and its bit vector separates
  instructions from push arguments: probing any position of the code does not panic and answers
  whether an instruction starts there in a walk over the code.\<close>

theorem codeBitmap_segments:
  "\<exists>bits. codeBitmap code = Ret bits \<and> length bits = length code div 8 + 5
     \<and> (\<forall>p. p < length code \<longrightarrow> codeSegment p bits = Ret (segments code ! p))"
  using codeBitmap_decides [of code] codeSegment_Ret [of _ code]
  by (auto simp: decided_def)

theorem codeBitmap_segments_witness:
  "codeSegment 1 [0x40, 0, 0, 0, 0] = Ret False \<and> codeSegment 2 [0x40, 0, 0, 0, 0] = Ret True"
proof -
  have "codeBitmap [0x60, 0x5b, 0x5b] = Ret [0x40, 0, 0, 0, 0]"
    by code_simp
  moreover have "segments [0x60, 0x5b, 0x5b] = [True, False, True]"
    by code_simp
  ultimately show ?thesis
    using codeBitmap_segments [of "[0x60, 0x5b, 0x5b]"] by simp
qed

text \<open>C24: with caches that hold analyses of this code, \<open>validJumpdest\<close> does not panic, accepts
  exactly the positions of \<open>JUMPDEST\<close> instructions that are not push arguments, and leaves right
  caches behind.\<close>

theorem validJumpdest_correct:
  assumes "caches_ok c evm" "0 \<le> dest" "length (c_Code c) < 2 ^ 62"
  shows "\<exists>c' evm'. validJumpdest dest c evm = Ret (is_jumpdest (c_Code c) (nat dest), c', evm')
    \<and> caches_ok c' evm' \<and> c'\<lparr>c_analysis := c_analysis c\<rparr> = c \<and> evm'\<lparr>jumpdests := jumpdests evm\<rparr> = evm"
proof (cases "nat dest < length (c_Code c) \<and> c_Code c ! nat dest = JUMPDEST")
  case False
  then show ?thesis
    using assms jump_in_range [OF assms(2,3)] unat_big_Uint64 [of dest]
    by (auto simp: validJumpdest_def is_jumpdest_def Let_def)
next
  case True
  then obtain a where a: "codeBitmap (c_Code c) = Ret a"
    "codeSegment (nat dest) a = Ret (segments (c_Code c) ! nat dest)"
    using codeBitmap_probe by blast
  have d: "\<not> BitLen dest \<ge> 63" "unat (big_Uint64 dest) = nat dest"
    using True jump_in_range [OF assms(2,3)] unat_big_Uint64 [of dest] assms(2) by auto
  then show ?thesis
    using True a assms(1)
    by (cases "c_CodeHash c = 0"; cases "jumpdests evm (c_CodeHash c)"; cases "c_analysis c")
      (auto simp: validJumpdest_def is_jumpdest_def caches_ok_def Let_def)
qed

text \<open>A machine at rest on an empty state, and a contract with the code \<open>PUSH1 0x5b; JUMPDEST\<close>.\<close>

definition idle_evm :: EVM where
  "idle_evm = \<lparr>ctx = \<lparr>GetHash = (\<lambda>n. 0), Origin = 0, GasPrice = 1, Coinbase = 0, ctx_GasLimit = 0,
       BlockNumber = 9000000, Time = 0, Difficulty = 0\<rparr>,
     sdb = New empty_reader, depth = 0, chainConfig = MainnetChainConfig,
     chainRules = Rules_of MainnetChainConfig (Some 9000000),
     vmConfig = \<lparr>NoRecursion = False, EnablePreimageRecording = False\<rparr>, abort = False,
     callGasTemp = 0, in_gasTable = GasTable_of MainnetChainConfig (Some 9000000),
     in_instructions = Constantinople, readOnly = False, returnData = [], jumpdests = Map.empty\<rparr>"

definition push_contract :: Contract where
  "push_contract = \<lparr>CallerAddress = 0, self_addr = 1, c_analysis = None, c_Code = [0x60, 0x5b, 0x5b],
     c_CodeHash = 0, c_CodeAddr = None, c_Input = [], c_Gas = 0, c_value = 0\<rparr>"

theorem validJumpdest_correct_witness:
  "(\<exists>c evm. validJumpdest 1 push_contract idle_evm = Ret (False, c, evm))
   \<and> (\<exists>c evm. validJumpdest 2 push_contract idle_evm = Ret (True, c, evm))"
proof -
  have ok: "caches_ok push_contract idle_evm"
    by (simp add: caches_ok_def push_contract_def idle_evm_def)
  have len: "length (c_Code push_contract) < 2 ^ 62"
    by (simp add: push_contract_def)
  have "segments [0x60, 0x5b, 0x5b] = [True, False, True]"
    by code_simp
  then have "\<not> is_jumpdest (c_Code push_contract) (nat 1)" "is_jumpdest (c_Code push_contract) (nat 2)"
    by (simp_all add: is_jumpdest_def push_contract_def JUMPDEST_def)
  then show ?thesis
    using validJumpdest_correct [OF ok _ len, of 1] validJumpdest_correct [OF ok _ len, of 2] by auto
qed

end
