(* ===== verification/RlpCorrect.thy ===== *)
theory RlpCorrect
  imports Rlp "HOL-Library.Sublist"
begin

text \<open>
  The reference encoding, and the proofs about \<open>rlp\<close>: the encoder that keeps list headers apart
  produces the recursive encoding of the format's definition, and the splitting functions accept
  exactly the canonical encodings.
\<close>

section \<open>The reference encoding\<close>

definition rlp_head :: "u8 \<Rightarrow> u8 \<Rightarrow> nat \<Rightarrow> bytes" where
  "rlp_head smalltag largetag n =
     (if n < 56 then [smalltag + of_nat n]
      else (let b = big_Bytes (int n) in (largetag + of_nat (length b)) # b))"

definition single :: "bytes \<Rightarrow> bool" where
  "single b \<longleftrightarrow> (\<exists>x. b = [x] \<and> x < 0x80)"

definition string_enc :: "bytes \<Rightarrow> bytes" where
  "string_enc b = (if single b then b else rlp_head 0x80 0xB7 (length b) @ b)"

definition list_enc :: "bytes \<Rightarrow> bytes" where
  "list_enc c = rlp_head 0xC0 0xF7 (length c) @ c"

fun rlp_enc :: "rlp_val \<Rightarrow> bytes" where
  "rlp_enc (RBytes b) = string_enc b"
| "rlp_enc (RUint i) = string_enc (big_Bytes (uint i))"
| "rlp_enc (RBool b) = string_enc (if b then [1] else [])"
| "rlp_enc (RBigInt i) = string_enc (big_Bytes i)"
| "rlp_enc (RList vs) = list_enc (concat (map rlp_enc vs))"

fun encodable :: "rlp_val \<Rightarrow> bool" where
  "encodable (RBigInt i) = (0 \<le> i)"
| "encodable (RList vs) = list_all encodable vs"
| "encodable _ = True"

section \<open>Sizes and headers\<close>

lemma intsize_loop_eq:
  "k = 0 \<or> 256 ^ k \<le> unat i \<Longrightarrow> unat i < 256 ^ Suc k \<Longrightarrow> intsize_loop sz i = sz + k"
proof (induction k arbitrary: sz i)
  case 0
  then have "unat (drop_bit 8 i) = 0"
    by (simp add: unat_drop_bit_8)
  then have "drop_bit 8 i = 0"
    by (simp only: unat_eq_zero)
  then show ?case
    by (simp add: intsize_loop.simps)
next
  case (Suc k)
  have ge: "256 ^ k \<le> unat i div 256" and lt: "unat i div 256 < 256 ^ Suc k"
    using Suc.prems by (simp_all add: less_eq_div_iff_mult_less_eq less_mult_imp_div_less ac_simps)
  then have "unat i div 256 \<noteq> 0"
    by (metis less_irrefl_nat not_gr_zero order_less_le_trans zero_less_numeral zero_less_power)
  then have "drop_bit 8 i \<noteq> 0"
    by (metis unat_drop_bit_8 unat_0)
  with Suc.IH [of "drop_bit 8 i" "sz + 1"] ge lt show ?case
    by (subst intsize_loop.simps) (simp add: unat_drop_bit_8 Let_def)
qed

lemma byte_length_exists:
  fixes n :: nat
  assumes "n < 2 ^ 64"
  shows "\<exists>k<8. (k = 0 \<or> 256 ^ k \<le> n) \<and> n < 256 ^ Suc k"
proof -
  let ?P = "\<lambda>k. n < 256 ^ Suc k"
  let ?k = "LEAST k. ?P k"
  have p7: "?P 7"
    using assms by simp
  then have "?P ?k" "?k \<le> 7"
    by (rule LeastI) (rule Least_le, rule p7)
  moreover have "?k = 0 \<or> 256 ^ ?k \<le> n"
    using not_less_Least [of "?k - 1" ?P] by (cases ?k) auto
  ultimately show ?thesis
    by (intro exI [of _ ?k]) auto
qed

lemma byte_at_eq: "byte_at sh i = word_of_int (uint i div 2 ^ sh)"
proof -
  have "take_bit 64 (uint i) = uint i"
    by (rule take_bit_int_eq_self) (use uint_u64_less [of i] in simp_all)
  then show ?thesis
    by (simp add: byte_at_def ucast_eq unsigned_drop_bit_eq drop_bit_eq_div [where 'a = int])
qed

lemma be_bytes_map: "be_bytes k x = map (\<lambda>j. word_of_int (x div 256 ^ (k - 1 - j))) [0..<k]"
  by (rule nth_equalityI) (simp_all add: be_bytes_nth)

lemma putint_be_bytes:
  assumes "k < 8" "k = 0 \<or> 256 ^ k \<le> unat i" "unat i < 256 ^ Suc k"
  shows "putint i = be_bytes (Suc k) (uint i)"
proof -
  consider "k = 0" | "k = 1" | "k = 2" | "k = 3" | "k = 4" | "k = 5" | "k = 6" | "k = 7"
    using assms(1) by linarith
  then show ?thesis
    using assms(2,3)
    by cases (simp_all add: putint_def byte_at_eq word_less_nat_alt be_bytes_map upt_rec)
qed

lemma big_Bytes_length:
  assumes "k = 0 \<and> 0 < n \<or> 256 ^ k \<le> n" "n < 256 ^ Suc k"
  shows "big_Bytes (int n) = be_bytes (Suc k) (int n)"
proof -
  have "256 ^ Suc k = (2 :: int) ^ (8 * Suc k)" "256 ^ k = (2 :: int) ^ (8 * k)"
    by (simp_all only: power_mult) simp_all
  moreover have "int n < 256 ^ Suc k" "k = 0 \<and> 0 < n \<or> 256 ^ k \<le> int n"
    using assms by (metis of_nat_less_iff of_nat_numeral of_nat_power,
        metis of_nat_le_iff of_nat_numeral of_nat_power)
  ultimately have "BitLen (int n) \<le> 8 * Suc k" "8 * k < BitLen (int n)"
    by (auto simp: BitLen_le BitLen_gt)
  then have "(BitLen (int n) + 7) div 8 = Suc k"
    by (intro div_nat_eqI) auto
  then show ?thesis
    by (simp add: big_Bytes_def)
qed

text \<open>\<open>putint\<close> writes the shortest big-endian representation, and \<open>intsize\<close> is its length.\<close>

lemma putint_big_Bytes:
  assumes "i \<noteq> 0"
  shows "putint i = big_Bytes (uint i)" "intsize i = length (putint i)"
proof -
  obtain k where k: "k < 8" "k = 0 \<or> 256 ^ k \<le> unat i" "unat i < 256 ^ Suc k"
    using byte_length_exists [OF unat_u64_less, of i] by blast
  moreover have "0 < unat i"
    using assms by (simp add: unat_gt_0)
  ultimately have "big_Bytes (int (unat i)) = be_bytes (Suc k) (int (unat i))"
    by (intro big_Bytes_length) auto
  with k show "putint i = big_Bytes (uint i)" "intsize i = length (putint i)"
    by (simp_all add: putint_be_bytes intsize_def intsize_loop_eq)
qed

lemma uint_of_nat_u64: "n < 2 ^ 64 \<Longrightarrow> uint (of_nat n :: u64) = int n"
  by (simp add: unsigned_of_nat take_bit_nat_eq_self)

lemma of_nat_u64_less: "n < 2 ^ 64 \<Longrightarrow> m < 2 ^ 64 \<Longrightarrow> (of_nat n :: u64) < of_nat m \<longleftrightarrow> n < m"
  by (simp add: word_less_alt uint_of_nat_u64)

lemma of_nat_less_56: "n < 2 ^ 64 \<Longrightarrow> (of_nat n :: u64) < 56 \<longleftrightarrow> n < 56"
  using of_nat_u64_less [of n 56] by simp

lemma of_nat_u64_nonzero: "n < 2 ^ 64 \<Longrightarrow> 0 < n \<Longrightarrow> (of_nat n :: u64) \<noteq> 0"
  using uint_of_nat_u64 [of n] by fastforce

lemma putint_of_nat:
  "n < 2 ^ 64 \<Longrightarrow> \<not> n < 56 \<Longrightarrow> putint (of_nat n) = big_Bytes (int n)"
  "n < 2 ^ 64 \<Longrightarrow> \<not> n < 56 \<Longrightarrow> intsize (of_nat n) = length (big_Bytes (int n))"
  using putint_big_Bytes [of "of_nat n"] of_nat_u64_nonzero [of n] uint_of_nat_u64 [of n] by simp_all

lemma puthead_eq: "n < 2 ^ 64 \<Longrightarrow> puthead s l (of_nat n) = rlp_head s l n"
  by (simp add: puthead_def rlp_head_def of_nat_less_56 putint_of_nat unsigned_of_nat
      take_bit_nat_eq_self Let_def)

lemma length_rlp_head:
  "n < 2 ^ 64 \<Longrightarrow> length (rlp_head s l n) = (if n < 56 then 1 else 1 + intsize (of_nat n))"
  by (simp add: rlp_head_def putint_of_nat Let_def)

section \<open>The encoder writes the reference encoding\<close>

lemma encodeString_eq:
  assumes "length b < 2 ^ 64"
  shows "encodeString b w = append_str (string_enc b) w"
proof (cases "single b")
  case True
  then show ?thesis
    by (auto simp: single_def encodeString_def string_enc_def word_le_def word_less_alt)
next
  case False
  have "\<not> (length b = 1 \<and> b ! 0 \<le> 0x7F)"
  proof
    assume "length b = 1 \<and> b ! 0 \<le> 0x7F"
    with False show False
      by (auto simp: single_def length_Suc_conv word_le_def word_less_alt)
  qed
  then have "encodeString b w = append_str b (encodeStringHeader (length b) w)"
    unfolding encodeString_def by (rule if_not_P)
  with assms False show ?thesis
    by (simp add: string_enc_def encodeStringHeader_def rlp_head_def append_str_def putint_of_nat
        Let_def)
qed

lemma writeUint_eq: "writeUint i w = append_str (string_enc (big_Bytes (uint i))) w"
proof -
  consider "i = 0" | "i \<noteq> 0" "i < 128" | "\<not> i < 128"
    by blast
  then show ?thesis
  proof cases
    case 1
    then show ?thesis
      by (simp add: writeUint_def string_enc_def single_def big_Bytes_def rlp_head_def)
  next
    case 2
    then have "unat i < 128" "0 < unat i"
      by (simp_all add: word_less_nat_alt unat_gt_0)
    then have "big_Bytes (int (unat i)) = be_bytes (Suc 0) (int (unat i))"
      by (intro big_Bytes_length) simp_all
    then have "big_Bytes (uint i) = [ucast i]"
      by simp
    moreover have "(ucast i :: u8) < 0x80"
      using \<open>unat i < 128\<close> by (simp add: word_less_nat_alt unsigned_ucast_eq take_bit_nat_eq_self)
    ultimately show ?thesis
      using 2 by (simp add: writeUint_def string_enc_def single_def)
  next
    case 3
    obtain k where k: "k < 8" "k = 0 \<or> 256 ^ k \<le> unat i" "unat i < 256 ^ Suc k"
      using byte_length_exists [OF unat_u64_less, of i] by blast
    have "i \<noteq> 0"
      using 3 by auto
    note pb = putint_be_bytes [OF k] putint_big_Bytes(1) [OF this]
    then have len: "length (big_Bytes (uint i)) = Suc k"
      by simp
    have "\<not> single (big_Bytes (uint i))"
    proof
      assume "single (big_Bytes (uint i))"
      then obtain x where x: "big_Bytes (uint i) = [x]" "x < 0x80"
        by (auto simp: single_def)
      then have "uint i = uint x"
        using SetBytes_big_Bytes [of "uint i"] by (simp add: SetBytes_def)
      with x(2) 3 show False
        by (simp add: word_less_alt)
    qed
    with 3 k(1) len \<open>i \<noteq> 0\<close> pb(2) show ?thesis
      by (simp add: writeUint_def string_enc_def rlp_head_def append_str_def Let_def)
  qed
qed

subsection \<open>Strings and headers interleaved\<close>

fun emit :: "bytes \<Rightarrow> listhead list \<Rightarrow> nat \<Rightarrow> nat \<Rightarrow> bytes" where
  "emit s [] p q = take (q - p) (drop p s)"
| "emit s (h # hs) p q =
     take (lh_offset h - p) (drop p s) @ head_encode h @ emit s hs (lh_offset h) q"

fun heads_in :: "nat \<Rightarrow> listhead list \<Rightarrow> nat \<Rightarrow> bool" where
  "heads_in p [] q \<longleftrightarrow> p \<le> q"
| "heads_in p (h # hs) q \<longleftrightarrow> p \<le> lh_offset h \<and> heads_in (lh_offset h) hs q"

lemma heads_in_le: "heads_in p hs q \<Longrightarrow> p \<le> q"
  by (induction hs arbitrary: p) fastforce+

lemma heads_in_append: "heads_in p hs q \<Longrightarrow> heads_in q hs' r \<Longrightarrow> heads_in p (hs @ hs') r"
proof (induction hs arbitrary: p)
  case Nil
  then show ?case by (cases hs') auto
qed auto

lemma take_drop_split:
  "p \<le> q \<Longrightarrow> q \<le> r \<Longrightarrow> take (r - p) (drop p s) = take (q - p) (drop p s) @ take (r - q) (drop q s)"
  using take_add [of "q - p" "r - q" "drop p s"] by simp

lemma emit_append:
  "heads_in p hs q \<Longrightarrow> heads_in q hs' r \<Longrightarrow> emit s (hs @ hs') p r = emit s hs p q @ emit s hs' q r"
proof (induction hs arbitrary: p)
  case Nil
  then show ?case
  proof (cases hs')
    case Nil
    with \<open>heads_in p [] q\<close> \<open>heads_in q hs' r\<close> take_drop_split [of p q r s] show ?thesis by simp
  next
    case (Cons h gs)
    with \<open>heads_in p [] q\<close> \<open>heads_in q hs' r\<close> take_drop_split [of p q "lh_offset h" s]
    show ?thesis by simp
  qed
qed simp

lemma emit_str: "heads_in p hs q \<Longrightarrow> q \<le> length s \<Longrightarrow> emit (s @ t) hs p q = emit s hs p q"
proof (induction hs arbitrary: p)
  case (Cons h hs)
  then have "lh_offset h \<le> length s"
    using heads_in_le by fastforce
  with Cons show ?case by simp
qed simp

text \<open>What a writer adds to the buffer: string data \<open>s\<close>, headers \<open>hs\<close> that together spell \<open>e\<close>.\<close>

definition writes :: "encbuf \<Rightarrow> bytes \<Rightarrow> encbuf \<Rightarrow> bool" where
  "writes w e w' \<longleftrightarrow> (\<exists>s hs h.
     w' = w\<lparr>str := str w @ s, lheads := lheads w @ hs, lhsize := lhsize w + h\<rparr>
     \<and> heads_in (length (str w)) hs (length (str w) + length s)
     \<and> emit (str w @ s) hs (length (str w)) (length (str w) + length s) = e
     \<and> length s + h = length e)"

lemma writes_append_str: "writes w e (append_str e w)"
  unfolding writes_def append_str_def
  by (rule exI [of _ e], rule exI [of _ "[]"], rule exI [of _ 0]) simp

lemma writes_Nil: "writes w [] w"
  unfolding writes_def
  by (rule exI [of _ "[]"], rule exI [of _ "[]"], rule exI [of _ 0]) simp

lemma writes_trans:
  assumes "writes w e w1" "writes w1 f w2"
  shows "writes w (e @ f) w2"
proof -
  obtain s hs h where 1: "w1 = w\<lparr>str := str w @ s, lheads := lheads w @ hs, lhsize := lhsize w + h\<rparr>"
    "heads_in (length (str w)) hs (length (str w) + length s)"
    "emit (str w @ s) hs (length (str w)) (length (str w) + length s) = e" "length s + h = length e"
    using assms(1) unfolding writes_def by blast
  obtain t gs g where 2: "w2 = w1\<lparr>str := str w1 @ t, lheads := lheads w1 @ gs, lhsize := lhsize w1 + g\<rparr>"
    "heads_in (length (str w1)) gs (length (str w1) + length t)"
    "emit (str w1 @ t) gs (length (str w1)) (length (str w1) + length t) = f" "length t + g = length f"
    using assms(2) unfolding writes_def by blast
  have in2: "heads_in (length (str w) + length s) gs (length (str w) + length (s @ t))"
    using 1(1) 2(2) by (simp add: add.assoc)
  have "emit (str w @ s @ t) (hs @ gs) (length (str w)) (length (str w) + length (s @ t)) = e @ f"
    using emit_append [OF 1(2) in2, of "str w @ s @ t"] 1 2(3) emit_str [OF 1(2), of "str w @ s" t]
    by (simp add: add.assoc)
  moreover have "w2 = w\<lparr>str := str w @ s @ t, lheads := lheads w @ hs @ gs, lhsize := lhsize w + (h + g)\<rparr>"
    using 1(1) 2(1) by simp
  moreover have "length (s @ t) + (h + g) = length (e @ f)"
    using 1(4) 2(4) by simp
  ultimately show ?thesis
    unfolding writes_def using heads_in_append [OF 1(2) in2] by blast
qed

lemma writes_list:
  assumes "enc_list w = (i, w1)" "writes w1 c w2" "length c < 2 ^ 64"
  shows "writes w (list_enc c) (listEnd i w2)"
proof -
  let ?n = "length (str w)"
  have w1: "i = length (lheads w)" "str w1 = str w" "lhsize w1 = lhsize w"
    "lheads w1 = lheads w @ [\<lparr>lh_offset = ?n, lh_size = lhsize w\<rparr>]"
    "w1 = w\<lparr>lheads := lheads w @ [\<lparr>lh_offset = ?n, lh_size = lhsize w\<rparr>]\<rparr>"
    using assms(1) by (auto simp: enc_list_def)
  obtain s hs h where 2: "w2 = w1\<lparr>str := str w1 @ s, lheads := lheads w1 @ hs, lhsize := lhsize w1 + h\<rparr>"
    "heads_in ?n hs (?n + length s)" "emit (str w @ s) hs ?n (?n + length s) = c"
    "length s + h = length c"
    using assms(2) unfolding writes_def w1(2,3) by blast
  let ?head = "\<lparr>lh_offset = ?n, lh_size = length c\<rparr>"
  let ?k = "length (rlp_head 0xC0 0xF7 (length c))"
  have "listEnd i w2 = w\<lparr>str := str w @ s, lheads := lheads w @ ?head # hs, lhsize := lhsize w + (h + ?k)\<rparr>"
    unfolding 2(1) w1(1,5) listEnd_def encbuf_size_def Let_def using 2(4) assms(3)
    by (simp add: length_rlp_head nth_append list_update_append)
  moreover have "emit (str w @ s) (?head # hs) ?n (?n + length s) = list_enc c"
    using 2(3) assms(3) by (simp add: head_encode_def puthead_eq list_enc_def)
  moreover have "heads_in ?n (?head # hs) (?n + length s)"
    using 2(2) by simp
  moreover have "length s + (h + ?k) = length (list_enc c)"
    using 2(4) by (simp add: list_enc_def)
  ultimately show ?thesis
    unfolding writes_def by blast
qed

lemma write_val_writes:
  "encodable v \<Longrightarrow> length (rlp_enc v) < 2 ^ 64 \<Longrightarrow> \<exists>w'. write_val v w = Inr w' \<and> writes w (rlp_enc v) w'"
  "list_all encodable vs \<Longrightarrow> length (concat (map rlp_enc vs)) < 2 ^ 64
     \<Longrightarrow> \<exists>w'. write_vals vs w = Inr w' \<and> writes w (concat (map rlp_enc vs)) w'"
proof (induction v w and vs w rule: write_val_write_vals.induct)
  case (1 b w)
  have "length b \<le> length (string_enc b)"
    by (simp add: string_enc_def)
  with 1 show ?case
    by (simp add: encodeString_eq writes_append_str)
next
  case (2 i w)
  show ?case by (simp add: writeUint_eq writes_append_str)
next
  case (3 b w)
  have "writeBool b w = append_str (string_enc (if b then [1] else [])) w"
    by (simp add: writeBool_def string_enc_def single_def rlp_head_def)
  then show ?case by (simp add: writes_append_str)
next
  case (4 i w)
  have le: "length (big_Bytes i) \<le> length (string_enc (big_Bytes i))"
    by (simp add: string_enc_def)
  have zero: "string_enc (big_Bytes 0) = [0x80]"
    by (simp add: string_enc_def single_def rlp_head_def big_Bytes_def)
  from 4 le show ?case
    by (auto simp: writeBigInt_def zero encodeString_eq writes_append_str
        intro: writes_append_str [of w "[0x80]"])
next
  case (5 vs w)
  obtain i w1 where l: "enc_list w = (i, w1)" by fastforce
  have len: "length (concat (map rlp_enc vs)) < 2 ^ 64"
    using "5.prems" by (simp add: list_enc_def)
  with "5.IH" [OF l [symmetric]] "5.prems" obtain w2
    where "write_vals vs w1 = Inr w2" "writes w1 (concat (map rlp_enc vs)) w2"
    by auto
  with l writes_list [OF l _ len] show ?case by auto
next
  case (6 w)
  show ?case by (simp add: writes_Nil)
next
  case (7 v vs w)
  from 7 obtain w1 where w1: "write_val v w = Inr w1" "writes w (rlp_enc v) w1"
    by auto
  with "7.IH"(2) [OF w1(1)] "7.prems" obtain w2
    where "write_vals vs w1 = Inr w2" "writes w1 (concat (map rlp_enc vs)) w2"
    by auto
  with w1 show ?case
    by (auto intro: writes_trans)
qed

lemma write_val_Inl:
  "write_val v w = Inl e \<Longrightarrow> e = ''rlp: cannot encode negative *big.Int''"
  "write_vals vs w = Inl e \<Longrightarrow> e = ''rlp: cannot encode negative *big.Int''"
  by (induction v w and vs w rule: write_val_write_vals.induct)
    (auto simp: writeBigInt_def split: prod.splits sum.splits if_splits)

lemma write_val_error:
  "\<not> encodable v \<Longrightarrow> write_val v w = Inl ''rlp: cannot encode negative *big.Int''"
  "\<not> list_all encodable vs \<Longrightarrow> write_vals vs w = Inl ''rlp: cannot encode negative *big.Int''"
proof (induction v w and vs w rule: write_val_write_vals.induct)
  case (7 v vs w)
  then show ?case
    by (cases "encodable v") (auto split: sum.splits dest: write_val_Inl)
qed (auto simp: writeBigInt_def split: prod.splits)

lemma copy_at_zeros:
  assumes "length d \<le> m"
  shows "copy_at (length pre) d (pre @ replicate m 0) = Ret (pre @ d @ replicate (m - length d) 0)"
  using assms by (simp add: copy_at_def Let_def min_def)

lemma toBytes_loop_emit:
  assumes "heads_in p hs (length s)" "length (emit s hs p (length s)) = m"
  shows "toBytes_loop s hs p (length pre) (pre @ replicate m 0) = Ret (pre @ emit s hs p (length s))"
  using assms
proof (induction hs arbitrary: p pre m)
  case Nil
  then show ?case
    using copy_at_zeros [of "drop p s" m pre] by (simp add: go_slice_def)
next
  case (Cons h hs)
  let ?d = "take (lh_offset h - p) (drop p s)" and ?e = "head_encode h"
  have off: "p \<le> lh_offset h" "lh_offset h \<le> length s"
    using Cons.prems heads_in_le by auto
  then have d: "go_slice s (int p) (int (lh_offset h)) = Ret ?d" "length ?d = lh_offset h - p"
    by (simp_all add: go_slice_def nat_diff_distrib)
  let ?r = "emit s hs (lh_offset h) (length s)"
  have m: "m = length ?d + length ?e + length ?r"
    using Cons.prems by simp
  have 1: "copy_at (length pre) ?d (pre @ replicate m 0)
      = Ret (pre @ ?d @ replicate (length ?e + length ?r) 0)"
    using copy_at_zeros [of ?d m pre] m by simp
  have 2: "put_at (length pre + length ?d) ?e (pre @ ?d @ replicate (length ?e + length ?r) 0)
      = Ret (pre @ ?d @ ?e @ replicate (length ?r) 0)"
    using copy_at_zeros [of ?e "length ?e + length ?r" "pre @ ?d"] by (simp add: put_at_def)
  have 3: "toBytes_loop s hs (lh_offset h) (length (pre @ ?d @ ?e))
      ((pre @ ?d @ ?e) @ replicate (length ?r) 0) = Ret ((pre @ ?d @ ?e) @ ?r)"
    using Cons.prems by (intro Cons.IH) auto
  have n: "min (length ?d) (length (pre @ replicate m 0) - length pre) = length ?d"
    using m by simp
  have "p + length ?d = lh_offset h"
    using d(2) off by simp
  with d(1) 1 2 3 n show ?case
    by (simp add: Let_def add.assoc del: length_take)
qed

lemma toBytes_writes:
  assumes "writes reset e w"
  shows "toBytes w = Ret e"
proof -
  obtain s hs h where w: "w = reset\<lparr>str := str reset @ s, lheads := lheads reset @ hs,
      lhsize := lhsize reset + h\<rparr>"
    "heads_in (length (str reset)) hs (length (str reset) + length s)"
    "emit (str reset @ s) hs (length (str reset)) (length (str reset) + length s) = e"
    "length s + h = length e"
    using assms unfolding writes_def by blast
  then show ?thesis
    using toBytes_loop_emit [of 0 hs s "length e" "[]"]
    by (simp add: reset_def toBytes_def encbuf_size_def)
qed

lemma EncodeToBytes_eq:
  assumes "length (rlp_enc v) < 2 ^ 64"
  shows "EncodeToBytes v = Ret (if encodable v then Inr (rlp_enc v)
     else Inl ''rlp: cannot encode negative *big.Int'')"
proof (cases "encodable v")
  case True
  from write_val_writes(1) [OF this assms, of reset] obtain w
    where "write_val v reset = Inr w" "writes reset (rlp_enc v) w"
    by blast
  with True toBytes_writes [OF this(2)] show ?thesis
    by (simp add: EncodeToBytes_def)
next
  case False
  with write_val_error(1) [OF this, of reset] show ?thesis
    by (simp add: EncodeToBytes_def)
qed

section \<open>Reading sizes\<close>

lemma or_push: "a * 256 + ucast (x :: u8) = or (push_bit 8 a) (ucast x :: u64)"
proof -
  have "and (push_bit 8 a) (ucast x :: u64) = 0"
    by (rule bit_word_eqI) (auto simp: bit_simps dest: bit_imp_le_length)
  then have "push_bit 8 a + (ucast x :: u64) = or (push_bit 8 a) (ucast x)"
    by (simp add: disjunctive_add_eq_or)
  then show ?thesis
    by (simp add: push_bit_eq_mult)
qed

lemma word_SetBytes:
  "(word_of_int (SetBytes bs) :: u64) = foldl (\<lambda>a b. or (push_bit 8 a) (ucast b)) 0 bs"
proof (induction bs rule: rev_induct)
  case (snoc b bs)
  have "(word_of_int (SetBytes (bs @ [b])) :: u64) = word_of_int (SetBytes bs) * 256 + ucast b"
    by simp
  with snoc show ?case
    by (simp add: or_push)
qed simp

lemma readSize_eq:
  assumes "1 \<le> unat slen" "unat slen \<le> 8" "unat slen \<le> length b"
  shows "readSize b slen =
    (let s = word_of_int (SetBytes (take (unat slen) b))
     in if s < 56 \<or> b ! 0 = 0 then Ret (Inl ErrCanonSize) else Ret (Inr s))"
proof -
  have t: "take n b = map ((!) b) [0..<n]" if "n \<le> length b" for n
    using that by (intro nth_equalityI) auto
  have b: "b \<noteq> []"
    using assms by auto
  define n where "n = unat slen"
  then have n: "slen = of_nat n" "1 \<le> n" "n \<le> 8"
    using assms by simp_all
  consider "n = 1" | "n = 2" | "n = 3" | "n = 4" | "n = 5" | "n = 6" | "n = 7" | "n = 8"
    using n by linarith
  moreover have "[0..<1] = [0]" "[0..<2] = [0, 1]" "[0..<3] = [0, 1, 2]" "[0..<4] = [0, 1, 2, 3]"
    "[0..<5] = [0, 1, 2, 3, 4]" "[0..<6] = [0, 1, 2, 3, 4, 5]" "[0..<7] = [0, 1, 2, 3, 4, 5, 6]"
    "[0..<8] = [0, 1, 2, 3, 4, 5, 6, 7]"
    by (simp_all add: upt_rec)
  ultimately show ?thesis
    using assms(3) b n(1)
    by cases (simp_all add: readSize_def word_SetBytes t push_bit_or Let_def)
qed

lemma SetBytes_Cons: "SetBytes (b # bs) = uint b * 256 ^ length bs + SetBytes bs"
proof (induction bs rule: rev_induct)
  case (snoc x xs)
  then have "SetBytes ((b # xs) @ [x]) = (uint b * 256 ^ length xs + SetBytes xs) * 256 + uint x"
    by (simp only: SetBytes_snoc)
  then show ?case
    by (simp add: algebra_simps)
qed (simp add: SetBytes_def)

lemma big_Bytes_SetBytes:
  assumes "x \<noteq> 0"
  shows "big_Bytes (SetBytes (x # bs)) = x # bs"
proof -
  let ?n = "nat (SetBytes (x # bs))"
  have "1 \<le> uint x"
    using assms by (simp add: word_neq_0_conv word_less_alt)
  then have "256 ^ length bs \<le> uint x * 256 ^ length bs"
    using mult_right_mono [of 1 "uint x" "256 ^ length bs"] by simp
  then have lo: "256 ^ length bs \<le> SetBytes (x # bs)"
    using SetBytes_nonneg [of bs] unfolding SetBytes_Cons by linarith
  have hi: "SetBytes (x # bs) < 256 ^ Suc (length bs)"
    using SetBytes_less [of "x # bs"] by simp
  have n: "int ?n = SetBytes (x # bs)"
    by simp
  have "256 ^ length bs \<le> ?n" "?n < 256 ^ Suc (length bs)"
    using lo hi by (simp_all add: nat_less_iff le_nat_iff)
  then have "big_Bytes (int ?n) = be_bytes (Suc (length bs)) (int ?n)"
    by (intro big_Bytes_length) auto
  with be_bytes_SetBytes [of "x # bs"] show ?thesis
    unfolding n by simp
qed

lemma big_Bytes_head:
  assumes "0 < n" "n < 2 ^ 64"
  shows "\<exists>x bs. big_Bytes (int n) = x # bs \<and> x \<noteq> 0 \<and> length bs < 8"
proof -
  obtain k where k: "k < 8" "k = 0 \<or> 256 ^ k \<le> n" "n < 256 ^ Suc k"
    using byte_length_exists [OF assms(2)] by blast
  then have b: "big_Bytes (int n) = be_bytes (Suc k) (int n)"
    using assms(1) by (intro big_Bytes_length) auto
  obtain x bs where x: "big_Bytes (int n) = x # bs" "length bs = k"
    using b by (metis length_Suc_conv length_be_bytes)
  have "x \<noteq> 0"
  proof
    assume "x = 0"
    then have "int n = SetBytes bs"
      using SetBytes_big_Bytes [of "int n"] x(1) by (simp add: SetBytes_Cons)
    with SetBytes_less [of bs] x(2) have "int n < 256 ^ k"
      by simp
    then have "n < 256 ^ k"
      by (metis of_nat_less_iff of_nat_numeral of_nat_power)
    with k(2) assms(1) show False by auto
  qed
  with x k(1) show ?thesis by auto
qed

lemma readSize_iff:
  assumes "1 \<le> unat slen" "unat slen \<le> 8"
  shows "readSize b slen = Ret (Inr s) \<longleftrightarrow> 56 \<le> s \<and> prefix (big_Bytes (uint s)) b
      \<and> length (big_Bytes (uint s)) = unat slen"
    and "returns (readSize b slen)"
proof -
  show "returns (readSize b slen)"
    using assms readSize_eq [of slen b] by (cases "unat slen \<le> length b") (auto simp: readSize_def Let_def)
  show "readSize b slen = Ret (Inr s) \<longleftrightarrow> 56 \<le> s \<and> prefix (big_Bytes (uint s)) b
      \<and> length (big_Bytes (uint s)) = unat slen"
  proof (cases "unat slen \<le> length b")
    case False
    then show ?thesis
      by (auto simp: readSize_def dest: prefix_length_le)
  next
    case True
    define t where "t = take (unat slen) b"
    obtain x bs where t: "t = x # bs" "b ! 0 = x" "length t = unat slen"
      using True assms(1) by (cases b; cases "unat slen") (auto simp: t_def)
    have "SetBytes t < 2 ^ 64"
    proof -
      have "SetBytes t < 256 ^ unat slen"
        using SetBytes_less [of t] t(3) by simp
      also have "\<dots> \<le> 256 ^ 8"
        using assms(2) by (intro power_increasing) auto
      finally show ?thesis by simp
    qed
    then have w: "uint (word_of_int (SetBytes t) :: u64) = SetBytes t"
      by (simp add: unsigned_of_int take_bit_int_eq_self)
    have eq: "readSize b slen = (if (word_of_int (SetBytes t) :: u64) < 56 \<or> x = 0 then Ret (Inl ErrCanonSize)
        else Ret (Inr (word_of_int (SetBytes t))))"
      using readSize_eq [OF assms True] t by (simp add: t_def Let_def)
    show ?thesis
    proof
      assume "readSize b slen = Ret (Inr s)"
      then have s: "s = word_of_int (SetBytes t)" "56 \<le> s" "x \<noteq> 0"
        by (auto simp: eq not_less split: if_splits)
      then have "big_Bytes (uint s) = t"
        using w t(1) big_Bytes_SetBytes [of x bs] by simp
      with s t(3) show "56 \<le> s \<and> prefix (big_Bytes (uint s)) b \<and> length (big_Bytes (uint s)) = unat slen"
        by (simp add: t_def take_is_prefix)
    next
      assume R: "56 \<le> s \<and> prefix (big_Bytes (uint s)) b \<and> length (big_Bytes (uint s)) = unat slen"
      then have b: "big_Bytes (uint s) = t"
        by (metis t_def append_eq_conv_conj prefix_def)
      then have s: "SetBytes t = uint s"
        using SetBytes_big_Bytes [of "uint s"] by simp
      have "0 < unat s"
        using R by (simp add: word_le_nat_alt)
      then have "x \<noteq> 0"
        using big_Bytes_head [of "unat s"] b t(1) unat_u64_less [of s] by auto
      with R s show "readSize b slen = Ret (Inr s)"
        by (simp add: eq not_less)
    qed
  qed
qed

lemma go_sum_bind:
  "go_bind m (\<lambda>r. case r of Inl e \<Rightarrow> Ret (Inl e) | Inr v \<Rightarrow> f v) = Ret (Inr y)
     \<longleftrightarrow> (\<exists>v. m = Ret (Inr v) \<and> f v = Ret (Inr y))"
  by (cases m) (auto split: sum.splits)

section \<open>Splitting\<close>

fun kind_enc :: "Kind \<Rightarrow> bytes \<Rightarrow> bytes" where
  "kind_enc Byte c = c"
| "kind_enc String c = rlp_head 0x80 0xB7 (length c) @ c"
| "kind_enc List c = rlp_head 0xC0 0xF7 (length c) @ c"

fun canonical :: "Kind \<Rightarrow> bytes \<Rightarrow> bool" where
  "canonical Byte c = single c"
| "canonical String c = (\<not> single c)"
| "canonical List c = True"

text \<open>The check of \<open>readKind\<close> that the content fits into the rest of the buffer.\<close>

definition fits :: "bytes \<Rightarrow> Kind \<Rightarrow> u64 \<Rightarrow> u64 \<Rightarrow> (rlp_error + Kind \<times> u64 \<times> u64) go" where
  "fits buf k ts cs = (if cs > of_nat (length buf) - ts then Ret (Inl ErrValueTooLarge)
     else Ret (Inr (k, ts, cs)))"

definition sized :: "bytes \<Rightarrow> Kind \<Rightarrow> u8 \<Rightarrow> (rlp_error + Kind \<times> u64 \<times> u64) go" where
  "sized buf k slen = go_bind (readSize (drop 1 buf) slen)
     (\<lambda>r. case r of Inl e \<Rightarrow> Ret (Inl e) | Inr c \<Rightarrow> fits buf k (ucast slen + 1) c)"

lemma uint_ucast_u8 [simp]: "uint (ucast (x :: u8) :: u64) = uint x"
  by (rule uint_up_ucast) (simp add: is_up)

lemma unat_ucast_u8 [simp]: "unat (ucast (x :: u8) :: u64) = unat x"
  using uint_ucast_u8 [of x] by (metis unat_eq_nat_uint)

lemma unat_u8_less: "unat (b :: u8) < 256"
  using unsigned_less [where w = b] by simp

lemma unat_of_nat_u64: "n < 2 ^ 64 \<Longrightarrow> unat (of_nat n :: u64) = n"
  by (simp add: unsigned_of_nat take_bit_nat_eq_self)

lemma readKind_cases:
  assumes "buf \<noteq> []"
  shows "readKind buf =
     (if buf ! 0 < 0x80 then fits buf Byte 0 1
      else if buf ! 0 < 0xB8 then
        if (ucast (buf ! 0 - 0x80) :: u64) = 1 \<and> length buf > 1 \<and> buf ! 1 < 128
        then Ret (Inl ErrCanonSize) else fits buf String 1 (ucast (buf ! 0 - 0x80))
      else if buf ! 0 < 0xC0 then sized buf String (buf ! 0 - 0xB7)
      else if buf ! 0 < 0xF8 then fits buf List 1 (ucast (buf ! 0 - 0xC0))
      else sized buf List (buf ! 0 - 0xF7))"
  unfolding readKind_def fits_def sized_def Let_def using assms by simp

lemma fits_eq:
  assumes "length buf < 2 ^ 64" "unat ts \<le> length buf"
  shows "fits buf k ts cs = (if unat ts + unat cs > length buf then Ret (Inl ErrValueTooLarge)
     else Ret (Inr (k, ts, cs)))"
proof -
  have "unat (of_nat (length buf) - ts) = length buf - unat ts"
    using assms by (simp add: unat_sub word_le_nat_alt unsigned_of_nat take_bit_nat_eq_self)
  then show ?thesis
    using assms by (auto simp: fits_def word_less_nat_alt)
qed

lemma returns_readKind: "length buf < 2 ^ 64 \<Longrightarrow> returns (readKind buf)"
proof (cases "buf = []")
  case False
  have f: "returns (fits buf k ts cs)" for k ts cs
    by (simp add: fits_def)
  have s: "returns (sized buf k slen)" if "1 \<le> unat slen" "unat slen \<le> 8" for k slen
    unfolding sized_def using readSize_iff(2) [OF that]
    by (intro returns_bind) (auto simp: f split: sum.splits)
  have "1 \<le> unat (b - 0xB7)" "unat (b - 0xB7) \<le> 8" if "\<not> b < 0xB8" "b < 0xC0" for b :: u8
    using that by (simp_all add: word_less_nat_alt word_le_nat_alt unat_sub not_less)
  moreover have "1 \<le> unat (b - 0xF7)" "unat (b - 0xF7) \<le> 8" if "\<not> b < 0xF8" for b :: u8
    using that unat_u8_less [of b] by (simp_all add: word_less_nat_alt word_le_nat_alt unat_sub not_less)
  ultimately show ?thesis
    using False by (simp add: readKind_cases f s)
qed (simp add: readKind_def)

lemma length_big_Bytes_u64: "0 < n \<Longrightarrow> n < 2 ^ 64 \<Longrightarrow> 1 \<le> length (big_Bytes (int n)) \<and> length (big_Bytes (int n)) \<le> 8"
  using big_Bytes_head [of n] by fastforce

lemma sized_enc:
  assumes "56 \<le> length c" "buf = x # big_Bytes (int (length c)) @ c @ rest" "length buf < 2 ^ 64"
    and "slen = of_nat (length (big_Bytes (int (length c))))"
  shows "sized buf k slen = Ret (Inr (k, of_nat (Suc (length (big_Bytes (int (length c))))), of_nat (length c)))"
proof -
  let ?be = "big_Bytes (int (length c))"
  have "0 < length c" and len: "length c < 2 ^ 64"
    using assms(1-3) by auto
  then have c: "1 \<le> length ?be" "length ?be \<le> 8"
    using length_big_Bytes_u64 by blast+
  have slen: "unat slen = length ?be"
    using c assms(4) by (simp add: unsigned_of_nat take_bit_nat_eq_self)
  have "readSize (drop 1 buf) slen = Ret (Inr (of_nat (length c)))"
    using c len assms(1,2) slen
    by (subst readSize_iff) (auto simp: uint_of_nat_u64 word_le_nat_alt unsigned_of_nat take_bit_nat_eq_self)
  moreover have "fits buf k (of_nat (Suc (length ?be))) (of_nat (length c))
      = Ret (Inr (k, of_nat (Suc (length ?be)), of_nat (length c)))"
  proof -
    have "unat (of_nat (Suc (length ?be)) :: u64) = Suc (length ?be)"
      by (rule unat_of_nat_u64) (use c in simp)
    moreover have "unat (of_nat (length c) :: u64) = length c"
      by (rule unat_of_nat_u64) (rule len)
    moreover have "Suc (length ?be) + length c \<le> length buf"
      using assms(2) by simp
    ultimately show ?thesis
      using fits_eq [OF assms(3), of "of_nat (Suc (length ?be))" k "of_nat (length c)"]
      by (simp del: of_nat_Suc)
  qed
  moreover have "(ucast slen + 1 :: u64) = of_nat (Suc (length ?be))"
  proof -
    have "(ucast slen :: u64) = of_nat (length ?be)"
      using slen c by (simp add: word_unat_eq_iff unat_of_nat_u64)
    then show ?thesis by simp
  qed
  ultimately show ?thesis
    by (simp add: sized_def del: of_nat_Suc)
qed

lemma fits_short:
  assumes "length buf < 2 ^ 64" "Suc n \<le> length buf"
  shows "fits buf k 1 (of_nat n) = Ret (Inr (k, 1, of_nat n))"
  using fits_eq [of buf 1 k "of_nat n"] unat_of_nat_u64 [of n] assms by simp

lemma tag_byte:
  assumes "n \<le> m" "t + m < 256"
  shows "unat (of_nat t + of_nat n :: u8) = t + n"
  using assms by (simp add: unsigned_of_nat take_bit_nat_eq_self flip: of_nat_add)

text \<open>The bytes of a header: the tag, and the length that a long string or list puts before its content.\<close>

lemma short_tag:
  assumes "n < 56" "t = 128 \<or> t = 192"
  shows "unat (of_nat t + of_nat n :: u8) = t + n"
    and "(ucast (of_nat t + of_nat n - of_nat t :: u8) :: u64) = of_nat n"
proof -
  show "unat (of_nat t + of_nat n :: u8) = t + n"
    using assms by (intro tag_byte [of n 56]) auto
  have "unat (of_nat n :: u8) = n"
    using assms by (simp add: unsigned_of_nat take_bit_nat_eq_self)
  then show "(ucast (of_nat t + of_nat n - of_nat t :: u8) :: u64) = of_nat n"
    using assms by (simp add: word_unat_eq_iff unat_of_nat_u64)
qed

lemma long_tag:
  assumes "56 \<le> n" "n < 2 ^ 64" "t = 183 \<or> t = 247"
  shows "t < unat (of_nat t + of_nat (length (big_Bytes (int n))) :: u8)"
    and "unat (of_nat t + of_nat (length (big_Bytes (int n))) :: u8) \<le> t + 8"
proof -
  have "1 \<le> length (big_Bytes (int n)) \<and> length (big_Bytes (int n)) \<le> 8"
    using assms by (intro length_big_Bytes_u64) auto
  then show "t < unat (of_nat t + of_nat (length (big_Bytes (int n))) :: u8)"
    and "unat (of_nat t + of_nat (length (big_Bytes (int n))) :: u8) \<le> t + 8"
    using tag_byte [of "length (big_Bytes (int n))" 8 t] assms by auto
qed

lemma readKind_String:
  assumes "\<not> single c" "buf = kind_enc String c @ rest" "length buf < 2 ^ 64"
  shows "readKind buf = Ret (Inr (String, of_nat (length (kind_enc String c) - length c), of_nat (length c)))"
proof (cases "length c < 56")
  case True
  let ?x = "of_nat 128 + of_nat (length c) :: u8"
  have buf: "buf = ?x # c @ rest"
    using assms(2) True by (simp add: rlp_head_def)
  note x = short_tag [OF True, of 128, simplified]
  have "\<not> (length c = 1 \<and> c ! 0 < 128)"
    using assms(1) by (auto simp: single_def length_Suc_conv)
  then have "\<not> ((of_nat (length c) :: u64) = 1 \<and> length buf > 1 \<and> buf ! 1 < 128)"
    using True unat_of_nat_u64 [of "length c"] by (auto simp: buf nth_append)
  then show ?thesis
    using fits_short [OF assms(3), of "length c" String] x True
    by (simp add: readKind_cases buf rlp_head_def word_less_nat_alt)
next
  case False
  then have buf: "buf = (of_nat 183 + of_nat (length (big_Bytes (int (length c))))) # big_Bytes (int (length c)) @ c @ rest"
    using assms(2) by (simp add: rlp_head_def Let_def)
  moreover have "length c < 2 ^ 64"
    using assms(3) buf by simp
  ultimately show ?thesis
    using sized_enc [OF _ buf assms(3) refl, of String] long_tag [of "length c" 183] False
    by (simp add: readKind_cases rlp_head_def Let_def word_less_nat_alt)
qed

lemma readKind_List:
  assumes "buf = kind_enc List c @ rest" "length buf < 2 ^ 64"
  shows "readKind buf = Ret (Inr (List, of_nat (length (kind_enc List c) - length c), of_nat (length c)))"
proof (cases "length c < 56")
  case True
  then have buf: "buf = (of_nat 192 + of_nat (length c)) # c @ rest"
    using assms(1) by (simp add: rlp_head_def)
  then show ?thesis
    using fits_short [OF assms(2), of "length c" List] short_tag [OF True, of 192, simplified] True
    by (simp add: readKind_cases rlp_head_def word_less_nat_alt)
next
  case False
  then have buf: "buf = (of_nat 247 + of_nat (length (big_Bytes (int (length c))))) # big_Bytes (int (length c)) @ c @ rest"
    using assms(1) by (simp add: rlp_head_def Let_def)
  moreover have "length c < 2 ^ 64"
    using assms(2) buf by simp
  ultimately show ?thesis
    using sized_enc [OF _ buf assms(2) refl, of List] long_tag [of "length c" 247] False
    by (simp add: readKind_cases rlp_head_def Let_def word_less_nat_alt)
qed

lemma readKind_enc:
  assumes "canonical k c" "buf = kind_enc k c @ rest" "length buf < 2 ^ 64"
  shows "readKind buf = Ret (Inr (k, of_nat (length (kind_enc k c) - length c), of_nat (length c)))"
proof (cases k)
  case Byte
  with assms obtain x where "c = [x]" "x < 0x80" "buf = x # rest"
    by (auto simp: single_def)
  moreover have "fits buf Byte 0 1 = Ret (Inr (Byte, 0, 1))"
    using fits_eq [OF assms(3), of 0 Byte 1] calculation by simp
  ultimately show ?thesis
    using Byte by (simp add: readKind_cases)
qed (use assms readKind_String readKind_List in auto)

lemma fits_Ret:
  assumes "fits buf k ts cs = Ret (Inr (k', ts', cs'))" "length buf < 2 ^ 64" "unat ts \<le> length buf"
  shows "k' = k \<and> ts' = ts \<and> cs' = cs
    \<and> (\<exists>c rest. buf = take (unat ts) buf @ c @ rest \<and> length c = unat cs)"
proof -
  have "unat ts + unat cs \<le> length buf" "k' = k" "ts' = ts" "cs' = cs"
    using assms by (auto simp: fits_eq split: if_splits)
  moreover from this have "buf = take (unat ts) buf @ take (unat cs) (drop (unat ts) buf) @ drop (unat ts + unat cs) buf"
    by (metis append_take_drop_id drop_drop add.commute)
  ultimately show ?thesis
    by (metis (no_types, lifting) add_le_imp_le_diff add.commute length_drop length_take min.absorb2)
qed

lemma sized_Ret:
  assumes "sized buf k slen = Ret (Inr (k', ts, cs))" "length buf < 2 ^ 64" "buf = x # xs"
    and "1 \<le> unat slen" "unat slen \<le> 8"
  shows "k' = k \<and> (\<exists>c rest. 56 \<le> length c \<and> buf = x # big_Bytes (int (length c)) @ c @ rest
    \<and> length (big_Bytes (int (length c))) = unat slen)"
proof -
  obtain s where s: "readSize (drop 1 buf) slen = Ret (Inr s)"
    and f: "fits buf k (ucast slen + 1) s = Ret (Inr (k', ts, cs))"
    using assms(1) by (auto simp: sized_def go_sum_bind)
  from s have r: "56 \<le> s" "prefix (big_Bytes (uint s)) xs" "length (big_Bytes (uint s)) = unat slen"
    using readSize_iff(1) [OF assms(4,5)] assms(3) by simp_all
  have t: "unat (ucast slen + 1 :: u64) = Suc (unat slen)"
    using assms(5) by (subst unat_add_no_wrap) simp_all
  have "unat (ucast slen + 1 :: u64) \<le> length buf"
    using prefix_length_le [OF r(2)] r(3) assms(3) t by simp
  from fits_Ret [OF f assms(2) this] obtain c rest
    where c: "k' = k" "buf = take (Suc (unat slen)) buf @ c @ rest" "length c = unat s"
    unfolding t by auto
  have "take (Suc (unat slen)) buf = x # big_Bytes (uint s)"
    using r(2,3) assms(3) by (auto simp: prefix_def)
  with c r(1,3) have "k' = k \<and> 56 \<le> length c \<and> buf = x # big_Bytes (int (length c)) @ c @ rest
    \<and> length (big_Bytes (int (length c))) = unat slen"
    by (simp add: word_le_nat_alt)
  then show ?thesis by blast
qed

lemma tag_inverse: "t \<le> unat x \<Longrightarrow> (of_nat t + of_nat (unat x - t) :: u8) = x"
  by (simp add: of_nat_diff)

lemma fits_head:
  assumes "fits buf k' 1 (ucast (x - of_nat t)) = Ret (Inr (k, ts, cs))" "length buf < 2 ^ 64"
    and "buf = x # xs" "t \<le> unat x" "unat x < t + 56" "t < 256"
  shows "k = k' \<and> (\<exists>c rest. buf = rlp_head (of_nat t) l (length c) @ c @ rest
    \<and> length c = unat x - t)"
proof -
  have "unat (x - of_nat t) = unat x - t"
    using assms(4,6) by (simp add: unat_sub word_le_nat_alt unsigned_of_nat take_bit_nat_eq_self)
  with fits_Ret [OF assms(1,2)] assms(3) obtain c rest
    where "k = k'" "buf = x # c @ rest" "length c = unat x - t"
    by auto
  moreover from this have "rlp_head (of_nat t) l (length c) = [x]"
    using tag_inverse [OF assms(4)] assms(4,5) by (simp add: rlp_head_def less_diff_conv2)
  ultimately have "k = k' \<and> buf = rlp_head (of_nat t) l (length c) @ c @ rest \<and> length c = unat x - t"
    by simp
  then show ?thesis by blast
qed

lemma sized_head:
  assumes "sized buf k' (x - of_nat t) = Ret (Inr (k, ts, cs))" "length buf < 2 ^ 64"
    and "buf = x # xs" "t < unat x" "unat x \<le> t + 8" "t < 256"
  shows "k = k' \<and> (\<exists>c rest. buf = rlp_head s (of_nat t) (length c) @ c @ rest \<and> 56 \<le> length c)"
proof -
  have u: "unat (x - of_nat t) = unat x - t"
    using assms(4,6) by (simp add: unat_sub word_le_nat_alt unsigned_of_nat take_bit_nat_eq_self)
  obtain c rest where c: "k = k'" "56 \<le> length c" "buf = x # big_Bytes (int (length c)) @ c @ rest"
    "length (big_Bytes (int (length c))) = unat x - t"
  proof -
    have "1 \<le> unat x - t" "unat x - t \<le> 8"
      using assms(4,5) by linarith+
    from sized_Ret [OF assms(1-3), unfolded u, OF this] that show thesis by blast
  qed
  then have "rlp_head s (of_nat t) (length c) = x # big_Bytes (int (length c))"
    using tag_inverse [of t x] assms(4) by (simp add: rlp_head_def Let_def)
  with c(1-3) have "k = k' \<and> buf = rlp_head s (of_nat t) (length c) @ c @ rest \<and> 56 \<le> length c"
    by simp
  then show ?thesis by blast
qed

lemma readKind_canonical:
  assumes "readKind buf = Ret (Inr (k, ts, cs))" "length buf < 2 ^ 64"
  shows "\<exists>c rest. canonical k c \<and> buf = kind_enc k c @ rest"
proof -
  obtain x xs where buf: "buf = x # xs"
    using assms(1) by (cases buf) (auto simp: readKind_def)
  consider (byte) "unat x < 128" | (string) "128 \<le> unat x" "unat x < 128 + 56"
    | (longstring) "183 < unat x" "unat x \<le> 183 + 8"
    | (list) "192 \<le> unat x" "unat x < 192 + 56" | (longlist) "247 < unat x" "unat x \<le> 247 + 8"
    using unat_u8_less [of x] by linarith
  then show ?thesis
  proof cases
    case byte
    then have "k = Byte"
      using assms fits_Ret [of buf Byte 0 1 k ts cs] by (simp add: readKind_cases buf word_less_nat_alt)
    with byte buf show ?thesis
      by (intro exI [of _ "[x]"] exI [of _ xs]) (simp add: single_def word_less_nat_alt)
  next
    case string
    then have f: "fits buf String 1 (ucast (x - of_nat 128)) = Ret (Inr (k, ts, cs))"
      and nc: "\<not> ((ucast (x - 0x80) :: u64) = 1 \<and> length buf > 1 \<and> buf ! 1 < 128)"
      using assms(1) by (auto simp: readKind_cases buf word_less_nat_alt split: if_splits)
    obtain c rest where c: "k = String" "buf = rlp_head 0x80 0xB7 (length c) @ c @ rest"
      "length c = unat x - 128"
      using fits_head [OF f assms(2) buf string, where l = "0xB7"] by auto
    have "\<not> single c"
    proof
      assume "single c"
      then obtain y where y: "c = [y]" "y < 0x80"
        by (auto simp: single_def)
      moreover have "unat (x - 0x80) = unat x - 128"
        using string by (simp add: unat_sub word_le_nat_alt)
      ultimately have "unat (x - 0x80) = 1"
        using c(3) by simp
      then have "x - 0x80 = 1"
        by (metis unat_1 word_unat_eq_iff)
      with nc y c(2) show False by (simp add: rlp_head_def)
    qed
    with c show ?thesis by auto
  next
    case list
    then have "fits buf List 1 (ucast (x - of_nat 192)) = Ret (Inr (k, ts, cs))"
      using assms(1) by (auto simp: readKind_cases buf word_less_nat_alt split: if_splits)
    from fits_head [OF this assms(2) buf list, where l = "0xF7"] show ?thesis by auto
  next
    case longstring
    then have "sized buf String (x - of_nat 183) = Ret (Inr (k, ts, cs))"
      using assms(1) by (auto simp: readKind_cases buf word_less_nat_alt split: if_splits)
    from sized_head [OF this assms(2) buf longstring, where s = "0x80"] obtain c rest
      where c: "k = String" "buf = rlp_head 0x80 0xB7 (length c) @ c @ rest" "56 \<le> length c"
      by auto
    moreover have "\<not> single c"
      using c(3) by (auto simp: single_def)
    ultimately show ?thesis
      by (intro exI [of _ c] exI [of _ rest]) simp
  next
    case longlist
    then have "sized buf List (x - of_nat 247) = Ret (Inr (k, ts, cs))"
      using assms(1) by (auto simp: readKind_cases buf word_less_nat_alt split: if_splits)
    from sized_head [OF this assms(2) buf longlist, where s = "0xC0"] show ?thesis by auto
  qed
qed

lemma length_kind_enc: "length c \<le> length (kind_enc k c)"
  by (cases k) simp_all

lemma Split_enc:
  assumes "canonical k c" "length (kind_enc k c @ rest) < 2 ^ 64"
  shows "Split (kind_enc k c @ rest) = Ret (Inr (k, c, rest))"
proof -
  let ?b = "kind_enc k c @ rest" and ?t = "length (kind_enc k c) - length c"
  obtain h where h: "kind_enc k c = h @ c" "length h = ?t"
    by (cases k) auto
  have "?t < 2 ^ 64" "?t + length c < 2 ^ 64"
    using assms(2) length_kind_enc [of c k] by simp_all
  then have u: "uint (of_nat ?t :: u64) = int ?t" "uint (of_nat ?t + of_nat (length c) :: u64) = int (?t + length c)"
    by (simp_all only: uint_of_nat_u64 flip: of_nat_add)
  show ?thesis
    unfolding Split_def readKind_enc [OF assms(1) refl assms(2)] go_bind.simps sum.case prod.case u
    unfolding h(1) h(2) [symmetric] by (simp add: go_slice_def)
qed

lemma Split_iff:
  assumes "length b < 2 ^ 64"
  shows "Split b = Ret (Inr (k, c, rest)) \<longleftrightarrow> canonical k c \<and> b = kind_enc k c @ rest"
proof
  assume "canonical k c \<and> b = kind_enc k c @ rest"
  then show "Split b = Ret (Inr (k, c, rest))"
    using Split_enc assms by blast
next
  assume S: "Split b = Ret (Inr (k, c, rest))"
  then obtain k' ts cs where "readKind b = Ret (Inr (k', ts, cs))"
    by (auto simp: Split_def go_sum_bind)
  from readKind_canonical [OF this assms] obtain c' rest'
    where "canonical k' c'" "b = kind_enc k' c' @ rest'"
    by blast
  with Split_enc [of k' c' rest'] S assms show "canonical k c \<and> b = kind_enc k c @ rest"
    by simp
qed

lemma returns_Split:
  assumes "length b < 2 ^ 64"
  shows "returns (Split b)"
proof -
  obtain r where r: "readKind b = Ret r"
    using returns_readKind [OF assms] by (auto simp: returns_def)
  show ?thesis
  proof (cases r)
    case (Inr v)
    then obtain k ts cs where "readKind b = Ret (Inr (k, ts, cs))"
      using r by (cases v) auto
    from readKind_canonical [OF this assms] Split_enc assms show ?thesis
      by auto
  qed (simp add: Split_def r)
qed

section \<open>Counting\<close>

lemma rlp_enc_kind:
  "\<exists>k c. canonical k c \<and> rlp_enc v = kind_enc k c"
proof -
  have s: "\<exists>k c. canonical k c \<and> string_enc b = kind_enc k c" for b
  proof (cases "single b")
    case True
    then show ?thesis
      by (intro exI [of _ Byte] exI [of _ b]) (simp add: string_enc_def)
  next
    case False
    then show ?thesis
      by (intro exI [of _ String] exI [of _ b]) (simp add: string_enc_def)
  qed
  show ?thesis
  proof (cases v)
    case (RList vs)
    then show ?thesis
      by (intro exI [of _ List] exI [of _ "concat (map rlp_enc vs)"]) (simp add: list_enc_def)
  qed (auto simp: s)
qed

lemma kind_enc_nonempty: "canonical k c \<Longrightarrow> kind_enc k c \<noteq> []"
  by (cases k) (auto simp: single_def rlp_head_def Let_def)

lemma count_step:
  assumes "canonical k c" "length (kind_enc k c @ rest) < 2 ^ 64"
  shows "count_loop (Suc n) i (kind_enc k c @ rest) = count_loop n (i + 1) rest"
proof -
  let ?t = "length (kind_enc k c) - length c"
  have "?t + length c < 2 ^ 64" and len: "?t + length c = length (kind_enc k c)"
    using assms(2) length_kind_enc [of c k] by simp_all
  then have u: "uint (of_nat ?t + of_nat (length c) :: u64) = int (length (kind_enc k c))"
    by (simp only: uint_of_nat_u64 flip: of_nat_add)
  obtain x xs where x: "kind_enc k c @ rest = x # xs"
    using kind_enc_nonempty [OF assms(1)] by (cases "kind_enc k c") auto
  have r: "readKind (x # xs) = Ret (Inr (k, of_nat ?t, of_nat (length c)))"
    using readKind_enc [OF assms(1) refl assms(2)] x by simp
  have g: "go_slice (x # xs) (int (length (kind_enc k c))) (int (length (x # xs))) = Ret rest"
    unfolding x [symmetric] by (simp add: go_slice_def)
  show ?thesis
    unfolding x count_loop.simps r go_bind.simps sum.case prod.case u g by (rule refl)
qed

lemma count_loop_enc:
  "length (concat (map rlp_enc vs)) < 2 ^ 64 \<Longrightarrow> length vs \<le> n
     \<Longrightarrow> count_loop n i (concat (map rlp_enc vs)) = Ret (Inr (i + length vs))"
proof (induction vs arbitrary: n i)
  case (Cons v vs)
  then obtain m where m: "n = Suc m" "length vs \<le> m"
    by (cases n) auto
  obtain k c where k: "canonical k c" "rlp_enc v = kind_enc k c"
    using rlp_enc_kind by blast
  show ?case
    using count_step [OF k(1), of "concat (map rlp_enc vs)" m i] k Cons m by simp
qed simp

lemma length_le_concat_enc: "length vs \<le> length (concat (map rlp_enc vs))"
proof (induction vs)
  case (Cons v vs)
  have "0 < length (rlp_enc v)"
    using rlp_enc_kind [of v] kind_enc_nonempty by fastforce
  with Cons show ?case
    unfolding list.map concat.simps length_append list.size by linarith
qed simp

lemma count_loop_returns:
  "length b < 2 ^ 64 \<Longrightarrow> length b \<le> n \<Longrightarrow> returns (count_loop n i b)"
proof (induction n arbitrary: i b)
  case 0
  then show ?case by simp
next
  case (Suc n)
  show ?case
  proof (cases b)
    case (Cons x xs)
    obtain r where r: "readKind b = Ret r"
      using returns_readKind [OF Suc.prems(1)] by (auto simp: returns_def)
    show ?thesis
    proof (cases r)
      case (Inl e)
      with r Cons show ?thesis by simp
    next
      case (Inr v)
      then obtain k ts cs where "readKind b = Ret (Inr (k, ts, cs))"
        using r by (cases v) auto
      from readKind_canonical [OF this Suc.prems(1)] obtain k c rest
        where c: "canonical k c" "b = kind_enc k c @ rest"
        by blast
      have "length rest < length b"
        using kind_enc_nonempty [OF c(1)] c(2) by simp
      then have "returns (count_loop n (i + 1) rest)"
        using Suc.prems by (intro Suc.IH) auto
      with count_step [OF c(1), of rest n i] c(2) Suc.prems(1) show ?thesis by simp
    qed
  qed simp
qed

section \<open>Properties\<close>



text \<open>C26: \<open>Split\<close> accepts exactly the canonical encodings. On any input shorter than \<open>2 ^ 64\<close> bytes it
  and \<open>CountValues\<close> return without a panic, and it returns kind, content and rest exactly when the input is the canonical
  encoding of that kind with that content, followed by the rest.\<close>

theorem Split_correct:
  assumes "length b < 2 ^ 64"
  shows "(\<exists>r. Split b = Ret r) \<and> (\<exists>r. CountValues b = Ret r)
    \<and> (Split b = Ret (Inr (k, c, rest)) \<longleftrightarrow> canonical k c \<and> b = kind_enc k c @ rest)"
  using Split_iff [OF assms] returns_Split [OF assms] count_loop_returns [OF assms order_refl, of 0]
  by (simp add: returns_def CountValues_def)

theorem Split_correct_witness:
  "Split [0x82, 7, 8, 9] = Ret (Inr (String, [7, 8], [9]))"
  using Split_correct [of "[0x82, 7, 8, 9]" String "[7, 8]" "[9]"]
  by (simp add: single_def rlp_head_def)

text \<open>C27: splitting the encoding of a list gives back the encodings of its elements, and \<open>CountValues\<close>
  counts them.\<close>

theorem SplitList_roundtrip:
  assumes "length (rlp_enc (RList vs) @ rest) < 2 ^ 64"
  shows "SplitList (rlp_enc (RList vs) @ rest) = Ret (Inr (concat (map rlp_enc vs), rest))
    \<and> CountValues (concat (map rlp_enc vs)) = Ret (Inr (length vs))"
proof
  have "kind_enc List (concat (map rlp_enc vs)) = rlp_enc (RList vs)"
    by (simp add: list_enc_def)
  then show "SplitList (rlp_enc (RList vs) @ rest) = Ret (Inr (concat (map rlp_enc vs), rest))"
    using Split_enc [of List "concat (map rlp_enc vs)" rest] assms by (simp add: SplitList_def)
  show "CountValues (concat (map rlp_enc vs)) = Ret (Inr (length vs))"
    using count_loop_enc [of vs _ 0] length_le_concat_enc [of vs] assms
    by (simp add: CountValues_def list_enc_def)
qed

theorem SplitList_roundtrip_witness:
  "CountValues (concat (map rlp_enc [RBytes [5], RBool True])) = Ret (Inr 2)"
  using SplitList_roundtrip [of "[RBytes [5], RBool True]" "[]"]
  by (simp add: list_enc_def string_enc_def single_def rlp_head_def)

end
