(* ===== verification/Machine.thy ===== *)
theory Machine
  imports Interpreter Ledger Analysis RlpCorrect
begin

text \<open>
  The invariants of the virtual machine: words on the stack are in range, memory is bounded and
  word aligned, code hashes and jump tables belong to the code, the fork settings fit together. And
  the accesses to memory and data that the invariants make safe.
\<close>

section \<open>Total correctness of Go calls\<close>

text \<open>\<open>yields m P\<close>: the call returns, and the result satisfies \<open>P\<close>.\<close>

definition yields :: "'a go \<Rightarrow> ('a \<Rightarrow> bool) \<Rightarrow> bool" where
  "yields m P \<longleftrightarrow> (\<exists>x. m = Ret x \<and> P x)"

lemma yields_Ret [simp]: "yields (Ret x) P = P x"
  and yields_Panic [simp]: "\<not> yields Panic P"
  and yields_OutOfFuel [simp]: "\<not> yields OutOfFuel P"
  by (simp_all add: yields_def)

lemma yields_bind [simp]: "yields (go_bind m f) P = yields m (\<lambda>x. yields (f x) P)"
  by (cases m) (simp_all add: yields_def)

lemma yields_mono: "yields m P \<Longrightarrow> (\<And>x. m = Ret x \<Longrightarrow> P x \<Longrightarrow> Q x) \<Longrightarrow> yields m Q"
  by (auto simp: yields_def)

lemma yieldsE: "yields m P \<Longrightarrow> (\<And>x. m = Ret x \<Longrightarrow> P x \<Longrightarrow> R) \<Longrightarrow> R"
  by (auto simp: yields_def)

lemma yields_if: "(b \<Longrightarrow> yields m P) \<Longrightarrow> (\<not> b \<Longrightarrow> yields n P) \<Longrightarrow> yields (if b then m else n) P"
  by simp

section \<open>Words\<close>

definition w256 :: "int \<Rightarrow> bool" where
  "w256 x \<longleftrightarrow> 0 \<le> x \<and> x < 2 ^ 256"

named_theorems words_in_range \<open>results that are words\<close>

lemma w256_U256 [simp, words_in_range]: "w256 (U256 x)"
  by (simp only: w256_def U256_nonneg U256_less simp_thms)

lemma w256_small [words_in_range]: "0 \<le> x \<Longrightarrow> x < 2 ^ 64 \<Longrightarrow> w256 x"
  by (simp add: w256_def)

lemma w256_0 [simp]: "w256 0" and w256_1 [simp]: "w256 1"
  by (simp_all add: w256_def)

lemma w256_bool [simp]: "w256 (bool_int b)"
  by (simp add: bool_int_def)

lemma w256_hash [simp]: "w256 (uint (h :: hash))"
  using unsigned_less [where w = h and 'a = int] by (simp add: w256_def)

lemma w256_address [simp]: "w256 (uint (a :: address))"
  using unsigned_less [where w = a and 'a = int] by (simp add: w256_def)

lemma w256_u64 [simp]: "w256 (uint (a :: u64))"
  using uint_u64_less [of a] by (intro w256_small) simp_all

lemma w256_u8 [simp]: "w256 (uint (b :: u8))"
  using uint_u8_less [of b] by (intro w256_small) simp_all

lemma w256_SetBytes: "length d \<le> 32 \<Longrightarrow> w256 (SetBytes d)"
proof -
  assume "length d \<le> 32"
  then have "(256 :: int) ^ length d \<le> 256 ^ 32"
    by (intro power_increasing) simp_all
  with SetBytes_less [of d] show ?thesis
    by (simp add: w256_def)
qed

lemma w256_BitLen: "w256 x \<Longrightarrow> BitLen x \<le> 256"
  by (simp add: BitLen_le w256_def)

section \<open>Memory\<close>

definition mem_limit :: nat where
  "mem_limit = 0xffffffffe0"

definition mem_ok :: "Memory \<Rightarrow> bool" where
  "mem_ok m \<longleftrightarrow> length (store m) \<le> mem_limit \<and> 32 dvd length (store m)"

text \<open>The bytes from \<open>off\<close> on, \<open>sz\<close> of them, are in memory; an empty region is anywhere.\<close>

definition covers :: "Memory \<Rightarrow> int \<Rightarrow> int \<Rightarrow> bool" where
  "covers m off sz \<longleftrightarrow> 0 \<le> off \<and> 0 \<le> sz \<and> (sz = 0 \<or> off + sz \<le> int (length (store m)))"

lemma mem_limit_size: "mem_limit \<le> size_limit"
  by (simp add: mem_limit_def size_limit_def)

lemma covers_size: "covers m off sz \<Longrightarrow> mem_ok m \<Longrightarrow> 0 \<le> sz \<and> sz \<le> int mem_limit"
  by (auto simp: covers_def mem_ok_def mem_limit_def)

lemma covers_range:
  assumes "covers m off sz" "mem_ok m" "sz \<noteq> 0"
  shows "0 \<le> off" "0 < sz" "off + sz \<le> int (length (store m))" "off + sz < 2 ^ 40"
  using assms by (auto simp: covers_def mem_ok_def mem_limit_def)

lemma big_Uint64_small: "0 \<le> x \<Longrightarrow> x < 2 ^ 64 \<Longrightarrow> unat (big_Uint64 x) = nat x \<and> uint (big_Uint64 x) = x"
  using unat_big_Uint64 [of x] by (simp add: BitLen_le big_Uint64_def unsigned_of_int take_bit_int_eq_self)

lemma sint_u64: "unat w < 2 ^ 63 \<Longrightarrow> sint w = uint w" for w :: u64
proof -
  assume "unat w < 2 ^ 63"
  then have "int (unat w) < int (2 ^ 63)"
    by (simp only: of_nat_less_iff)
  then show ?thesis
    using big_Int64_small [of "uint w"] by (simp add: big_Int64_def)
qed

lemma mem_Get_covers:
  assumes "covers m off sz" "mem_ok m"
  shows "mem_Get (big_Int64 off) (big_Int64 sz) m = Ret (take (nat sz) (drop (nat off) (store m)))"
proof (cases "sz = 0")
  case True
  then show ?thesis
    by (simp add: mem_Get_def)
next
  case False
  note r = covers_range [OF assms False]
  then have "big_Int64 off = off" "big_Int64 sz = sz"
    by (simp_all add: big_Int64_small)
  with r show ?thesis
    by (simp add: mem_Get_def go_slice_def)
qed

lemma mem_GetPtr_eq: "mem_GetPtr = mem_Get"
  by (intro ext) (simp add: mem_GetPtr_def mem_Get_def)

lemma mem_Set_covers:
  assumes "covers m off sz" "mem_ok m"
  shows "\<exists>m'. mem_Set (big_Uint64 off) (big_Uint64 sz) d m = Ret m' \<and> length (store m') = length (store m)"
proof (cases "sz = 0")
  case True
  then show ?thesis
    by (simp add: mem_Set_def big_Uint64_def)
next
  case False
  note r = covers_range [OF assms False]
  then have u: "unat (big_Uint64 off) = nat off" "unat (big_Uint64 sz) = nat sz"
    by (simp_all add: big_Uint64_small)
  moreover have "unat (big_Uint64 off + big_Uint64 sz) = nat off + nat sz"
    using u r by (simp add: unat_add_no_wrap nat_less_iff flip: nat_add_distrib)
  moreover have "big_Uint64 sz > 0"
    using u r by (simp add: word_less_nat_alt)
  ultimately show ?thesis
    using r by (simp add: mem_Set_def copy_into_def Let_def nat_le_iff)
qed

lemma mem_Set32_covers:
  assumes "covers m off 32" "mem_ok m"
  shows "\<exists>m'. mem_Set32 (big_Uint64 off) v m = Ret m' \<and> length (store m') = length (store m)"
proof -
  note r = covers_range [OF assms]
  then have u: "unat (big_Uint64 off) = nat off"
    by (simp add: big_Uint64_small)
  moreover have "unat (big_Uint64 off + 32) = nat off + 32"
    using u r by (subst unat_add_no_wrap) (simp_all add: nat_less_iff)
  ultimately show ?thesis
    using r by (simp add: mem_Set32_def copy_into_def Let_def nat_le_iff ReadBits_zeroed)
qed

lemma mem_ok_same: "mem_ok m \<Longrightarrow> length (store m') = length (store m) \<Longrightarrow> mem_ok m'"
  by (simp add: mem_ok_def)

section \<open>Slices of data\<close>

lemma getDataBig_length:
  assumes "0 \<le> start" "0 \<le> sz" "sz < 2 ^ 63" "length data \<le> size_limit"
  shows "\<exists>d. getDataBig data start sz = Ret d \<and> length d = nat sz"
proof -
  let ?n = "int (length data)"
  have n: "?n \<le> 2 ^ 40"
    using assms(4) by (simp add: size_limit_def)
  define s e where "s = BigMin start ?n" and "e = BigMin (s + sz) ?n"
  have s: "0 \<le> s" "s \<le> ?n" and e: "s \<le> e" "e \<le> ?n" "e \<le> s + sz"
    using assms by (auto simp: s_def e_def BigMin_def)
  then have "uint (big_Uint64 s) = s" "uint (big_Uint64 e) = e"
    using n by (simp_all add: big_Uint64_small)
  moreover have "sint (big_Uint64 sz) = sz"
    using big_Int64_small [of sz] assms(2,3) by (simp add: big_Int64_def big_Uint64_def)
  ultimately show ?thesis
    using s e by (simp add: getDataBig_def s_def [symmetric] e_def [symmetric] Let_def go_slice_def
        length_RightPadBytes)
qed

lemma getData_slice:
  assumes "length data \<le> size_limit" "unat sz + 2 ^ 40 < 2 ^ 64"
  shows "\<exists>d. getData data start sz = Ret (RightPadBytes d (sint sz)) \<and> length d \<le> unat sz"
proof -
  let ?n = "of_nat (length data) :: u64"
  have n: "unat ?n = length data" "length data \<le> 2 ^ 40"
    using assms(1) by (simp_all add: size_limit_def unat_of_nat_u64)
  define s where "s = (if start > ?n then ?n else start)"
  define e where "e = (if s + sz > ?n then ?n else s + sz)"
  have s: "unat s \<le> length data"
    using n by (simp add: s_def word_less_nat_alt)
  then have "unat (s + sz) = unat s + unat sz"
    using n assms(2) by (intro unat_add_no_wrap) simp
  then have e: "unat s \<le> unat e" "unat e \<le> length data" "unat e \<le> unat s + unat sz"
    using n s by (simp_all add: e_def word_less_nat_alt)
  have "int (unat s) \<le> int (unat e)" "int (unat e) \<le> int (length data)"
    "int (unat e) \<le> int (unat s + unat sz)"
    using e by (simp_all only: of_nat_le_iff)
  then have u: "uint s \<le> uint e" "uint e \<le> int (length data)" "uint e \<le> uint s + uint sz"
    by simp_all
  then have "nat (uint e - uint s) \<le> nat (uint sz)"
    by linarith
  moreover have "nat (uint sz) = unat sz"
    by simp
  moreover have "getData data start sz
      = go_bind (go_slice data (uint s) (uint e)) (\<lambda>d. Ret (RightPadBytes d (sint sz)))"
    by (simp only: getData_def Let_def s_def e_def)
  ultimately show ?thesis
    using u by (auto simp: go_slice_def)
qed

lemma getData_length:
  assumes "length data \<le> size_limit" "unat sz < 2 ^ 63"
  shows "\<exists>d. getData data start sz = Ret d \<and> length d = unat sz"
proof -
  have "nat (uint sz) = unat sz"
    by simp
  moreover obtain d where "getData data start sz = Ret (RightPadBytes d (sint sz))" "length d \<le> unat sz"
    using getData_slice [OF assms(1), of sz start] assms(2) by auto
  ultimately show ?thesis
    using sint_u64 [OF assms(2)] by (simp add: length_RightPadBytes)
qed

section \<open>Invariants\<close>

text \<open>What is required of the cryptographic libraries: codes of different lengths do not collide, no
  code hashes to zero, a recovered key is not empty, and results have their documented sizes.\<close>

definition crypto_ok :: "crypto \<Rightarrow> bool" where
  "crypto_ok X \<longleftrightarrow>
     (\<forall>c d. length c \<le> size_limit \<longrightarrow> length d \<le> size_limit
        \<longrightarrow> Keccak256 X c = Keccak256 X d \<longrightarrow> length c = length d)
     \<and> (\<forall>c. length c \<le> size_limit \<longrightarrow> Keccak256 X c \<noteq> 0)
     \<and> (\<forall>h sig p. crypto_Ecrecover X h sig = Some p \<longrightarrow> p \<noteq> [])
     \<and> (\<forall>b. length (ripemd160_Sum X b) \<le> 32)
     \<and> (\<forall>p. length (bn256_G1_Marshal X p) \<le> 64)"

definition bitmap_ok :: "bytes \<Rightarrow> bitvec \<Rightarrow> bool" where
  "bitmap_ok code a \<longleftrightarrow> length a = length code div 8 + 5"

definition jumps_ok :: "crypto \<Rightarrow> EVM \<Rightarrow> bool" where
  "jumps_ok X evm \<longleftrightarrow> (\<forall>h a. jumpdests evm h = Some a \<longrightarrow>
     (\<exists>code. Keccak256 X code = h \<and> length code \<le> size_limit \<and> bitmap_ok code a))"

text \<open>The settings \<open>NewEVM\<close> chooses. The metering of storage by net changes, active between the
  Constantinople and Petersburg forks, may panic in \<open>SubRefund\<close> and is left out.\<close>

definition settled :: "EVM \<Rightarrow> bool" where
  "settled evm \<longleftrightarrow>
     chainRules evm = Rules_of (chainConfig evm) (block_num evm)
     \<and> in_gasTable evm = GasTable_of (chainConfig evm) (block_num evm)
     \<and> in_instructions evm = instructions_of (chainConfig evm) (block_num evm)
     \<and> (rIsPetersburg (chainRules evm) \<or> \<not> rIsConstantinople (chainRules evm))
     \<and> w256 (GasPrice (ctx evm))"

definition evm_ok :: "crypto \<Rightarrow> EVM \<Rightarrow> bool" where
  "evm_ok X evm \<longleftrightarrow> state_ok X (sdb evm) \<and> jumps_ok X evm \<and> settled evm
     \<and> length (returnData evm) \<le> size_limit"

definition contract_ok :: "crypto \<Rightarrow> Contract \<Rightarrow> bool" where
  "contract_ok X c \<longleftrightarrow> w256 (c_value c) \<and> length (c_Code c) \<le> size_limit
     \<and> length (c_Input c) \<le> size_limit
     \<and> (c_CodeHash c \<noteq> 0 \<longrightarrow> c_CodeHash c = Keccak256 X (c_Code c))
     \<and> (\<forall>a. c_analysis c = Some a \<longrightarrow> bitmap_ok (c_Code c) a)
     \<and> unat (c_Gas c) < 2 ^ 62"

definition stack_ok :: "stack \<Rightarrow> bool" where
  "stack_ok st \<longleftrightarrow> list_all w256 st \<and> length st \<le> 1024"

definition frame_ok :: "crypto \<Rightarrow> frame \<Rightarrow> bool" where
  "frame_ok X fr \<longleftrightarrow> evm_ok X (f_evm fr) \<and> contract_ok X (f_contract fr) \<and> stack_ok (f_stack fr)
     \<and> mem_ok (f_mem fr) \<and> unat (f_pc fr) \<le> length (c_Code (f_contract fr)) + 32"

text \<open>In static mode nothing may be written.\<close>

definition static :: "EVM \<Rightarrow> bool" where
  "static evm \<longleftrightarrow> rIsByzantium (chainRules evm) \<and> readOnly evm"

definition same_setting :: "EVM \<Rightarrow> EVM \<Rightarrow> bool" where
  "same_setting evm evm' \<longleftrightarrow> ctx evm' = ctx evm \<and> chainConfig evm' = chainConfig evm
     \<and> chainRules evm' = chainRules evm \<and> vmConfig evm' = vmConfig evm \<and> abort evm' = abort evm
     \<and> in_gasTable evm' = in_gasTable evm \<and> in_instructions evm' = in_instructions evm
     \<and> depth evm' = depth evm \<and> readOnly evm' = readOnly evm"

definition evm_rel :: "crypto \<Rightarrow> bool \<Rightarrow> EVM \<Rightarrow> EVM \<Rightarrow> bool" where
  "evm_rel X ro evm evm' \<longleftrightarrow> same_setting evm evm' \<and> srel X ro (sdb evm) (sdb evm')"

definition contract_rel :: "Contract \<Rightarrow> Contract \<Rightarrow> bool" where
  "contract_rel c c' \<longleftrightarrow> CallerAddress c' = CallerAddress c \<and> self_addr c' = self_addr c
     \<and> c_Code c' = c_Code c \<and> c_CodeHash c' = c_CodeHash c \<and> c_CodeAddr c' = c_CodeAddr c
     \<and> c_Input c' = c_Input c \<and> c_value c' = c_value c"

abbreviation gas_of :: "frame \<Rightarrow> nat" where
  "gas_of fr \<equiv> unat (c_Gas (f_contract fr))"

lemma settled_same: "same_setting evm evm' \<Longrightarrow> settled evm' = settled evm"
  by (simp add: same_setting_def settled_def)

lemma static_same: "same_setting evm evm' \<Longrightarrow> static evm' = static evm"
  by (simp add: same_setting_def static_def)

lemma same_setting_refl [simp]: "same_setting evm evm"
  by (simp add: same_setting_def)

lemma same_setting_trans: "same_setting a b \<Longrightarrow> same_setting b c \<Longrightarrow> same_setting a c"
  by (simp add: same_setting_def)

lemma evm_rel_trans: "evm_rel X ro a b \<Longrightarrow> evm_rel X ro b c \<Longrightarrow> evm_rel X ro a c"
  by (auto simp: evm_rel_def intro: same_setting_trans srel_trans)

lemma evm_rel_refl: "evm_ok X evm \<Longrightarrow> evm_rel X ro evm evm"
  by (simp add: evm_rel_def evm_ok_def srel_refl)

lemma contract_rel_refl [simp]: "contract_rel c c"
  by (simp add: contract_rel_def)

lemma contract_rel_trans: "contract_rel a b \<Longrightarrow> contract_rel b c \<Longrightarrow> contract_rel a c"
  by (simp add: contract_rel_def)

lemma evm_ok_change:
  "evm_ok X evm \<Longrightarrow> same_setting evm evm' \<Longrightarrow> state_ok X (sdb evm') \<Longrightarrow> jumps_ok X evm'
   \<Longrightarrow> length (returnData evm') \<le> size_limit \<Longrightarrow> evm_ok X evm'"
  by (simp add: evm_ok_def settled_same)

text \<open>Changing nothing but the state.\<close>

lemma evm_ok_sdb: "evm_ok X evm \<Longrightarrow> srel X ro (sdb evm) s \<Longrightarrow> evm_ok X (evm\<lparr>sdb := s\<rparr>)"
  by (rule evm_ok_change [of X evm]) (simp_all add: same_setting_def srel_ok evm_ok_def jumps_ok_def)

lemma evm_rel_sdb: "srel X ro (sdb evm) s \<Longrightarrow> evm_rel X ro evm (evm\<lparr>sdb := s\<rparr>)"
  by (simp add: evm_rel_def same_setting_def)

section \<open>Reading the state\<close>

lemma vcode_codehash:
  assumes "state_ok X s"
  shows "length (vcode_of (view X s) a) \<le> size_limit"
    and "codehash_of (view X s) a \<noteq> 0 \<Longrightarrow> codehash_of (view X s) a = Keccak256 X (vcode_of (view X s) a)"
  using assms
  by (auto simp: state_ok_def view_ok_def codes_ok_def code_ok_def vcode_of_def codehash_of_def
      split: option.splits)

lemma balance_w256: "state_ok X s \<Longrightarrow> w256 (balance_of (view X s) a)"
  using balance_range by (simp add: state_ok_def view_ok_def w256_def)

end
