(* ===== verification/OpSafety.thy ===== *)
theory OpSafety
  imports Machine
begin

text \<open>
  The instructions that do not call keep the invariants: with enough items on the stack and the
  memory they need in place, they return, leave words on the stack, keep the memory bounded, and
  change the world state only as the mode of execution allows.
\<close>

section \<open>What an instruction guarantees\<close>

text \<open>After an instruction that pops \<open>pops\<close> items and pushes \<open>pushes\<close>; at most \<open>G\<close> gas is left.\<close>

definition exec_good ::
  "crypto \<Rightarrow> nat \<Rightarrow> nat \<Rightarrow> nat \<Rightarrow> frame \<Rightarrow> bytes \<times> vm_error option \<times> frame \<Rightarrow> bool" where
  "exec_good X G pops pushes fr r \<longleftrightarrow>
     (case r of (d, err, fr') \<Rightarrow>
        evm_ok X (f_evm fr') \<and> evm_rel X (static (f_evm fr)) (f_evm fr) (f_evm fr')
        \<and> contract_ok X (f_contract fr') \<and> contract_rel (f_contract fr) (f_contract fr')
        \<and> gas_of fr' \<le> G \<and> mem_ok (f_mem fr') \<and> list_all w256 (f_stack fr')
        \<and> length (f_stack fr') + pops \<le> length (f_stack fr) + pushes
        \<and> length d \<le> size_limit
        \<and> (unat (f_pc fr') \<le> unat (f_pc fr) + 32 \<or> unat (f_pc fr') < length (c_Code (f_contract fr))))"

lemma exec_good_weaken: "exec_good X G p q fr r \<Longrightarrow> G \<le> G' \<Longrightarrow> exec_good X G' p q fr r"
  by (auto simp: exec_good_def)

lemma frame_okD:
  assumes "frame_ok X fr"
  shows "evm_ok X (f_evm fr)" "contract_ok X (f_contract fr)" "list_all w256 (f_stack fr)"
    "mem_ok (f_mem fr)" "state_ok X (sdb (f_evm fr))" "wf_state X (sdb (f_evm fr))"
  using assms by (simp_all add: frame_ok_def stack_ok_def evm_ok_def state_ok_def)

text \<open>Instructions that change state, memory and stack.\<close>

lemma exec_goodI:
  assumes "frame_ok X fr" "srel X (static (f_evm fr)) (sdb (f_evm fr)) s" "mem_ok m" "list_all w256 st"
    and "length st + pops \<le> length (f_stack fr) + pushes"
  shows "exec_good X (gas_of fr) pops pushes fr
    ([], err, fr\<lparr>f_evm := (f_evm fr)\<lparr>sdb := s\<rparr>, f_mem := m, f_stack := st\<rparr>)"
  using assms evm_ok_sdb [OF frame_okD(1) [OF assms(1)] assms(2)] evm_rel_sdb [OF assms(2)]
  by (simp add: exec_good_def frame_ok_def size_limit_def)

lemma exec_stackI:
  assumes "frame_ok X fr" "list_all w256 st" "length st + pops \<le> length (f_stack fr) + pushes"
  shows "exec_good X (gas_of fr) pops pushes fr ([], err, fr\<lparr>f_stack := st\<rparr>)"
  using exec_goodI [OF assms(1) srel_refl [OF frame_okD(5) [OF assms(1)]] frame_okD(4) [OF assms(1)]
      assms(2,3), of err]
  by (simp add: frame.surjective [symmetric] EVM.surjective [symmetric])

lemma exec_sdbI:
  assumes "frame_ok X fr" "srel X (static (f_evm fr)) (sdb (f_evm fr)) s" "list_all w256 st"
    and "length st + pops \<le> length (f_stack fr) + pushes"
  shows "exec_good X (gas_of fr) pops pushes fr ([], err, (set_sdb s fr)\<lparr>f_stack := st\<rparr>)"
  using exec_goodI [OF assms(1,2) frame_okD(4) [OF assms(1)] assms(3,4), of err]
  by (simp add: set_sdb_def)

lemma exec_memI:
  assumes "frame_ok X fr" "mem_ok m" "list_all w256 st"
    and "length st + pops \<le> length (f_stack fr) + pushes"
  shows "exec_good X (gas_of fr) pops pushes fr ([], err, fr\<lparr>f_mem := m, f_stack := st\<rparr>)"
  using exec_goodI [OF assms(1) srel_refl [OF frame_okD(5) [OF assms(1)]] assms(2,3,4), of err]
  by simp

text \<open>The memory a frame needs by \<open>mf\<close> is there.\<close>

fun mem_fits :: "memorySizeFunc option \<Rightarrow> frame \<Rightarrow> bool" where
  "mem_fits None fr = True"
| "mem_fits (Some f) fr = (\<exists>sz. f (f_stack fr) = Ret sz \<and> sz \<le> int (length (store (f_mem fr))))"

text \<open>An instruction that is safe in every frame with enough items; if it writes (\<open>w\<close>), outside of
  static mode.\<close>

definition exec_safe ::
  "crypto \<Rightarrow> runner \<Rightarrow> memorySizeFunc option \<Rightarrow> bool \<Rightarrow> nat \<Rightarrow> nat \<Rightarrow> executionFunc \<Rightarrow> bool" where
  "exec_safe X rn mf w pops pushes ex \<longleftrightarrow>
     (\<forall>fr. frame_ok X fr \<longrightarrow> pops \<le> length (f_stack fr) \<longrightarrow> mem_fits mf fr \<longrightarrow> (w \<longrightarrow> \<not> static (f_evm fr))
        \<longrightarrow> yields (ex X rn fr) (exec_good X (gas_of fr) pops pushes fr))"

lemma exec_safeI:
  assumes "\<And>fr. frame_ok X fr \<Longrightarrow> pops \<le> length (f_stack fr) \<Longrightarrow> mem_fits mf fr \<Longrightarrow> (w \<Longrightarrow> \<not> static (f_evm fr))
    \<Longrightarrow> list_all w256 (f_stack fr) \<Longrightarrow> yields (ex X rn fr) (exec_good X (gas_of fr) pops pushes fr)"
  shows "exec_safe X rn mf w pops pushes ex"
  using assms frame_okD(3) by (simp add: exec_safe_def)

text \<open>Stacks with at least so many items.\<close>

lemma stack_shape:
  "1 \<le> length st \<Longrightarrow> \<exists>a r. st = a # r"
  "2 \<le> length st \<Longrightarrow> \<exists>a b r. st = a # b # r"
  "3 \<le> length st \<Longrightarrow> \<exists>a b c r. st = a # b # c # r"
  "4 \<le> length st \<Longrightarrow> \<exists>a b c d r. st = a # b # c # d # r"
  "6 \<le> length st \<Longrightarrow> \<exists>a b c d e f r. st = a # b # c # d # e # f # r"
  "7 \<le> length st \<Longrightarrow> \<exists>a b c d e f g r. st = a # b # c # d # e # f # g # r"
  by (auto simp: numeral_eq_Suc Suc_le_length_iff)

section \<open>Arithmetic\<close>

lemma exec_unary:
  assumes "\<And>x. w256 x \<Longrightarrow> w256 (f x)" "\<And>X rn fr. ex X rn fr = unary f fr"
  shows "exec_safe X rn None False 1 1 ex"
proof (rule exec_safeI)
  fix fr
  assume ok: "frame_ok X fr" "1 \<le> length (f_stack fr)" "list_all w256 (f_stack fr)"
  then obtain x st where "f_stack fr = x # st"
    using stack_shape(1) by blast
  with ok assms show "yields (ex X rn fr) (exec_good X (gas_of fr) 1 1 fr)"
    by (simp add: unary_def stack_op_def exec_stackI)
qed

lemma exec_binary:
  assumes "\<And>x y. w256 x \<Longrightarrow> w256 y \<Longrightarrow> w256 (f x y)" "\<And>X rn fr. ex X rn fr = binary f fr"
  shows "exec_safe X rn None False 2 1 ex"
proof (rule exec_safeI)
  fix fr
  assume ok: "frame_ok X fr" "2 \<le> length (f_stack fr)" "list_all w256 (f_stack fr)"
  then obtain x y st where "f_stack fr = x # y # st"
    using stack_shape(2) by blast
  with ok assms show "yields (ex X rn fr) (exec_good X (gas_of fr) 2 1 fr)"
    by (simp add: binary_def stack_op_def exec_stackI)
qed

lemma exec_ternary:
  assumes "\<And>x y z. w256 x \<Longrightarrow> w256 y \<Longrightarrow> w256 z \<Longrightarrow> w256 (f x y z)" "\<And>X rn fr. ex X rn fr = ternary f fr"
  shows "exec_safe X rn None False 3 1 ex"
proof (rule exec_safeI)
  fix fr
  assume ok: "frame_ok X fr" "3 \<le> length (f_stack fr)" "list_all w256 (f_stack fr)"
  then obtain x y z st where "f_stack fr = x # y # z # st"
    using stack_shape(3) by blast
  with ok assms show "yields (ex X rn fr) (exec_good X (gas_of fr) 3 1 fr)"
    by (simp add: ternary_def stack_op_def exec_stackI)
qed

lemma exec_push:
  assumes "\<And>fr. frame_ok X fr \<Longrightarrow> w256 (f fr)" "\<And>X rn fr. ex X rn fr = push_value (f fr) fr"
  shows "exec_safe X rn None False 0 1 ex"
  using assms by (intro exec_safeI) (simp add: push_value_def stack_op_def exec_stackI)

named_theorems op_safety \<open>safety of the instructions\<close>

lemma w256_mod: "w256 x \<Longrightarrow> 0 < y \<Longrightarrow> w256 (x mod y)"
  using zmod_le_nonneg_dividend [of x y] by (auto simp: w256_def pos_mod_sign)

lemma w256_bits:
  assumes "w256 x" "w256 y"
  shows "w256 (and x y)" "w256 (or x y)" "w256 (xor x y)"
proof -
  have r: "z = take_bit 256 z \<longleftrightarrow> w256 z" for z :: int
    using take_bit_int_eq_self_iff [of 256 z] by (auto simp: w256_def)
  show "w256 (and x y)" "w256 (or x y)" "w256 (xor x y)"
    using assms by (simp_all flip: r add: take_bit_and take_bit_or take_bit_xor)
qed

lemma w256_Exp: "0 \<le> e \<Longrightarrow> w256 (fst (math_Exp b e))"
  by (simp add: math_Exp_eq w256_def tt256_def pos_mod_bound pos_mod_sign)

lemma arith_safe [op_safety]:
  "exec_safe X rn None False 2 1 opAdd" "exec_safe X rn None False 2 1 opSub"
  "exec_safe X rn None False 2 1 opMul" "exec_safe X rn None False 2 1 opDiv"
  "exec_safe X rn None False 2 1 opSdiv" "exec_safe X rn None False 2 1 opMod"
  "exec_safe X rn None False 2 1 opSmod" "exec_safe X rn None False 2 1 opExp"
  "exec_safe X rn None False 2 1 opLt" "exec_safe X rn None False 2 1 opGt"
  "exec_safe X rn None False 2 1 opSlt" "exec_safe X rn None False 2 1 opSgt"
  "exec_safe X rn None False 2 1 opEq" "exec_safe X rn None False 2 1 opAnd"
  "exec_safe X rn None False 2 1 opOr" "exec_safe X rn None False 2 1 opXor"
  "exec_safe X rn None False 2 1 opByte" "exec_safe X rn None False 2 1 opSHL"
  "exec_safe X rn None False 2 1 opSHR" "exec_safe X rn None False 2 1 opSAR"
  by (rule exec_binary; simp add: opAdd_def opSub_def opMul_def opDiv_def opSdiv_def opMod_def
      opSmod_def opExp_def opLt_def opGt_def opSlt_def opSgt_def opEq_def opAnd_def opOr_def opXor_def
      opByte_def opSHL_def opSHR_def opSAR_def Let_def w256_bits w256_Exp; fail)+

lemma opNot_safe [op_safety]: "exec_safe X rn None False 1 1 opNot"
  by (rule exec_unary; simp add: opNot_def)

lemma opIszero_safe [op_safety]: "exec_safe X rn None False 1 1 opIszero"
  by (rule exec_unary; simp add: opIszero_def)

lemma modular_safe [op_safety]:
  "exec_safe X rn None False 3 1 opAddmod" "exec_safe X rn None False 3 1 opMulmod"
  by (rule exec_ternary; simp add: opAddmod_def opMulmod_def; fail)+

lemma opSignExtend_safe [op_safety]: "exec_safe X rn None False 2 1 opSignExtend"
proof (rule exec_safeI)
  fix fr
  assume ok: "frame_ok X fr" "2 \<le> length (f_stack fr)" "list_all w256 (f_stack fr)"
  then obtain x y st where "f_stack fr = x # y # st"
    using stack_shape(2) by blast
  with ok show "yields (opSignExtend X rn fr) (exec_good X (gas_of fr) 2 1 fr)"
    by (simp add: opSignExtend_def stack_op_def exec_stackI Let_def)
qed

section \<open>Environment\<close>

lemma frame_words:
  assumes "frame_ok X fr"
  shows "w256 (c_value (f_contract fr))" "w256 (GasPrice (ctx (f_evm fr)))"
    "w256 (int (length (c_Input (f_contract fr))))" "w256 (int (length (c_Code (f_contract fr))))"
    "w256 (int (length (returnData (f_evm fr))))" "w256 (int (length (store (f_mem fr))))"
  using assms
  by (simp_all add: frame_ok_def contract_ok_def evm_ok_def settled_def mem_ok_def mem_limit_def
      size_limit_def w256_def)

lemma push_safe [op_safety]:
  "exec_safe X rn None False 0 1 opAddress" "exec_safe X rn None False 0 1 opOrigin"
  "exec_safe X rn None False 0 1 opCaller" "exec_safe X rn None False 0 1 opCallValue"
  "exec_safe X rn None False 0 1 opCallDataSize" "exec_safe X rn None False 0 1 opReturnDataSize"
  "exec_safe X rn None False 0 1 opCodeSize" "exec_safe X rn None False 0 1 opGasprice"
  "exec_safe X rn None False 0 1 opCoinbase" "exec_safe X rn None False 0 1 opTimestamp"
  "exec_safe X rn None False 0 1 opNumber" "exec_safe X rn None False 0 1 opDifficulty"
  "exec_safe X rn None False 0 1 opGasLimit" "exec_safe X rn None False 0 1 opPc"
  "exec_safe X rn None False 0 1 opMsize" "exec_safe X rn None False 0 1 opGas"
  by (rule exec_push; simp add: opAddress_def opOrigin_def opCaller_def opCallValue_def
      opCallDataSize_def opReturnDataSize_def opCodeSize_def opGasprice_def opCoinbase_def
      opTimestamp_def opNumber_def opDifficulty_def opGasLimit_def opPc_def opMsize_def opGas_def
      Address_Big_eq frame_words; fail)+

text \<open>Instructions that replace the top of the stack by something read from the state.\<close>

lemma exec_read:
  assumes "\<And>fr x st. frame_ok X fr \<Longrightarrow> f_stack fr = x # st \<Longrightarrow> w256 x
      \<Longrightarrow> \<exists>s v. ex X rn fr = stack_op (set_sdb s fr) (v # st) \<and> quiet X (sdb (f_evm fr)) s \<and> w256 v"
  shows "exec_safe X rn None False 1 1 ex"
proof (rule exec_safeI)
  fix fr
  assume ok: "frame_ok X fr" "1 \<le> length (f_stack fr)" "list_all w256 (f_stack fr)"
  then obtain x st where st: "f_stack fr = x # st"
    using stack_shape(1) by blast
  with ok assms [OF ok(1) st] obtain s v where
    "ex X rn fr = stack_op (set_sdb s fr) (v # st)" "quiet X (sdb (f_evm fr)) s" "w256 v"
    by auto
  with ok st show "yields (ex X rn fr) (exec_good X (gas_of fr) 1 1 fr)"
    using srel_quiet [OF frame_okD(5) [OF ok(1)]] by (simp add: stack_op_def exec_sdbI)
qed

lemma opBalance_safe [op_safety]: "exec_safe X rn None False 1 1 opBalance"
proof (rule exec_read)
  fix fr x st
  assume ok: "frame_ok X fr" "f_stack fr = x # st"
  then show "\<exists>s v. opBalance X rn fr = stack_op (set_sdb s fr) (v # st) \<and> quiet X (sdb (f_evm fr)) s \<and> w256 v"
    using GetBalance_spec [OF frame_okD(6) [OF ok(1)], of "BigToAddress x"] balance_w256 [OF frame_okD(5) [OF ok(1)]]
    by (force simp: opBalance_def split: prod.splits)
qed

lemma opExtCodeSize_safe [op_safety]: "exec_safe X rn None False 1 1 opExtCodeSize"
proof (rule exec_read)
  fix fr x st
  assume ok: "frame_ok X fr" "f_stack fr = x # st"
  then show "\<exists>s v. opExtCodeSize X rn fr = stack_op (set_sdb s fr) (v # st)
      \<and> quiet X (sdb (f_evm fr)) s \<and> w256 v"
    using GetCodeSize_quiet [OF frame_okD(6) [OF ok(1)], of "BigToAddress x"]
    by (force simp: opExtCodeSize_def split: prod.splits)
qed

lemma opSload_safe [op_safety]: "exec_safe X rn None False 1 1 opSload"
proof (rule exec_read)
  fix fr x st
  assume ok: "frame_ok X fr" "f_stack fr = x # st"
  then show "\<exists>s v. opSload X rn fr = stack_op (set_sdb s fr) (v # st) \<and> quiet X (sdb (f_evm fr)) s \<and> w256 v"
    using GetState_spec [OF frame_okD(6) [OF ok(1)], of "self_addr (f_contract fr)" "BigToHash x"]
    by (force simp: opSload_def SetBytes_Hash_Bytes split: prod.splits)
qed

lemma opExtCodeHash_safe [op_safety]: "exec_safe X rn None False 1 1 opExtCodeHash"
proof (rule exec_read)
  fix fr x st
  assume ok: "frame_ok X fr" "f_stack fr = x # st"
  let ?s = "sdb (f_evm fr)"
  obtain s1 e where e: "Empty X (BigToAddress x) ?s = (s1, e)" by fastforce
  then have q: "quiet X ?s s1"
    using Empty_spec [OF frame_okD(6) [OF ok(1)], of "BigToAddress x"] by simp
  obtain s2 h where h: "GetCodeHash X (BigToAddress x) s1 = (s2, h)" by fastforce
  then have "quiet X s1 s2"
    using GetCodeHash_spec [OF quiet_wf [OF q], of "BigToAddress x"] by simp
  then have q2: "quiet X ?s s2"
    using quiet_trans [OF q] by simp
  show "\<exists>s v. opExtCodeHash X rn fr = stack_op (set_sdb s fr) (v # st) \<and> quiet X ?s s \<and> w256 v"
    using ok e h q q2 by (cases e) (force simp: opExtCodeHash_def SetBytes_Hash_Bytes)+
qed

lemma opCallDataLoad_safe [op_safety]: "exec_safe X rn None False 1 1 opCallDataLoad"
proof (rule exec_safeI)
  fix fr
  assume ok: "frame_ok X fr" "1 \<le> length (f_stack fr)" "list_all w256 (f_stack fr)"
  then obtain x st where st: "f_stack fr = x # st"
    using stack_shape(1) by blast
  moreover have "0 \<le> x" "length (c_Input (f_contract fr)) \<le> size_limit"
    using ok st by (simp_all add: w256_def frame_ok_def contract_ok_def)
  from getDataBig_length [OF this(1) _ _ this(2), of 32] obtain d where
    "getDataBig (c_Input (f_contract fr)) x 32 = Ret d" "length d = 32"
    by auto
  ultimately show "yields (opCallDataLoad X rn fr) (exec_good X (gas_of fr) 1 1 fr)"
    using ok by (simp add: opCallDataLoad_def stack_op_def exec_stackI w256_SetBytes)
qed

lemma opBlockhash_safe [op_safety]: "exec_safe X rn None False 1 1 opBlockhash"
proof (rule exec_safeI)
  fix fr
  assume ok: "frame_ok X fr" "1 \<le> length (f_stack fr)" "list_all w256 (f_stack fr)"
  then obtain x st where "f_stack fr = x # st"
    using stack_shape(1) by blast
  with ok show "yields (opBlockhash X rn fr) (exec_good X (gas_of fr) 1 1 fr)"
    by (simp add: opBlockhash_def stack_op_def exec_stackI Let_def Hash_Big_eq)
qed

section \<open>Memory\<close>

lemma calcMemSize_covers:
  "0 \<le> off \<Longrightarrow> 0 \<le> sz \<Longrightarrow> calcMemSize off sz \<le> int (length (store m)) \<Longrightarrow> covers m off sz"
  by (simp add: calcMemSize_def covers_def split: if_splits)

lemma covers_63: "covers m off sz \<Longrightarrow> mem_ok m \<Longrightarrow> sz < 2 ^ 63"
  using covers_size [of m off sz] by (simp add: mem_limit_def)

lemma length_covered:
  assumes "covers m off sz" "mem_ok m"
  shows "length (take (nat sz) (drop (nat off) (store m))) \<le> size_limit"
proof -
  have "nat sz \<le> mem_limit"
    using covers_size [OF assms] by (simp add: nat_le_iff)
  then show ?thesis
    using mem_limit_size by simp
qed

text \<open>The stack with the region the memory function asks for in place.\<close>

lemma memory_regions:
  "memorySha3 (a # b # st) = Ret (calcMemSize a b)"
  "memoryCallDataCopy (a # b # c # st) = Ret (calcMemSize a c)"
  "memoryCodeCopy (a # b # c # st) = Ret (calcMemSize a c)"
  "memoryReturnDataCopy (a # b # c # st) = Ret (calcMemSize a c)"
  "memoryReturn (a # b # st) = Ret (calcMemSize a b)"
  "memoryRevert (a # b # st) = Ret (calcMemSize a b)"
  "memoryLog (a # b # st) = Ret (calcMemSize a b)"
  by (simp_all add: memory_table_defs)

lemma two_fit:
  assumes "2 \<le> length (f_stack fr)" "mem_fits (Some f) fr" "list_all w256 (f_stack fr)"
    and "\<And>a b st. f (a # b # st) = Ret (calcMemSize a b)"
  obtains a b st where "f_stack fr = a # b # st" "covers (f_mem fr) a b" "w256 a" "w256 b" "list_all w256 st"
proof -
  obtain a b st where st: "f_stack fr = a # b # st"
    using assms(1) stack_shape(2) by blast
  then have "covers (f_mem fr) a b"
    using assms by (intro calcMemSize_covers) (auto simp: w256_def)
  with that st assms(3) show thesis by simp
qed

lemma three_fit:
  assumes "3 \<le> length (f_stack fr)" "mem_fits (Some f) fr" "list_all w256 (f_stack fr)"
    and "\<And>a b c st. f (a # b # c # st) = Ret (calcMemSize a c)"
  obtains a b c st where "f_stack fr = a # b # c # st" "covers (f_mem fr) a c" "w256 b" "list_all w256 st"
proof -
  obtain a b c st where st: "f_stack fr = a # b # c # st"
    using assms(1) stack_shape(3) by blast
  then have "covers (f_mem fr) a c"
    using assms by (intro calcMemSize_covers) (auto simp: w256_def)
  with that st assms(3) show thesis by simp
qed

lemma opSha3_safe [op_safety]: "exec_safe X rn (Some memorySha3) False 2 1 opSha3"
proof (rule exec_safeI)
  fix fr
  assume ok: "frame_ok X fr" "2 \<le> length (f_stack fr)" "mem_fits (Some memorySha3) fr" "list_all w256 (f_stack fr)"
  obtain a b st where st: "f_stack fr = a # b # st" "covers (f_mem fr) a b" "w256 a" "w256 b"
    "list_all w256 st"
    by (rule two_fit [OF ok(2-4) memory_regions(1)])
  let ?d = "take (nat b) (drop (nat a) (store (f_mem fr)))"
  have "srel X (static (f_evm fr)) (sdb (f_evm fr))
      (if EnablePreimageRecording (vmConfig (f_evm fr)) then AddPreimage (Keccak256 X ?d) ?d (sdb (f_evm fr))
       else sdb (f_evm fr))"
    using AddPreimage_srel srel_refl frame_okD(5) [OF ok(1)] by auto
  then show "yields (opSha3 X rn fr) (exec_good X (gas_of fr) 2 1 fr)"
    using st ok(1) mem_Get_covers [OF st(2) frame_okD(4) [OF ok(1)]]
    by (simp add: opSha3_def stack_op_def Let_def exec_sdbI SetBytes_Hash_Bytes)
qed

lemma copy_to_memory_safe:
  assumes "frame_ok X fr" "covers (f_mem fr) off sz" "0 \<le> start" "length data \<le> size_limit"
    and "list_all w256 st" "length st + pops \<le> length (f_stack fr) + pushes" "quiet X (sdb (f_evm fr)) s"
  shows "yields (copy_to_memory data off start sz (set_sdb s fr) st) (exec_good X (gas_of fr) pops pushes fr)"
proof -
  have m: "mem_ok (f_mem fr)"
    using assms(1) by (simp add: frame_ok_def)
  then have "0 \<le> sz" "sz < 2 ^ 63"
    using assms(2) covers_63 covers_size by blast+
  from getDataBig_length [OF assms(3) this assms(4)] obtain d where
    d: "getDataBig data start sz = Ret d"
    by blast
  obtain m' where m': "mem_Set (big_Uint64 off) (big_Uint64 sz) d (f_mem fr) = Ret m'" "mem_ok m'"
    using mem_Set_covers [OF assms(2) m] mem_ok_same [OF m] by metis
  show ?thesis
    using d m' exec_goodI [OF assms(1) srel_quiet [OF frame_okD(5) [OF assms(1)] assms(7)] m'(2) assms(5,6)]
    by (simp add: copy_to_memory_def stack_op_def set_sdb_def)
qed

lemma set_sdb_same: "set_sdb (sdb (f_evm fr)) fr = fr"
  by (simp add: set_sdb_def)

lemma opCallDataCopy_safe [op_safety]: "exec_safe X rn (Some memoryCallDataCopy) False 3 0 opCallDataCopy"
proof (rule exec_safeI)
  fix fr
  assume ok: "frame_ok X fr" "3 \<le> length (f_stack fr)" "mem_fits (Some memoryCallDataCopy) fr" "list_all w256 (f_stack fr)"
  obtain a b c st where st: "f_stack fr = a # b # c # st"
    "covers (f_mem fr) a c" "w256 b" "list_all w256 st"
    by (rule three_fit [OF ok(2-4) memory_regions(2)])
  then show "yields (opCallDataCopy X rn fr) (exec_good X (gas_of fr) 3 0 fr)"
    using copy_to_memory_safe [OF ok(1) st(2) _ _ st(4) _ quiet_refl [OF frame_okD(6) [OF ok(1)]]] ok(1)
    by (simp add: opCallDataCopy_def set_sdb_same w256_def frame_ok_def contract_ok_def)
qed

lemma opCodeCopy_safe [op_safety]: "exec_safe X rn (Some memoryCodeCopy) False 3 0 opCodeCopy"
proof (rule exec_safeI)
  fix fr
  assume ok: "frame_ok X fr" "3 \<le> length (f_stack fr)" "mem_fits (Some memoryCodeCopy) fr" "list_all w256 (f_stack fr)"
  obtain a b c st where st: "f_stack fr = a # b # c # st"
    "covers (f_mem fr) a c" "w256 b" "list_all w256 st"
    by (rule three_fit [OF ok(2-4) memory_regions(3)])
  then show "yields (opCodeCopy X rn fr) (exec_good X (gas_of fr) 3 0 fr)"
    using copy_to_memory_safe [OF ok(1) st(2) _ _ st(4) _ quiet_refl [OF frame_okD(6) [OF ok(1)]]] ok(1)
    by (simp add: opCodeCopy_def set_sdb_same w256_def frame_ok_def contract_ok_def)
qed

lemma opExtCodeCopy_safe [op_safety]: "exec_safe X rn (Some memoryExtCodeCopy) False 4 0 opExtCodeCopy"
proof (rule exec_safeI)
  fix fr
  assume ok: "frame_ok X fr" "4 \<le> length (f_stack fr)" "mem_fits (Some memoryExtCodeCopy) fr" "list_all w256 (f_stack fr)"
  then obtain x a b c st where st: "f_stack fr = x # a # b # c # st"
    using stack_shape(4) by blast
  then have c: "covers (f_mem fr) a c" "0 \<le> b" "list_all w256 st"
    using ok(3,4) by (auto simp: memoryExtCodeCopy_def w256_def intro!: calcMemSize_covers)
  obtain s code where g: "GetCode X (BigToAddress x) (sdb (f_evm fr)) = (s, code)" by fastforce
  then have q: "quiet X (sdb (f_evm fr)) s" "length code \<le> size_limit"
    using GetCode_spec [OF frame_okD(6) [OF ok(1)], of "BigToAddress x"]
      vcode_codehash(1) [OF frame_okD(5) [OF ok(1)]] by auto
  show "yields (opExtCodeCopy X rn fr) (exec_good X (gas_of fr) 4 0 fr)"
    using copy_to_memory_safe [OF ok(1) c(1,2) q(2) c(3) _ q(1), of 4 0] st g
    by (simp add: opExtCodeCopy_def)
qed

lemma opReturnDataCopy_safe [op_safety]: "exec_safe X rn (Some memoryReturnDataCopy) False 3 0 opReturnDataCopy"
proof (rule exec_safeI)
  fix fr
  assume ok: "frame_ok X fr" "3 \<le> length (f_stack fr)" "mem_fits (Some memoryReturnDataCopy) fr" "list_all w256 (f_stack fr)"
  obtain a b c st where st: "f_stack fr = a # b # c # st"
    "covers (f_mem fr) a c" "w256 b" "list_all w256 st"
    by (rule three_fit [OF ok(2-4) memory_regions(4)])
  let ?rd = "returnData (f_evm fr)"
  show "yields (opReturnDataCopy X rn fr) (exec_good X (gas_of fr) 3 0 fr)"
  proof (cases "BitLen (b + c) > 64 \<or> int (length ?rd) < uint (big_Uint64 (b + c))")
    case True
    then show ?thesis
      using st ok by (simp add: opReturnDataCopy_def Let_def exec_stackI)
  next
    case False
    have "0 \<le> b" "0 \<le> c"
      using st by (simp_all add: w256_def covers_def)
    moreover from this False have "b + c < 2 ^ 64"
      by (simp add: BitLen_le not_less)
    ultimately have u: "uint (big_Uint64 b) = b" "uint (big_Uint64 (b + c)) = b + c"
      by (simp_all add: big_Uint64_small)
    obtain d where "go_slice ?rd b (b + c) = Ret d"
      using False u \<open>0 \<le> b\<close> \<open>0 \<le> c\<close> by (simp add: go_slice_def)
    moreover obtain m' where "mem_Set (big_Uint64 a) (big_Uint64 c) d (f_mem fr) = Ret m'" "mem_ok m'"
      using mem_Set_covers [OF st(2) frame_okD(4) [OF ok(1)]] mem_ok_same [OF frame_okD(4) [OF ok(1)]] by metis
    ultimately show ?thesis
      using False st ok u by (simp add: opReturnDataCopy_def Let_def stack_op_def exec_memI)
  qed
qed

lemma opMload_safe [op_safety]: "exec_safe X rn (Some memoryMLoad) False 1 1 opMload"
proof (rule exec_safeI)
  fix fr
  assume ok: "frame_ok X fr" "1 \<le> length (f_stack fr)" "mem_fits (Some memoryMLoad) fr" "list_all w256 (f_stack fr)"
  then obtain a st where st: "f_stack fr = a # st"
    using stack_shape(1) by blast
  then have "covers (f_mem fr) a 32"
    using ok(3,4) by (auto simp: memoryMLoad_def w256_def intro!: calcMemSize_covers)
  from mem_Get_covers [OF this frame_okD(4) [OF ok(1)]]
  show "yields (opMload X rn fr) (exec_good X (gas_of fr) 1 1 fr)"
    using ok st by (simp add: opMload_def stack_op_def exec_stackI w256_SetBytes big_Int64_small)
qed

lemma opMstore_safe [op_safety]: "exec_safe X rn (Some memoryMStore) False 2 0 opMstore"
proof (rule exec_safeI)
  fix fr
  assume ok: "frame_ok X fr" "2 \<le> length (f_stack fr)" "mem_fits (Some memoryMStore) fr" "list_all w256 (f_stack fr)"
  then obtain a v st where st: "f_stack fr = a # v # st"
    using stack_shape(2) by blast
  then have "covers (f_mem fr) a 32"
    using ok(3,4) by (auto simp: memoryMStore_def w256_def intro!: calcMemSize_covers)
  from mem_Set32_covers [OF this frame_okD(4) [OF ok(1)], of v] obtain m where
    "mem_Set32 (big_Uint64 a) v (f_mem fr) = Ret m" "mem_ok m"
    using mem_ok_same [OF frame_okD(4) [OF ok(1)]] by metis
  then show "yields (opMstore X rn fr) (exec_good X (gas_of fr) 2 0 fr)"
    using ok st by (simp add: opMstore_def stack_op_def exec_memI)
qed

lemma opMstore8_safe [op_safety]: "exec_safe X rn (Some memoryMStore8) False 2 0 opMstore8"
proof (rule exec_safeI)
  fix fr
  assume ok: "frame_ok X fr" "2 \<le> length (f_stack fr)" "mem_fits (Some memoryMStore8) fr" "list_all w256 (f_stack fr)"
  then obtain a v st where st: "f_stack fr = a # v # st"
    using stack_shape(2) by blast
  then have c: "covers (f_mem fr) a 1"
    using ok(3,4) by (auto simp: memoryMStore8_def w256_def intro!: calcMemSize_covers)
  note r = covers_range [OF c frame_okD(4) [OF ok(1)]]
  then have "big_Int64 a = a"
    by (simp add: big_Int64_small)
  moreover have "mem_ok (f_mem fr\<lparr>store := (store (f_mem fr))[i := x]\<rparr>)" for i x
    using frame_okD(4) [OF ok(1)] by (simp add: mem_ok_def)
  ultimately show "yields (opMstore8 X rn fr) (exec_good X (gas_of fr) 2 0 fr)"
    using ok st r by (simp add: opMstore8_def stack_op_def exec_memI Let_def)
qed

section \<open>Storage, logs and self-destruction\<close>

lemma opSstore_safe [op_safety]: "exec_safe X rn None True 2 0 opSstore"
proof (rule exec_safeI)
  fix fr
  assume ok: "frame_ok X fr" "2 \<le> length (f_stack fr)" "list_all w256 (f_stack fr)"
    and "True \<Longrightarrow> \<not> static (f_evm fr)"
  then obtain a v st where "f_stack fr = a # v # st" "static (f_evm fr) = False"
    using stack_shape(2) by blast
  then show "yields (opSstore X rn fr) (exec_good X (gas_of fr) 2 0 fr)"
    using ok SetState_srel [OF frame_okD(5) [OF ok(1)]]
    by (simp add: opSstore_def stack_op_def exec_sdbI)
qed

lemma opSuicide_safe [op_safety]: "exec_safe X rn None True 1 0 opSuicide"
proof (rule exec_safeI)
  fix fr
  assume ok: "frame_ok X fr" "1 \<le> length (f_stack fr)" "list_all w256 (f_stack fr)"
    and "True \<Longrightarrow> \<not> static (f_evm fr)"
  then obtain a st where st: "f_stack fr = a # st" "static (f_evm fr) = False"
    using stack_shape(1) by blast
  obtain s1 b where b: "GetBalance X (self_addr (f_contract fr)) (sdb (f_evm fr)) = (s1, b)" by fastforce
  obtain s3 d where d: "Suicide X (self_addr (f_contract fr)) (AddBalance X (BigToAddress a) b s1) = (s3, d)"
    by fastforce
  show "yields (opSuicide X rn fr) (exec_good X (gas_of fr) 1 0 fr)"
    using ok st b d Suicide_srel [OF frame_okD(5) [OF ok(1)] b d]
    by (simp add: opSuicide_def stack_op_def exec_sdbI)
qed

lemma makeLog_safe [op_safety]: "exec_safe X rn (Some memoryLog) True (n + 2) 0 (makeLog n)"
proof (rule exec_safeI)
  fix fr
  assume ok: "frame_ok X fr" "n + 2 \<le> length (f_stack fr)" "mem_fits (Some memoryLog) fr" "list_all w256 (f_stack fr)"
    and w: "True \<Longrightarrow> \<not> static (f_evm fr)"
  have "2 \<le> length (f_stack fr)"
    using ok(2) by simp
  then obtain a b st where st: "f_stack fr = a # b # st" "covers (f_mem fr) a b" "w256 a" "w256 b" "list_all w256 st"
    by (rule two_fit [OF _ ok(3,4) memory_regions(7)])
  moreover have "list_all w256 (drop n st)" "\<not> length st < n"
    using st ok(2) by (auto simp: list_all_iff dest: in_set_dropD)
  ultimately show "yields (makeLog n X rn fr) (exec_good X (gas_of fr) (n + 2) 0 fr)"
    using ok w AddLog_srel [OF frame_okD(5) [OF ok(1)]] mem_Get_covers [OF st(2) frame_okD(4) [OF ok(1)]]
    by (simp add: makeLog_def stack_op_def exec_sdbI Let_def)
qed

section \<open>Control\<close>

lemma exec_sameI:
  assumes "frame_ok X fr" "pops \<le> pushes"
  shows "exec_good X (gas_of fr) pops pushes fr ([], err, fr)"
  using exec_stackI [OF assms(1) frame_okD(3) [OF assms(1)], of pops pushes err] assms(2) by simp

lemma quiet_ops_safe [op_safety]:
  "exec_safe X rn None False 0 0 opJumpdest" "exec_safe X rn None False 0 0 opStop"
  by (rule exec_safeI; simp add: opJumpdest_def opStop_def exec_sameI)+

lemma opPop_safe [op_safety]: "exec_safe X rn None False 1 0 opPop"
proof (rule exec_safeI)
  fix fr
  assume ok: "frame_ok X fr" "1 \<le> length (f_stack fr)" "list_all w256 (f_stack fr)"
  then obtain a st where "f_stack fr = a # st"
    using stack_shape(1) by blast
  with ok show "yields (opPop X rn fr) (exec_good X (gas_of fr) 1 0 fr)"
    by (simp add: opPop_def stack_op_def exec_stackI)
qed

text \<open>The output of a frame.\<close>

lemma exec_outputI:
  assumes "exec_good X G pops pushes fr ([], err, fr')" "length d \<le> size_limit"
  shows "exec_good X G pops pushes fr (d, err, fr')"
  using assms by (simp add: exec_good_def)

lemma output_safe [op_safety]:
  "exec_safe X rn (Some memoryReturn) False 2 0 opReturn"
  "exec_safe X rn (Some memoryRevert) False 2 0 opRevert"
proof -
  have out: "yields (go_bind (mem_GetPtr (big_Int64 a) (big_Int64 b) (f_mem fr)) (\<lambda>ret. Ret (ret, None, fr\<lparr>f_stack := st\<rparr>)))
      (exec_good X (gas_of fr) 2 0 fr)"
    if "frame_ok X fr" "f_stack fr = a # b # st" "covers (f_mem fr) a b" "list_all w256 st" for fr a b st
    using that mem_Get_covers [OF that(3) frame_okD(4)] length_covered [OF that(3) frame_okD(4)]
    by (simp add: mem_GetPtr_eq exec_outputI [OF exec_stackI])
  show "exec_safe X rn (Some memoryReturn) False 2 0 opReturn"
  proof (rule exec_safeI)
    fix fr
    assume ok: "frame_ok X fr" "2 \<le> length (f_stack fr)" "mem_fits (Some memoryReturn) fr" "list_all w256 (f_stack fr)"
    obtain a b st where "f_stack fr = a # b # st" "covers (f_mem fr) a b" "w256 a" "w256 b" "list_all w256 st"
      by (rule two_fit [OF ok(2-4) memory_regions(5)])
    with out ok(1) show "yields (opReturn X rn fr) (exec_good X (gas_of fr) 2 0 fr)"
      by (simp add: opReturn_def)
  qed
  show "exec_safe X rn (Some memoryRevert) False 2 0 opRevert"
  proof (rule exec_safeI)
    fix fr
    assume ok: "frame_ok X fr" "2 \<le> length (f_stack fr)" "mem_fits (Some memoryRevert) fr" "list_all w256 (f_stack fr)"
    obtain a b st where "f_stack fr = a # b # st" "covers (f_mem fr) a b" "w256 a" "w256 b" "list_all w256 st"
      by (rule two_fit [OF ok(2-4) memory_regions(6)])
    with out ok(1) show "yields (opRevert X rn fr) (exec_good X (gas_of fr) 2 0 fr)"
      by (simp add: opRevert_def)
  qed
qed

section \<open>Push, dup and swap\<close>

lemma min_if: "(if a < b then a else b) = min a (b :: int)"
  by (simp add: min_def)

lemma makePush_safe [op_safety]:
  assumes "n \<le> 32"
  shows "exec_safe X rn None False 0 1 (makePush (of_nat n) n)"
proof (rule exec_safeI)
  fix fr
  assume ok: "frame_ok X fr" "list_all w256 (f_stack fr)"
  let ?code = "c_Code (f_contract fr)"
  have len: "length ?code \<le> 2 ^ 40" "unat (f_pc fr) \<le> length ?code + 32"
    using ok(1) by (simp_all add: frame_ok_def contract_ok_def size_limit_def)
  have pc: "unat (f_pc fr + of_nat n) = unat (f_pc fr) + n"
    using len assms by (subst unat_add_no_wrap) (simp_all add: unat_of_nat_u64)
  have pc1: "unat (f_pc fr + 1) = unat (f_pc fr) + 1"
    using len by (subst unat_add_no_wrap) simp_all
  have "unat (f_pc fr + 1) < 2 ^ 63"
    unfolding pc1 using len by simp
  then have "sint (f_pc fr + 1) = int (unat (f_pc fr + 1))"
    by (simp add: sint_u64)
  then have start: "sint (f_pc fr + 1) = int (unat (f_pc fr) + 1)"
    unfolding pc1 .
  define lo hi where "lo = min (int (unat (f_pc fr) + 1)) (int (length ?code))"
    and "hi = min (lo + int n) (int (length ?code))"
  have r: "0 \<le> lo" "lo \<le> hi" "hi \<le> int (length ?code)" "hi - lo \<le> int n"
    by (auto simp: lo_def hi_def)
  obtain d where d: "go_slice ?code lo hi = Ret d" "length d \<le> n"
    using r by (auto simp: go_slice_def)
  then have w: "w256 (SetBytes (RightPadBytes d (int n)))"
    using assms by (intro w256_SetBytes) (simp add: length_RightPadBytes)
  have "makePush (of_nat n) n X rn fr = Ret ([], None, fr\<lparr>f_stack := SetBytes (RightPadBytes d (int n)) # f_stack fr,
      f_pc := f_pc fr + of_nat n\<rparr>)"
    using d(1) unfolding makePush_def Let_def start min_if lo_def [symmetric] hi_def [symmetric]
    by simp
  then show "yields (makePush (of_nat n) n X rn fr) (exec_good X (gas_of fr) 0 1 fr)"
    using exec_stackI [OF ok(1), of "SetBytes (RightPadBytes d (int n)) # f_stack fr" 0 1 None] w ok(2) pc assms
    by (simp add: exec_good_def)
qed

lemma makeDup_safe [op_safety]:
  assumes "0 < n"
  shows "exec_safe X rn None False n (n + 1) (makeDup n)"
proof (rule exec_safeI)
  fix fr
  assume ok: "frame_ok X fr" "n \<le> length (f_stack fr)" "list_all w256 (f_stack fr)"
  then have "w256 (f_stack fr ! (n - 1))"
    using assms by (simp add: list_all_length)
  with ok assms show "yields (makeDup n X rn fr) (exec_good X (gas_of fr) n (n + 1) fr)"
    by (simp add: makeDup_def stack_dup_def stack_op_def exec_stackI)
qed

lemma makeSwap_safe [op_safety]: "exec_safe X rn None False (n + 1) (n + 1) (makeSwap n)"
proof (rule exec_safeI)
  fix fr
  assume ok: "frame_ok X fr" "n + 1 \<le> length (f_stack fr)" "list_all w256 (f_stack fr)"
  moreover from ok(2) have "f_stack fr \<noteq> []"
    by auto
  ultimately have "list_all w256 ((f_stack fr)[n := f_stack fr ! 0, 0 := f_stack fr ! n])"
    by (simp add: list_all_length nth_list_update)
  with ok show "yields (makeSwap n X rn fr) (exec_good X (gas_of fr) (n + 1) (n + 1) fr)"
    by (simp add: makeSwap_def stack_swap_def stack_op_def exec_stackI)
qed

section \<open>Jumps\<close>

lemma bitmap_probe:
  "bitmap_ok code a \<Longrightarrow> p < length code \<Longrightarrow> \<exists>b. codeSegment p a = Ret b"
  using codeSegment_Ret [of a code p] by (simp add: bitmap_ok_def)

lemma codeBitmap_ok: "\<exists>a. codeBitmap code = Ret a \<and> bitmap_ok code a"
  using codeBitmap_decides [of code] by (auto simp: decided_def bitmap_ok_def)

lemma jumps_ok_upd:
  "jumps_ok X evm \<Longrightarrow> length code \<le> size_limit \<Longrightarrow> bitmap_ok code a
   \<Longrightarrow> jumps_ok X (evm\<lparr>jumpdests := (jumpdests evm)(Keccak256 X code \<mapsto> a)\<rparr>)"
  by (auto simp: jumps_ok_def)

lemma evm_jumpdests:
  assumes "evm_ok X evm" "jumps_ok X (evm\<lparr>jumpdests := j\<rparr>)"
  shows "evm_ok X (evm\<lparr>jumpdests := j\<rparr>)" "evm_rel X ro evm (evm\<lparr>jumpdests := j\<rparr>)"
  using assms evm_ok_change [OF assms(1), of "evm\<lparr>jumpdests := j\<rparr>"]
  by (simp_all add: same_setting_def evm_rel_def evm_ok_def srel_refl)

definition jump_good ::
  "crypto \<Rightarrow> bool \<Rightarrow> int \<Rightarrow> Contract \<Rightarrow> EVM \<Rightarrow> bool \<times> Contract \<times> EVM \<Rightarrow> bool" where
  "jump_good X ro dest c evm r \<longleftrightarrow>
     (case r of (b, c', evm') \<Rightarrow> evm_ok X evm' \<and> evm_rel X ro evm evm' \<and> contract_ok X c'
        \<and> contract_rel c c' \<and> c_Gas c' = c_Gas c \<and> (b \<longrightarrow> unat (big_Uint64 dest) < length (c_Code c)))"

lemma validJumpdest_safe:
  assumes X: "crypto_ok X" and ok: "evm_ok X evm" "contract_ok X c"
  shows "yields (validJumpdest dest c evm) (jump_good X ro dest c evm)"
proof (cases "BitLen dest \<ge> 63 \<or> unat (big_Uint64 dest) \<ge> length (c_Code c)
    \<or> c_Code c ! unat (big_Uint64 dest) \<noteq> JUMPDEST")
  case True
  then show ?thesis
    using ok evm_rel_refl by (auto simp: validJumpdest_def Let_def jump_good_def)
next
  case False
  let ?p = "unat (big_Uint64 dest)" and ?code = "c_Code c" and ?h = "c_CodeHash c"
  have p: "?p < length ?code" and len: "length ?code \<le> size_limit"
    using False ok by (simp_all add: contract_ok_def)
  note rel = evm_rel_refl [OF ok(1)]
  obtain a where a: "codeBitmap ?code = Ret a" "bitmap_ok ?code a"
    using codeBitmap_ok by blast
  obtain b where b: "codeSegment ?p a = Ret b"
    using bitmap_probe [OF a(2) p] by blast
  show ?thesis
  proof (cases "?h = 0")
    case True
    have "contract_ok X (c\<lparr>c_analysis := Some a\<rparr>)" "contract_rel c (c\<lparr>c_analysis := Some a\<rparr>)"
      using ok(2) a(2) by (simp_all add: contract_ok_def contract_rel_def)
    moreover have "\<exists>b. codeSegment ?p a' = Ret b" if "c_analysis c = Some a'" for a'
      using bitmap_probe [OF _ p] ok(2) that by (simp add: contract_ok_def)
    ultimately show ?thesis
      using True False a b ok rel
      by (cases "c_analysis c") (auto simp: validJumpdest_def Let_def jump_good_def)
  next
    case hash: False
    then have h: "?h = Keccak256 X ?code"
      using ok(2) by (simp add: contract_ok_def)
    show ?thesis
    proof (cases "jumpdests evm ?h")
      case None
      have "jumps_ok X (evm\<lparr>jumpdests := (jumpdests evm)(?h \<mapsto> a)\<rparr>)"
        unfolding h using ok(1) by (intro jumps_ok_upd len a) (simp add: evm_ok_def)
      from evm_jumpdests [OF ok(1) this] show ?thesis
        using None hash False a b ok by (simp add: validJumpdest_def Let_def jump_good_def)
    next
      case (Some a')
      with ok(1) obtain code where "Keccak256 X code = ?h" "length code \<le> size_limit" "bitmap_ok code a'"
        unfolding evm_ok_def jumps_ok_def by blast
      with X len have "bitmap_ok ?code a'"
        unfolding crypto_ok_def bitmap_ok_def h by metis
      then obtain b' where "codeSegment ?p a' = Ret b'"
        using bitmap_probe p by blast
      then show ?thesis
        using Some hash False ok rel by (simp add: validJumpdest_def Let_def jump_good_def)
    qed
  qed
qed

lemma jump_to_safe:
  assumes "crypto_ok X" "frame_ok X fr" "list_all w256 st" "length st + pops \<le> length (f_stack fr) + pushes"
  shows "yields (jump_to pos (fr\<lparr>f_stack := st\<rparr>)) (exec_good X (gas_of fr) pops pushes fr)"
proof -
  from validJumpdest_safe [OF assms(1) frame_okD(1,2) [OF assms(2)], of pos "static (f_evm fr)"]
  obtain b c evm where v: "validJumpdest pos (f_contract fr) (f_evm fr) = Ret (b, c, evm)"
    "jump_good X (static (f_evm fr)) pos (f_contract fr) (f_evm fr) (b, c, evm)"
    by (auto elim!: yieldsE)
  then show ?thesis
    using assms by (simp add: jump_to_def Let_def exec_good_def jump_good_def frame_ok_def size_limit_def)
qed

lemma jumps_safe [op_safety]:
  assumes "crypto_ok X"
  shows "exec_safe X rn None False 1 0 opJump" "exec_safe X rn None False 2 0 opJumpi"
proof -
  show "exec_safe X rn None False 1 0 opJump"
  proof (rule exec_safeI)
    fix fr
    assume ok: "frame_ok X fr" "1 \<le> length (f_stack fr)" "list_all w256 (f_stack fr)"
    then obtain a st where "f_stack fr = a # st"
      using stack_shape(1) by blast
    with ok show "yields (opJump X rn fr) (exec_good X (gas_of fr) 1 0 fr)"
      using jump_to_safe [OF assms ok(1)] by (simp add: opJump_def)
  qed
  show "exec_safe X rn None False 2 0 opJumpi"
  proof (rule exec_safeI)
    fix fr
    assume ok: "frame_ok X fr" "2 \<le> length (f_stack fr)" "list_all w256 (f_stack fr)"
    then obtain a b st where st: "f_stack fr = a # b # st"
      using stack_shape(2) by blast
    have "length (c_Code (f_contract fr)) \<le> 2 ^ 40" "unat (f_pc fr) \<le> length (c_Code (f_contract fr)) + 32"
      using ok(1) by (simp_all add: frame_ok_def contract_ok_def size_limit_def)
    then have "unat (f_pc fr + 1) = unat (f_pc fr) + 1"
      by (subst unat_add_no_wrap) simp_all
    then show "yields (opJumpi X rn fr) (exec_good X (gas_of fr) 2 0 fr)"
      using jump_to_safe [OF assms ok(1)] ok st exec_stackI [OF ok(1), of st 2 0 None]
      by (simp add: opJumpi_def exec_good_def)
  qed
qed

end
