(* ===== verification/GasSafety.thy ===== *)
theory GasSafety
  imports OpSafety
begin

text \<open>
  The prices: every gas function returns, costs at least what an instruction must cost for the loop
  to end, and never lets memory grow beyond its limit. From the safety of price and execution
  follows that of a whole round of the interpreter loop.
\<close>

section \<open>What a gas function guarantees\<close>

definition gas_good :: "crypto \<Rightarrow> frame \<Rightarrow> u64 \<Rightarrow> nat \<Rightarrow> (vm_error + u64) \<times> frame \<Rightarrow> bool" where
  "gas_good X fr ms lo r \<longleftrightarrow>
     (case r of (price, fr1) \<Rightarrow>
        f_pc fr1 = f_pc fr \<and> f_contract fr1 = f_contract fr \<and> f_stack fr1 = f_stack fr
        \<and> store (f_mem fr1) = store (f_mem fr)
        \<and> evm_ok X (f_evm fr1) \<and> evm_rel X (static (f_evm fr)) (f_evm fr) (f_evm fr1)
        \<and> (\<forall>cost. price = Inr cost \<longrightarrow> lo \<le> unat cost \<and> unat ms \<le> mem_limit))"

text \<open>A gas function is safe in a frame of the instruction set \<open>is\<close> with enough items; one that does
  not charge for memory (\<open>\<not> m\<close>) is called with size 0, one that writes not in static mode.\<close>

definition gas_safe ::
  "crypto \<Rightarrow> instruction_set \<Rightarrow> bool \<Rightarrow> bool \<Rightarrow> nat \<Rightarrow> nat \<Rightarrow> gas_func \<Rightarrow> bool" where
  "gas_safe X is m w pops lo gf \<longleftrightarrow>
     (\<forall>fr ms. frame_ok X fr \<longrightarrow> in_instructions (f_evm fr) = is \<longrightarrow> pops \<le> length (f_stack fr)
        \<longrightarrow> (m \<or> ms = 0) \<longrightarrow> (w \<longrightarrow> \<not> static (f_evm fr))
        \<longrightarrow> yields (gf X (in_gasTable (f_evm fr)) ms fr) (gas_good X fr ms lo))"

named_theorems gas_safety \<open>safety of the gas functions\<close>

lemma gas_same:
  assumes "frame_ok X fr" "\<And>cost. price = Inr cost \<Longrightarrow> lo \<le> unat cost" "ms = 0"
  shows "gas_good X fr ms lo (price, fr)"
  using assms evm_rel_refl [OF frame_okD(1) [OF assms(1)]] frame_okD(1) [OF assms(1)]
  by (simp add: gas_good_def)

lemma gas_const:
  assumes "\<And>fr. frame_ok X fr \<Longrightarrow> in_instructions (f_evm fr) = is \<Longrightarrow> lo \<le> unat (g (in_gasTable (f_evm fr)))"
    and "\<And>gt ms fr. gf X gt ms fr = Ret (Inr (g gt), fr)"
  shows "gas_safe X is False w pops lo gf"
  unfolding gas_safe_def
proof (intro allI impI)
  fix fr :: frame and ms :: u64
  assume "frame_ok X fr" "in_instructions (f_evm fr) = is" "False \<or> ms = 0"
  then show "yields (gf X (in_gasTable (f_evm fr)) ms fr) (gas_good X fr ms lo)"
    using gas_same [of X fr "Inr (g (in_gasTable (f_evm fr)))" lo ms] assms by simp
qed

lemma constGasFunc_safe: "lo \<le> unat g \<Longrightarrow> gas_safe X is False w pops lo (constGasFunc g)"
  by (rule gas_const) (simp_all add: constGasFunc_def)

section \<open>Gas tables\<close>

lemmas gas_tables = GasTableHomestead_def GasTableEIP150_def GasTableEIP158_def GasTableConstantinople_def

lemma gas_table_pos:
  assumes "evm_ok X evm"
  shows "20 \<le> unat (gt_ExtcodeSize (in_gasTable evm))" "20 \<le> unat (gt_ExtcodeCopy (in_gasTable evm))"
    "20 \<le> unat (gt_Balance (in_gasTable evm))" "50 \<le> unat (gt_SLoad (in_gasTable evm))"
    "40 \<le> unat (gt_Calls (in_gasTable evm))" "unat (gt_Calls (in_gasTable evm)) \<le> 700"
    "in_instructions evm = Constantinople \<Longrightarrow> 400 \<le> unat (gt_ExtcodeHash (in_gasTable evm))"
proof -
  let ?t = "GasTable_of (chainConfig evm) (block_num evm)"
  have t: "in_gasTable evm = ?t" and i: "in_instructions evm = instructions_of (chainConfig evm) (block_num evm)"
    using assms by (simp_all add: evm_ok_def settled_def)
  have "?t \<in> {GasTableHomestead, GasTableEIP150, GasTableEIP158, GasTableConstantinople}"
    by (simp add: GasTable_of_def split: option.splits)
  then show "20 \<le> unat (gt_ExtcodeSize (in_gasTable evm))" "20 \<le> unat (gt_ExtcodeCopy (in_gasTable evm))"
    "20 \<le> unat (gt_Balance (in_gasTable evm))" "50 \<le> unat (gt_SLoad (in_gasTable evm))"
    "40 \<le> unat (gt_Calls (in_gasTable evm))" "unat (gt_Calls (in_gasTable evm)) \<le> 700"
    unfolding t by (auto simp: gas_tables)
  show "400 \<le> unat (gt_ExtcodeHash (in_gasTable evm))" if "in_instructions evm = Constantinople"
    using that unfolding t i
    by (auto simp: instructions_of_def GasTable_of_def gas_tables split: if_splits option.splits)
qed

lemma table_gas_safe [gas_safety]:
  "gas_safe X is False w pops 20 gasExtCodeSize" "gas_safe X is False w pops 20 gasBalance"
  "gas_safe X is False w pops 50 gasSLoad" "gas_safe X Constantinople False w pops 400 gasExtCodeHash"
  "gas_safe X is False w pops 3 gasPush" "gas_safe X is False w pops 3 gasDup" "gas_safe X is False w pops 3 gasSwap"
  by (rule gas_const; simp add: gasExtCodeSize_def gasBalance_def gasSLoad_def gasExtCodeHash_def gasPush_def
      gasDup_def gasSwap_def gas_consts gas_table_pos [OF frame_okD(1)])+

section \<open>Overflow checks\<close>

lemma no_overflow_addE:
  assumes "no_overflow (SafeAdd a b) k = Inr c"
  obtains v where "unat v = unat a + unat b" "k v = Inr c"
  using assms SafeAdd_unat [of a b] that by (cases "SafeAdd a b") (auto simp: no_overflow_def split: if_splits)

lemma SafeAdd_sum: "SafeAdd a b = (c, False) \<Longrightarrow> unat c = unat a + unat b"
  using SafeAdd_unat [of a b] by simp

lemma no_overflowE:
  assumes "no_overflow p k = Inr c"
  obtains v where "k v = Inr c"
  using assms that by (cases p) (auto simp: no_overflow_def split: if_splits)

lemma add_price_base: "no_overflow (SafeAdd g base) Inr = Inr c \<Longrightarrow> unat base \<le> unat c"
  by (auto elim!: no_overflow_addE)

lemma copy_price_base: "copy_price base perWord len g = Inr c \<Longrightarrow> unat base \<le> unat c"
  unfolding copy_price_def by (elim no_overflow_addE no_overflowE) auto

section \<open>The memory fee\<close>

lemma memoryGasCost_store: "memoryGasCost m ms = (r, m') \<Longrightarrow> store m' = store m"
  by (auto simp: memoryGasCost_def Let_def split: if_splits)

lemma memoryGasCost_limit: "memoryGasCost m ms = (Inr g, m') \<Longrightarrow> unat ms \<le> mem_limit"
  by (auto simp: memoryGasCost_def mem_limit_def word_less_nat_alt split: if_splits)

lemma gas_memI:
  assumes "frame_ok X fr" "store m = store (f_mem fr)"
    and "\<And>cost. price = Inr cost \<Longrightarrow> lo \<le> unat cost \<and> unat ms \<le> mem_limit"
  shows "gas_good X fr ms lo (price, fr\<lparr>f_mem := m\<rparr>)"
  using assms evm_rel_refl [OF frame_okD(1) [OF assms(1)]] frame_okD(1) [OF assms(1)]
  by (simp add: gas_good_def)

lemma with_memory_good:
  assumes "frame_ok X fr" "\<And>g c. k g = Inr c \<Longrightarrow> lo \<le> unat c"
  shows "yields (with_memory ms fr k) (gas_good X fr ms lo)"
proof -
  obtain r m where m: "memoryGasCost (f_mem fr) ms = (r, m)" by fastforce
  then have "gas_good X fr ms lo (sum_bind r k, fr\<lparr>f_mem := m\<rparr>)"
    using assms memoryGasCost_store [OF m] memoryGasCost_limit [of "f_mem fr" ms _ m]
    by (intro gas_memI) (auto simp: sum_bind_def split: sum.splits)
  with m show ?thesis
    by (simp add: with_memory_def)
qed

text \<open>The functions that look at the stack before they charge for memory.\<close>

lemma gas_memory:
  assumes "\<And>fr. frame_ok X fr \<Longrightarrow> pops \<le> length (f_stack fr)
      \<Longrightarrow> \<exists>k. (\<forall>ms. gf X (in_gasTable (f_evm fr)) ms fr = with_memory ms fr k) \<and> (\<forall>g c. k g = Inr c \<longrightarrow> lo \<le> unat c)"
  shows "gas_safe X is True w pops lo gf"
  unfolding gas_safe_def
proof (intro allI impI)
  fix fr :: frame and ms :: u64
  assume ok: "frame_ok X fr" "pops \<le> length (f_stack fr)"
  from assms [OF this] obtain k where "gf X (in_gasTable (f_evm fr)) ms fr = with_memory ms fr k"
    "\<forall>g c. k g = Inr c \<longrightarrow> lo \<le> unat c"
    by blast
  with ok(1) show "yields (gf X (in_gasTable (f_evm fr)) ms fr) (gas_good X fr ms lo)"
    by (simp add: with_memory_good)
qed

lemma memory_price_safe [gas_safety]:
  "gas_safe X is True w pops 3 gasMLoad" "gas_safe X is True w pops 3 gasMStore"
  "gas_safe X is True w pops 3 gasMStore8" "gas_safe X is True w pops 32000 gasCreate"
  "gas_safe X is True w pops 0 gasReturn" "gas_safe X is True w pops 0 gasRevert"
  by (rule gas_memory; force simp: gasMLoad_def gasMStore_def gasMStore8_def gasCreate_def gasReturn_def
      gasRevert_def gas_consts params dest: add_price_base)+

lemma copy_gas_safe [gas_safety]:
  "gas_safe X is True w 3 3 gasCallDataCopy" "gas_safe X is True w 3 3 gasReturnDataCopy"
  "gas_safe X is True w 3 3 gasCodeCopy" "gas_safe X is True w 3 32000 gasCreate2"
  "gas_safe X is True w 2 30 gasSha3" "gas_safe X is True w 4 20 gasExtCodeCopy"
proof -
  have three: "\<exists>k. (\<forall>ms. with_memory ms fr (copy_price b p len) = with_memory ms fr k)
      \<and> (\<forall>g c. k g = Inr c \<longrightarrow> lo \<le> unat c)" if "lo \<le> unat b" for fr b p len lo
    using that copy_price_base order_trans by blast
  show "gas_safe X is True w 3 3 gasCallDataCopy" "gas_safe X is True w 3 3 gasReturnDataCopy"
    "gas_safe X is True w 3 3 gasCodeCopy" "gas_safe X is True w 3 32000 gasCreate2"
    by (rule gas_memory; drule stack_shape(3); clarsimp simp: gasCallDataCopy_def gasReturnDataCopy_def
        gasCodeCopy_def gasCreate2_def; rule three; simp add: gas_consts params)+
  show "gas_safe X is True w 2 30 gasSha3"
    by (rule gas_memory; drule stack_shape(2); clarsimp simp: gasSha3_def; rule three; simp add: params)
  show "gas_safe X is True w 4 20 gasExtCodeCopy"
    by (rule gas_memory; drule stack_shape(4); clarsimp simp: gasExtCodeCopy_def; rule three;
        simp add: gas_table_pos [OF frame_okD(1)])
qed

lemma makeGasLog_safe [gas_safety]: "gas_safe X is True w (n + 2) 375 (makeGasLog k)"
  unfolding gas_safe_def
proof (intro allI impI)
  fix fr :: frame and ms :: u64
  assume ok: "frame_ok X fr" "n + 2 \<le> length (f_stack fr)"
  then obtain a b st where st: "f_stack fr = a # b # st"
    using stack_shape(2) [of "f_stack fr"] by auto
  obtain sz overflow where b: "bigUint64 b = (sz, overflow)" by fastforce
  let ?k = "\<lambda>gas. no_overflow (SafeAdd gas LogGas) (\<lambda>gas1. no_overflow (SafeAdd gas1 (k * LogTopicGas)) (\<lambda>gas2.
    no_overflow (SafeMul sz LogDataGas) (\<lambda>dataGas. no_overflow (SafeAdd gas2 dataGas) Inr)))"
  have "375 \<le> unat c" if "?k g = Inr c" for g c
    using that by (elim no_overflow_addE no_overflowE) (simp add: params)
  then have "yields (with_memory ms fr ?k) (gas_good X fr ms 375)"
    using ok(1) by (intro with_memory_good) auto
  moreover have "gas_good X fr ms 375 (Inl errGasUintOverflow, fr)"
    using gas_memI [OF ok(1), of "f_mem fr" "Inl errGasUintOverflow"] by simp
  ultimately show "yields (makeGasLog k X (in_gasTable (f_evm fr)) ms fr) (gas_good X fr ms 375)"
    using st b by (simp add: makeGasLog_def)
qed

lemma gasExp_safe [gas_safety]: "gas_safe X is False w 2 10 gasExp"
  unfolding gas_safe_def
proof (intro allI impI)
  fix fr :: frame and ms :: u64
  assume ok: "frame_ok X fr" "2 \<le> length (f_stack fr)" "False \<or> ms = 0"
  then obtain a b st where st: "f_stack fr = a # b # st"
    using stack_shape(2) by blast
  let ?p = "no_overflow (SafeAdd (of_nat ((BitLen b + 7) div 8) * gt_ExpByte (in_gasTable (f_evm fr))) ExpGas) Inr"
  have "10 \<le> unat c" if "?p = Inr c" for c
    using add_price_base [OF that] by (simp add: params)
  then show "yields (gasExp X (in_gasTable (f_evm fr)) ms fr) (gas_good X fr ms 10)"
    using st gas_same [OF ok(1), of ?p 10 ms] ok(3) by (simp add: gasExp_def Let_def)
qed

section \<open>Prices that depend on the state\<close>

lemma gas_sdbI:
  assumes "frame_ok X fr" "srel X (static (f_evm fr)) (sdb (f_evm fr)) s" "ms = 0"
    and "lo \<le> unat cost"
  shows "gas_good X fr ms lo (Inr cost, fr\<lparr>f_evm := (f_evm fr)\<lparr>sdb := s\<rparr>\<rparr>)"
  using assms evm_ok_sdb [OF frame_okD(1) [OF assms(1)] assms(2)] evm_rel_sdb [OF assms(2)]
  by (simp add: gas_good_def)

lemma gasSStore_safe [gas_safety]: "gas_safe X is False True 2 5000 gasSStore"
  unfolding gas_safe_def
proof (intro allI impI)
  fix fr :: frame and ms :: u64
  assume ok: "frame_ok X fr" "2 \<le> length (f_stack fr)" "False \<or> ms = 0" "True \<longrightarrow> \<not> static (f_evm fr)"
  then obtain x y st where st: "f_stack fr = x # y # st"
    using stack_shape(2) by blast
  let ?s = "sdb (f_evm fr)"
  obtain s1 v where g: "GetState X (self_addr (f_contract fr)) (BigToHash x) ?s = (s1, v)" by fastforce
  then have q: "srel X ro ?s s1" for ro
    using GetState_spec [OF frame_okD(6) [OF ok(1)], of "self_addr (f_contract fr)" "BigToHash x"]
      srel_quiet [OF frame_okD(5) [OF ok(1)]] by simp
  have r: "srel X False ?s (AddRefund SstoreRefundGas s1)"
    using srel_trans [OF q AddRefund_srel [OF srel_ok [OF q]]] .
  have "rIsPetersburg (chainRules (f_evm fr)) \<or> \<not> rIsConstantinople (chainRules (f_evm fr))"
    using frame_okD(1) [OF ok(1)] unfolding evm_ok_def settled_def by blast
  then show "yields (gasSStore X (in_gasTable (f_evm fr)) ms fr) (gas_good X fr ms 5000)"
    using st g ok(4) gas_sdbI [OF ok(1) _, of _ ms 5000] ok(3) q r
    by (simp add: gasSStore_def Let_def params)
qed

lemma gasSuicide_safe [gas_safety]: "gas_safe X is False True 1 0 gasSuicide"
  unfolding gas_safe_def
proof (intro allI impI)
  fix fr :: frame and ms :: u64
  assume ok: "frame_ok X fr" "1 \<le> length (f_stack fr)" "False \<or> ms = 0" "True \<longrightarrow> \<not> static (f_evm fr)"
  then obtain a st where st: "f_stack fr = a # st"
    using stack_shape(1) by blast
  let ?s = "sdb (f_evm fr)" and ?a = "BigToAddress a" and ?self = "self_addr (f_contract fr)"
  note wf = frame_okD(6) [OF ok(1)]
  obtain s1 e where e: "Empty X ?a ?s = (s1, e)" "quiet X ?s s1"
    using Empty_spec [OF wf, of ?a] by (cases "Empty X ?a ?s") auto
  obtain s2 b where b: "GetBalance X ?self s1 = (s2, b)" "quiet X ?s s2"
    using GetBalance_spec [OF quiet_wf [OF e(2)], of ?self] quiet_trans [OF e(2)]
    by (cases "GetBalance X ?self s1") auto
  obtain s3 x where x: "Exist X ?a ?s = (s3, x)" "quiet X ?s s3"
    using Exist_spec [OF wf, of ?a] by (cases "Exist X ?a ?s") auto
  let ?fin = "\<lambda>s gas. case HasSuicided X ?self s of (s4, already) \<Rightarrow>
    Ret (Inr gas, fr\<lparr>f_evm := (f_evm fr)\<lparr>sdb := if already then s4 else AddRefund SuicideRefundGas s4\<rparr>\<rparr>)"
  have fin: "yields (?fin s gas) (gas_good X fr ms 0)" if q0: "quiet X ?s s" for s gas
  proof -
    obtain s4 already where h: "HasSuicided X ?self s = (s4, already)" "quiet X ?s s4"
      using HasSuicided_spec [OF quiet_wf [OF q0], of ?self] quiet_trans [OF q0]
      by (cases "HasSuicided X ?self s") auto
    have q: "srel X False ?s s4"
      using srel_quiet [OF frame_okD(5) [OF ok(1)] h(2)] .
    have "srel X False ?s (AddRefund SuicideRefundGas s4)"
      using srel_trans [OF q AddRefund_srel [OF srel_ok [OF q]]] .
    with q ok h show ?thesis
      by (simp add: gas_sdbI)
  qed
  have "\<exists>s gas. quiet X ?s s \<and> gasSuicide X (in_gasTable (f_evm fr)) ms fr = ?fin s gas"
    using st e b x quiet_refl [OF wf]
    by (cases "IsEIP150 (chainConfig (f_evm fr)) (block_num (f_evm fr))";
        cases "IsEIP158 (chainConfig (f_evm fr)) (block_num (f_evm fr))"; cases e)
      (auto simp: gasSuicide_def Let_def)
  with fin show "yields (gasSuicide X (in_gasTable (f_evm fr)) ms fr) (gas_good X fr ms 0)"
    by auto
qed

section \<open>Call prices\<close>

text \<open>A gas function changes at most caches of the state, the refund counter, the recorded memory fee and
  \<open>callGasTemp\<close>.\<close>

definition priced :: "crypto \<Rightarrow> frame \<Rightarrow> frame \<Rightarrow> bool" where
  "priced X fr fr1 \<longleftrightarrow> f_pc fr1 = f_pc fr \<and> f_contract fr1 = f_contract fr \<and> f_stack fr1 = f_stack fr
     \<and> store (f_mem fr1) = store (f_mem fr)
     \<and> evm_ok X (f_evm fr1) \<and> evm_rel X (static (f_evm fr)) (f_evm fr) (f_evm fr1)"

lemma gas_good_priced:
  "gas_good X fr ms lo (price, fr1) \<longleftrightarrow> priced X fr fr1
     \<and> (\<forall>cost. price = Inr cost \<longrightarrow> lo \<le> unat cost \<and> unat ms \<le> mem_limit)"
  by (auto simp: gas_good_def priced_def)

text \<open>The price of a call covers what the callee gets and at least \<open>lo\<close> more.\<close>

definition call_good :: "crypto \<Rightarrow> frame \<Rightarrow> u64 \<Rightarrow> nat \<Rightarrow> (vm_error + u64) \<times> frame \<Rightarrow> bool" where
  "call_good X fr ms lo r \<longleftrightarrow>
     (case r of (price, fr1) \<Rightarrow> priced X fr fr1
        \<and> (\<forall>cost. price = Inr cost
              \<longrightarrow> unat ms \<le> mem_limit \<and> lo + unat (callGasTemp (f_evm fr1)) \<le> unat cost))"

lemma call_good_gas: "call_good X fr ms lo r \<Longrightarrow> gas_good X fr ms lo r"
  by (cases r) (auto simp: call_good_def gas_good_priced)

lemma priced_mem:
  assumes "frame_ok X fr" "store m = store (f_mem fr)"
  shows "priced X fr (fr\<lparr>f_mem := m\<rparr>)"
  using gas_memI [OF assms, of "Inl errGasUintOverflow" 0] by (simp add: gas_good_priced)

lemma priced_temp:
  assumes "priced X fr fr1"
  shows "priced X fr (fr1\<lparr>f_evm := (f_evm fr1)\<lparr>callGasTemp := t\<rparr>\<rparr>)"
proof -
  let ?e = "(f_evm fr1)\<lparr>callGasTemp := t\<rparr>"
  have "evm_ok X ?e"
    using assms evm_ok_change [of X "f_evm fr1" ?e]
    by (simp add: priced_def same_setting_def evm_ok_def jumps_ok_def)
  with assms show ?thesis
    by (simp add: priced_def evm_rel_def same_setting_def)
qed

lemma call_tail_good:
  assumes "priced X fr fr1" "unat ms \<le> mem_limit" "lo \<le> unat gas"
  shows "call_good X fr ms lo (call_tail gt callCost gas fr1)"
  using assms priced_temp [OF assms(1)]
  by (auto simp: call_good_def call_tail_def elim!: no_overflow_addE split: sum.splits)

text \<open>Charging for memory before the tail, in either order of the addition.\<close>

lemma call_memory_good:
  assumes "priced X fr fr0" "frame_ok X fr0" "lo \<le> unat gas"
    and "\<And>g. op g = SafeAdd g gas \<or> op g = SafeAdd gas g"
  shows "yields (case memoryGasCost (f_mem fr0) ms of
        (Inl e, mem) \<Rightarrow> Ret (Inl e, fr0\<lparr>f_mem := mem\<rparr>)
      | (Inr memoryGas, mem) \<Rightarrow>
          (case op memoryGas of (gas1, overflow) \<Rightarrow>
             if overflow then Ret (Inl errGasUintOverflow, fr0\<lparr>f_mem := mem\<rparr>)
             else Ret (call_tail gt callCost gas1 (fr0\<lparr>f_mem := mem\<rparr>))))
    (call_good X fr ms lo)"
proof -
  obtain r m where m: "memoryGasCost (f_mem fr0) ms = (r, m)" by fastforce
  have "priced X fr0 (fr0\<lparr>f_mem := m\<rparr>)"
    using assms(2) memoryGasCost_store [OF m] by (rule priced_mem)
  then have p: "priced X fr (fr0\<lparr>f_mem := m\<rparr>)"
    using assms(1) by (simp add: priced_def)
  then have bad: "call_good X fr ms lo (Inl e, fr0\<lparr>f_mem := m\<rparr>)" for e
    by (simp add: call_good_def)
  show ?thesis
  proof (cases r)
    case (Inl e)
    with m bad show ?thesis by simp
  next
    case (Inr g)
    obtain gas1 overflow where o: "op g = (gas1, overflow)" by fastforce
    have "lo \<le> unat gas1" if "\<not> overflow"
      using that assms(3) assms(4) [of g] o SafeAdd_sum [of g gas gas1] SafeAdd_sum [of gas g gas1]
      by (cases overflow) auto
    then show ?thesis
      using m o Inr bad call_tail_good [OF p memoryGasCost_limit [OF m [unfolded Inr]]] by simp
  qed
qed

definition call_safe ::
  "crypto \<Rightarrow> nat \<Rightarrow> (frame \<Rightarrow> nat) \<Rightarrow> gas_func \<Rightarrow> bool" where
  "call_safe X pops lo gf \<longleftrightarrow>
     (\<forall>fr ms. frame_ok X fr \<longrightarrow> pops \<le> length (f_stack fr)
        \<longrightarrow> yields (gf X (in_gasTable (f_evm fr)) ms fr) (call_good X fr ms (lo fr)))"

definition call_min :: "frame \<Rightarrow> nat" where
  "call_min fr = (if f_stack fr ! 2 \<noteq> 0 then 9000 else 0) + 40"

lemma priced_refl: "frame_ok X fr \<Longrightarrow> priced X fr fr"
  by (simp add: priced_def frame_ok_def evm_rel_refl)

lemma small_gas_sum:
  "unat a \<le> 700 \<Longrightarrow> unat (a + (if b then CallNewAccountGas else 0) + (if c then CallValueTransferGas else 0))
     = unat a + (if b then 25000 else 0) + (if c then 9000 else 0)"
proof -
  assume a: "unat a \<le> 700"
  have "unat (a + 25000) = unat a + 25000" "unat (a + 9000) = unat a + 9000"
    "unat (a + 25000 + 9000) = unat (a + 25000) + 9000"
    using a by (simp_all add: unat_add_no_wrap)
  then show ?thesis
    by (simp add: CallNewAccountGas_def CallValueTransferGas_def)
qed

lemma delegate_price_safe [gas_safety]:
  "call_safe X 6 (\<lambda>fr. 40) gasDelegateCall" "call_safe X 6 (\<lambda>fr. 40) gasStaticCall"
proof -
  have "yields (gasDelegateCall X (in_gasTable (f_evm fr)) ms fr) (call_good X fr ms 40)
      \<and> yields (gasStaticCall X (in_gasTable (f_evm fr)) ms fr) (call_good X fr ms 40)"
    if ok: "frame_ok X fr" "6 \<le> length (f_stack fr)" for fr ms
  proof -
    obtain a st where "f_stack fr = a # st"
      using ok(2) by (cases "f_stack fr") auto
    then show ?thesis
      using call_memory_good [OF priced_refl [OF ok(1)] ok(1) gas_table_pos(5) [OF frame_okD(1) [OF ok(1)]],
          where op = "\<lambda>g. SafeAdd g (gt_Calls (in_gasTable (f_evm fr)))" and ms = ms
          and gt = "in_gasTable (f_evm fr)" and callCost = a]
      by (simp add: gasDelegateCall_def gasStaticCall_def)
  qed
  then show "call_safe X 6 (\<lambda>fr. 40) gasDelegateCall" "call_safe X 6 (\<lambda>fr. 40) gasStaticCall"
    by (simp_all add: call_safe_def)
qed

lemma gasCallCode_safe [gas_safety]: "call_safe X 7 call_min gasCallCode"
  unfolding call_safe_def
proof (intro allI impI)
  fix fr :: frame and ms :: u64
  assume ok: "frame_ok X fr" "7 \<le> length (f_stack fr)"
  have "3 \<le> length (f_stack fr)"
    using ok(2) by simp
  then obtain a b v st where st: "f_stack fr = a # b # v # st"
    using stack_shape(3) by blast
  let ?gt = "in_gasTable (f_evm fr)"
  let ?gas = "gt_Calls ?gt + (if v \<noteq> 0 then CallValueTransferGas else 0)"
  have "call_min fr \<le> unat ?gas"
    using st gas_table_pos(5,6) [OF frame_okD(1) [OF ok(1)]] small_gas_sum [of "gt_Calls ?gt" False "v \<noteq> 0"]
    by (simp add: call_min_def)
  from call_memory_good [OF priced_refl [OF ok(1)] ok(1) this, where op = "SafeAdd ?gas" and ms = ms and gt = ?gt
      and callCost = a]
  show "yields (gasCallCode X ?gt ms fr) (call_good X fr ms (call_min fr))"
    using st by (simp add: gasCallCode_def call_price_def)
qed

lemma frame_ok_sdb:
  "frame_ok X fr \<Longrightarrow> srel X ro (sdb (f_evm fr)) s \<Longrightarrow> frame_ok X (fr\<lparr>f_evm := (f_evm fr)\<lparr>sdb := s\<rparr>\<rparr>)"
  using evm_ok_sdb by (simp add: frame_ok_def)

lemma gasCall_safe [gas_safety]: "call_safe X 7 call_min gasCall"
  unfolding call_safe_def
proof (intro allI impI)
  fix fr :: frame and ms :: u64
  assume ok: "frame_ok X fr" "7 \<le> length (f_stack fr)"
  have "3 \<le> length (f_stack fr)"
    using ok(2) by simp
  then obtain a b v st where st: "f_stack fr = a # b # v # st"
    using stack_shape(3) by blast
  let ?s = "sdb (f_evm fr)" and ?gt = "in_gasTable (f_evm fr)" and ?addr = "BigToAddress b"
  note wf = frame_okD(6) [OF ok(1)]
  let ?look = "if IsEIP158 (chainConfig (f_evm fr)) (block_num (f_evm fr)) then
      if v \<noteq> 0 then Empty X ?addr ?s else (?s, False)
    else (let (s2, e) = Exist X ?addr ?s in (s2, \<not> e))"
  obtain s fresh where look: "?look = (s, fresh)"
    by (rule prod.exhaust)
  then have q: "quiet X ?s s"
    using Empty_spec [OF wf, of ?addr] Exist_spec [OF wf, of ?addr] quiet_refl [OF wf]
    by (auto simp: split_def Let_def split: if_splits)
  have g: "gasCall X ?gt ms fr
      = call_price ?gt ms a (gt_Calls ?gt + (if fresh then CallNewAccountGas else 0)
          + (if v \<noteq> 0 then CallValueTransferGas else 0)) (fr\<lparr>f_evm := (f_evm fr)\<lparr>sdb := s\<rparr>\<rparr>)"
    unfolding gasCall_def st list.case Let_def [of "f_evm fr"] Let_def [of "v \<noteq> 0"] Let_def [of "BigToAddress b"]
      look by simp
  let ?fr0 = "fr\<lparr>f_evm := (f_evm fr)\<lparr>sdb := s\<rparr>\<rparr>"
  let ?gas = "gt_Calls ?gt + (if fresh then CallNewAccountGas else 0) + (if v \<noteq> 0 then CallValueTransferGas else 0)"
  have r: "srel X ro ?s s" for ro
    using srel_quiet [OF frame_okD(5) [OF ok(1)] q] .
  have p: "priced X fr ?fr0"
    using evm_ok_sdb [OF frame_okD(1) [OF ok(1)] r] evm_rel_sdb [OF r] by (simp add: priced_def)
  have "call_min fr \<le> unat ?gas"
    using st gas_table_pos(5,6) [OF frame_okD(1) [OF ok(1)]] small_gas_sum [of "gt_Calls ?gt" fresh "v \<noteq> 0"]
    by (simp add: call_min_def)
  from call_memory_good [OF p frame_ok_sdb [OF ok(1) r] this, where op = "SafeAdd ?gas" and ms = ms and gt = ?gt
      and callCost = a]
  show "yields (gasCall X ?gt ms fr) (call_good X fr ms (call_min fr))"
    unfolding g call_price_def by simp
qed

end
