(* ===== verification/StepSafety.thy ===== *)
theory StepSafety
  imports GasSafety
begin

text \<open>
  One round of the interpreter loop: the memory an operation needs is computed, it is paid for, the
  memory grows, the operation runs. A round either ends the execution or goes on with a sound frame
  and less gas.
\<close>

section \<open>Outcomes\<close>

definition outcome_ok :: "crypto \<Rightarrow> frame \<Rightarrow> outcome \<Rightarrow> bool" where
  "outcome_ok X fr out \<longleftrightarrow>
     (case out of
        Halt ret err fr' \<Rightarrow> evm_ok X (f_evm fr') \<and> evm_rel X (static (f_evm fr)) (f_evm fr) (f_evm fr')
          \<and> contract_rel (f_contract fr) (f_contract fr') \<and> gas_of fr' \<le> gas_of fr \<and> length ret \<le> size_limit
      | Next fr' \<Rightarrow> frame_ok X fr' \<and> evm_rel X (static (f_evm fr)) (f_evm fr) (f_evm fr')
          \<and> contract_rel (f_contract fr) (f_contract fr') \<and> gas_of fr' < gas_of fr)"

text \<open>The part of a round after the checks.\<close>

definition body :: "crypto \<Rightarrow> runner \<Rightarrow> operation \<Rightarrow> frame \<Rightarrow> outcome go" where
  "body X rn operation fr =
     go_bind (memory_needed operation (f_stack fr))
       (\<lambda>needed. case needed of
          Inl err \<Rightarrow> Ret (Halt [] (Some err) fr)
        | Inr memorySize \<Rightarrow>
            go_bind (charge X operation memorySize fr)
              (\<lambda>charged. case charged of
                 Inl fr1 \<Rightarrow> Ret (Halt [] (Some ErrOutOfGas) fr1)
               | Inr fr1 \<Rightarrow> go_bind (op_execute operation X rn fr1) (\<lambda>r. Ret (after_op operation r))))"

lemma step_body:
  "step X rn fr =
     (let op = GetByte (f_pc fr) (f_contract fr)
      in case map_of (JumpTable_of (in_instructions (f_evm fr))) op of
           None \<Rightarrow> Ret (Halt [] (Some (errInvalidOpcode op)) fr)
         | Some operation \<Rightarrow>
             (case op_validateStack operation (f_stack fr) of
                Some err \<Rightarrow> Ret (Halt [] (Some err) fr)
              | None \<Rightarrow>
                  go_bind (enforceRestrictions op operation (f_stack fr) (f_evm fr))
                    (\<lambda>restriction. case restriction of
                       Some err \<Rightarrow> Ret (Halt [] (Some err) fr)
                     | None \<Rightarrow> body X rn operation fr)))"
  unfolding step_def body_def ..

lemma halt_same: "frame_ok X fr \<Longrightarrow> outcome_ok X fr (Halt [] err fr)"
  by (simp add: outcome_ok_def frame_ok_def evm_rel_refl)

section \<open>Memory\<close>

lemma toWordSize_unat:
  "unat (toWordSize sz) = (if unat sz > 2 ^ 64 - 32 then 2 ^ 59 else (unat sz + 31) div 32)"
proof (cases "sz > MaxUint64 - 31")
  case True
  have "unat (MaxUint64 - 31) = 2 ^ 64 - 32" "unat (MaxUint64 div 32 + 1) = 2 ^ 59"
    by (simp_all add: MaxUint64_def)
  with True show ?thesis
    by (simp add: toWordSize_def word_less_nat_alt)
next
  case False
  have m: "unat (MaxUint64 - 31) = 2 ^ 64 - 32"
    by (simp add: MaxUint64_def)
  with False have le: "unat sz \<le> 2 ^ 64 - 32"
    by (simp add: word_less_nat_alt)
  then have "unat (sz + 31) = unat sz + 31"
    by (subst unat_add_no_wrap) simp_all
  with False le m show ?thesis
    by (simp add: toWordSize_def word_less_nat_alt unat_div)
qed

lemma word_multiple:
  assumes "SafeMul (toWordSize sz) 32 = (ms, False)"
  shows "unat sz \<le> unat ms" "32 dvd unat ms"
proof -
  have "unat ms = unat (toWordSize sz) * 32"
    using SafeMul_unat [of "toWordSize sz" 32] assms by simp
  then show "32 dvd unat ms" by simp
  have "\<not> 2 ^ 64 \<le> unat (toWordSize sz) * 32"
    using SafeMul_flag [of "toWordSize sz" 32] assms by simp
  with \<open>unat ms = unat (toWordSize sz) * 32\<close> show "unat sz \<le> unat ms"
    using toWordSize_unat [of sz] by (simp split: if_splits)
qed

lemma memory_needed_returns:
  assumes "\<And>f. op_memorySize oper = Some f \<Longrightarrow> \<exists>sz. f st = Ret sz \<and> 0 \<le> sz"
  shows "yields (memory_needed oper st) (\<lambda>r. \<forall>ms. r = Inr ms \<longrightarrow> 32 dvd unat ms
    \<and> (op_memorySize oper = None \<longrightarrow> ms = 0)
    \<and> (\<forall>f sz. op_memorySize oper = Some f \<longrightarrow> f st = Ret sz \<longrightarrow> sz \<le> int (unat ms)))"
proof (cases "op_memorySize oper")
  case None
  then show ?thesis by (simp add: memory_needed_def)
next
  case (Some f)
  with assms obtain sz where sz: "f st = Ret sz" "0 \<le> sz"
    by blast
  obtain n overflow where n: "bigUint64 sz = (n, overflow)" by fastforce
  obtain ms overflow2 where ms: "SafeMul (toWordSize n) 32 = (ms, overflow2)" by fastforce
  have "sz \<le> int (unat ms)" if "\<not> overflow" "\<not> overflow2"
  proof -
    have "unat n = nat sz"
      using n that(1) sz(2) unat_big_Uint64 [of sz] by (auto simp: bigUint64_def)
    moreover have "unat n \<le> unat ms"
      using word_multiple(1) [of n ms] ms that(2) by simp
    ultimately show ?thesis
      using sz(2) by linarith
  qed
  then show ?thesis
    using Some sz n ms word_multiple(2) [of n ms] by (auto simp: memory_needed_def)
qed

lemma mem_Resize_ok:
  assumes "mem_ok m" "unat ms \<le> mem_limit" "32 dvd unat ms"
  shows "mem_ok (mem_Resize ms m)" "unat ms \<le> length (store (mem_Resize ms m))"
  using assms by (auto simp: mem_Resize_def mem_ok_def)

section \<open>Payment\<close>

definition paid :: "u64 \<Rightarrow> u64 \<Rightarrow> frame \<Rightarrow> frame" where
  "paid cost ms fr = fr\<lparr>f_contract := (f_contract fr)\<lparr>c_Gas := c_Gas (f_contract fr) - cost\<rparr>,
     f_mem := (if ms > 0 then mem_Resize ms (f_mem fr) else f_mem fr)\<rparr>"

lemma charge_eq:
  "charge X oper ms fr =
     go_bind (op_gasCost oper X (in_gasTable (f_evm fr)) ms fr)
       (\<lambda>(r, fr1). Ret (case r of
           Inl err \<Rightarrow> Inl fr1
         | Inr cost \<Rightarrow> if c_Gas (f_contract fr1) < cost then Inl fr1 else Inr (paid cost ms fr1)))"
  by (cases "op_gasCost oper X (in_gasTable (f_evm fr)) ms fr")
    (auto simp: charge_def UseGas_def paid_def split: sum.splits)

lemma priced_halt: "frame_ok X fr \<Longrightarrow> priced X fr fr1 \<Longrightarrow> outcome_ok X fr (Halt [] err fr1)"
  by (simp add: outcome_ok_def priced_def)

lemma paid_ready:
  assumes "frame_ok X fr" "priced X fr fr1" "unat ms \<le> mem_limit" "32 dvd unat ms"
    and "\<not> c_Gas (f_contract fr1) < cost"
  shows "frame_ok X (paid cost ms fr1)" "gas_of (paid cost ms fr1) = gas_of fr - unat cost"
    "unat cost \<le> gas_of fr" "unat ms \<le> length (store (f_mem (paid cost ms fr1)))"
    "f_stack (paid cost ms fr1) = f_stack fr" "f_evm (paid cost ms fr1) = f_evm fr1"
    "contract_rel (f_contract fr) (f_contract (paid cost ms fr1))" "f_pc (paid cost ms fr1) = f_pc fr"
proof -
  let ?c = "f_contract fr"
  have c: "cost \<le> c_Gas ?c"
    using assms(2,5) by (simp add: priced_def not_less)
  then show g: "gas_of (paid cost ms fr1) = gas_of fr - unat cost" "unat cost \<le> gas_of fr"
    using assms(2) by (simp_all add: paid_def priced_def unat_sub word_le_nat_alt)
  have m: "mem_ok (f_mem fr1)"
    using assms(1,2) by (simp add: frame_ok_def priced_def mem_ok_def)
  then have m': "mem_ok (f_mem (paid cost ms fr1))"
    using mem_Resize_ok [OF m assms(3,4)] by (simp add: paid_def)
  have "gas_of fr < 2 ^ 62"
    using assms(1) by (simp add: frame_ok_def contract_ok_def)
  then have "gas_of (paid cost ms fr1) < 2 ^ 62"
    using g by linarith
  then have "unat (c_Gas ?c - cost) < 2 ^ 62"
    using assms(2) by (simp add: paid_def priced_def)
  then show "frame_ok X (paid cost ms fr1)"
    using assms(1,2) m' by (simp add: frame_ok_def priced_def contract_ok_def paid_def)
  show "unat ms \<le> length (store (f_mem (paid cost ms fr1)))"
    using mem_Resize_ok(2) [OF m assms(3,4)] by (simp add: paid_def word_less_nat_alt)
  show "f_stack (paid cost ms fr1) = f_stack fr" "f_evm (paid cost ms fr1) = f_evm fr1"
    "contract_rel (f_contract fr) (f_contract (paid cost ms fr1))" "f_pc (paid cost ms fr1) = f_pc fr"
    using assms(2) by (simp_all add: paid_def priced_def contract_rel_def)
qed

section \<open>A round\<close>

abbreviation ends :: "operation \<Rightarrow> bool" where
  "ends oper \<equiv> op_halts oper \<or> op_reverts oper"

lemma evm_ok_returnData:
  assumes "evm_ok X evm" "length d \<le> size_limit"
  shows "evm_ok X (evm\<lparr>returnData := d\<rparr>)"
  using assms evm_ok_change [OF assms(1), of "evm\<lparr>returnData := d\<rparr>"]
  by (simp add: same_setting_def evm_ok_def jumps_ok_def)

lemma evm_rel_returnData [simp]: "evm_rel X ro evm (evm'\<lparr>returnData := d\<rparr>) = evm_rel X ro evm evm'"
  by (simp add: evm_rel_def same_setting_def)

text \<open>From the execution to the outcome of the round.\<close>

lemma after_op_ok:
  assumes "exec_good X G pops pushes fr1 (d, err, fr2)" "frame_ok X fr1"
    and "contract_rel (f_contract fr) (f_contract fr1)"
    and "evm_rel X (static (f_evm fr)) (f_evm fr) (f_evm fr1)"
    and "G \<le> gas_of fr" "ends oper \<or> G < gas_of fr"
    and "length (f_stack fr1) + pushes \<le> 1024 + pops"
    and "ends oper \<or> unat (f_pc fr1) < length (c_Code (f_contract fr1))"
  shows "outcome_ok X fr (after_op oper (d, err, fr2))"
proof -
  note e = assms(1) [unfolded exec_good_def, simplified]
  have "static (f_evm fr1) = static (f_evm fr)"
    using assms(4) static_same by (simp add: evm_rel_def)
  then have "evm_rel X (static (f_evm fr)) (f_evm fr1) (f_evm fr2)"
    using e by simp
  from evm_rel_trans [OF assms(4) this] have rel: "evm_rel X (static (f_evm fr)) (f_evm fr) (f_evm fr2)" .
  have crel: "contract_rel (f_contract fr) (f_contract fr2)"
    using e assms(3) contract_rel_trans by blast
  define fr3 where "fr3 = (if op_returns oper then set_returnData d fr2 else fr2)"
  have 3: "evm_ok X (f_evm fr3)" "evm_rel X (static (f_evm fr)) (f_evm fr) (f_evm fr3)"
    "f_contract fr3 = f_contract fr2" "f_stack fr3 = f_stack fr2" "f_mem fr3 = f_mem fr2" "f_pc fr3 = f_pc fr2"
    using e rel evm_ok_returnData by (simp_all add: fr3_def set_returnData_def)
  have halt: "outcome_ok X fr (Halt r er fr3)" if "length r \<le> size_limit" for r er
    using 3 crel that e assms(5) by (simp add: outcome_ok_def)
  have len: "length (c_Code (f_contract fr2)) = length (c_Code (f_contract fr1))"
    "length (c_Code (f_contract fr1)) \<le> 2 ^ 40"
    using e assms(2) by (simp_all add: contract_rel_def frame_ok_def contract_ok_def size_limit_def)
  have go: "outcome_ok X fr (Next (fr3\<lparr>f_pc := pc\<rparr>))"
    if "\<not> ends oper" "pc = f_pc fr2 \<or> pc = f_pc fr2 + 1" for pc
  proof -
    have small: "unat (f_pc fr2) < length (c_Code (f_contract fr1)) + 32"
      using e that(1) assms(8) by auto
    then have "unat (f_pc fr2 + 1) = unat (f_pc fr2) + 1"
      using len by (subst unat_add_no_wrap) simp_all
    then have "unat pc \<le> length (c_Code (f_contract fr2)) + 32"
      using that(2) small len by auto
    moreover have "length (f_stack fr2) \<le> 1024"
      using e assms(7) by linarith
    ultimately show ?thesis
      using 3 e crel that(1) assms(6) by (simp add: outcome_ok_def frame_ok_def stack_ok_def)
  qed
  have stay: "outcome_ok X fr (Next fr3)" if "\<not> ends oper"
    using go [OF that disjI1 [OF 3(6)]] by simp
  moreover have "length d \<le> size_limit"
    using e by blast
  ultimately show ?thesis
    using halt [of "[]"] halt [of d] go [of "f_pc fr2 + 1"] 3(6)
    unfolding after_op_def prod.case fr3_def [symmetric] Let_def by (simp add: size_limit_def)
qed

lemma body_ok:
  assumes ok: "frame_ok X fr"
    and mem: "\<And>f. op_memorySize oper = Some f \<Longrightarrow> \<exists>sz. f (f_stack fr) = Ret sz \<and> 0 \<le> sz"
    and gas: "\<And>ms. op_memorySize oper \<noteq> None \<or> ms = 0
      \<Longrightarrow> yields (op_gasCost oper X (in_gasTable (f_evm fr)) ms fr) (gas_good X fr ms lo)"
    and exec: "\<And>ms cost fr1. op_gasCost oper X (in_gasTable (f_evm fr)) ms fr = Ret (Inr cost, fr1)
      \<Longrightarrow> priced X fr fr1 \<Longrightarrow> frame_ok X (paid cost ms fr1) \<Longrightarrow> mem_fits (op_memorySize oper) (paid cost ms fr1)
      \<Longrightarrow> gas_of (paid cost ms fr1) + unat cost = gas_of fr \<Longrightarrow> lo \<le> unat cost
      \<Longrightarrow> yields (op_execute oper X rn (paid cost ms fr1)) (exec_good X G pops pushes (paid cost ms fr1))"
    and G: "G \<le> gas_of fr" "lo \<le> gas_of fr \<Longrightarrow> ends oper \<or> G < gas_of fr"
    and room: "length (f_stack fr) + pushes \<le> 1024 + pops"
    and pc: "ends oper \<or> unat (f_pc fr) < length (c_Code (f_contract fr))"
  shows "yields (body X rn oper fr) (outcome_ok X fr)"
  unfolding body_def yields_bind
proof (rule yields_mono [OF memory_needed_returns])
  fix needed :: "vm_error + u64"
  assume needed: "\<forall>ms. needed = Inr ms \<longrightarrow> 32 dvd unat ms \<and> (op_memorySize oper = None \<longrightarrow> ms = 0)
    \<and> (\<forall>f sz. op_memorySize oper = Some f \<longrightarrow> f (f_stack fr) = Ret sz \<longrightarrow> sz \<le> int (unat ms))"
  let ?run = "\<lambda>charged. case charged of Inl fr1 \<Rightarrow> Ret (Halt [] (Some ErrOutOfGas) fr1)
    | Inr fr1 \<Rightarrow> go_bind (op_execute oper X rn fr1) (\<lambda>r. Ret (after_op oper r))"
  have main: "yields (go_bind (charge X oper ms fr) ?run) (outcome_ok X fr)" if ms: "needed = Inr ms" for ms
  proof -
    have "op_memorySize oper \<noteq> None \<or> ms = 0"
      using needed ms by blast
    from gas [OF this] obtain price fr1 where
      g: "op_gasCost oper X (in_gasTable (f_evm fr)) ms fr = Ret (price, fr1)" "gas_good X fr ms lo (price, fr1)"
      by (auto elim!: yieldsE)
    then have p: "priced X fr fr1"
      by (simp add: gas_good_priced)
    show ?thesis
    proof (cases "\<exists>cost. price = Inr cost \<and> \<not> c_Gas (f_contract fr1) < cost")
      case False
      then have "charge X oper ms fr = Ret (Inl fr1)"
        using g(1) by (auto simp: charge_eq split: sum.splits)
      then show ?thesis
        using priced_halt [OF ok p] by simp
    next
      case True
      then obtain cost where c: "price = Inr cost" "\<not> c_Gas (f_contract fr1) < cost"
        by blast
      have b: "lo \<le> unat cost" "unat ms \<le> mem_limit"
        using g(2) c(1) by (simp_all add: gas_good_priced)
      let ?fr = "paid cost ms fr1"
      note r = paid_ready [OF ok p b(2) _ c(2), simplified]
      have d: "32 dvd unat ms"
        using needed ms by blast
      have f: "mem_fits (op_memorySize oper) ?fr"
      proof (cases "op_memorySize oper")
        case (Some f)
        with mem obtain sz where "f (f_stack fr) = Ret sz"
          by blast
        moreover from this have "sz \<le> int (unat ms)"
          using needed ms Some by blast
        with r(4) [OF d] have "sz \<le> int (length (store (f_mem ?fr)))"
          by linarith
        ultimately show ?thesis
          using Some r(5) [OF d] by simp
      qed simp
      have gas': "gas_of ?fr + unat cost = gas_of fr"
        using r(2,3) [OF d] by simp
      from exec [OF g(1) [unfolded c(1)] p r(1) [OF d] f gas' b(1)]
      obtain dt err fr2 where x: "op_execute oper X rn ?fr = Ret (dt, err, fr2)"
        "exec_good X G pops pushes ?fr (dt, err, fr2)"
        by (auto elim!: yieldsE)
      have "outcome_ok X fr (after_op oper (dt, err, fr2))"
      proof (rule after_op_ok [OF x(2) r(1) [OF d] r(7) [OF d]])
        show "evm_rel X (static (f_evm fr)) (f_evm fr) (f_evm ?fr)"
          using p r(6) [OF d] by (simp add: priced_def)
        show "ends oper \<or> G < gas_of fr"
          using b(1) r(3) [OF d] by (intro G(2)) linarith
        show "length (f_stack ?fr) + pushes \<le> 1024 + pops"
          using room r(5) [OF d] by simp
        show "ends oper \<or> unat (f_pc ?fr) < length (c_Code (f_contract ?fr))"
          using pc r(7,8) [OF d] by (simp add: contract_rel_def)
      qed (rule G(1))
      then show ?thesis
        using g(1) c x(1) by (simp add: charge_eq)
    qed
  qed
  show "yields (case needed of Inl err \<Rightarrow> Ret (Halt [] (Some err) fr)
      | Inr ms \<Rightarrow> go_bind (charge X oper ms fr) ?run) (outcome_ok X fr)"
    using main halt_same [OF ok] by (cases needed) simp_all
qed (rule mem)

section \<open>Sound operations\<close>

text \<open>An entry of an instruction set is sound if its round is, in every frame that has passed the
  checks; calls made in it get less than \<open>B\<close> gas.\<close>

definition op_sound :: "crypto \<Rightarrow> runner \<Rightarrow> nat \<Rightarrow> instruction_set \<Rightarrow> u8 \<times> operation \<Rightarrow> bool" where
  "op_sound X rn B is e \<longleftrightarrow>
     (case e of (code, oper) \<Rightarrow>
        \<exists>pops pushes. op_validateStack oper = makeStackFunc pops pushes
        \<and> (\<forall>fr. frame_ok X fr \<longrightarrow> in_instructions (f_evm fr) = is \<longrightarrow> gas_of fr \<le> B
             \<longrightarrow> pops \<le> length (f_stack fr) \<longrightarrow> length (f_stack fr) + pushes \<le> 1024 + pops
             \<longrightarrow> (static (f_evm fr) \<longrightarrow> \<not> op_writes oper \<and> (code = CALL \<longrightarrow> f_stack fr ! 2 = 0))
             \<longrightarrow> (code = 0 \<or> unat (f_pc fr) < length (c_Code (f_contract fr)))
             \<longrightarrow> yields (body X rn oper fr) (outcome_ok X fr)))"

text \<open>The sizes the memory functions compute are not negative.\<close>

definition size_safe :: "memorySizeFunc option \<Rightarrow> nat \<Rightarrow> bool" where
  "size_safe mf pops \<longleftrightarrow> (\<forall>f st. mf = Some f \<longrightarrow> pops \<le> length st \<longrightarrow> list_all w256 st
     \<longrightarrow> (\<exists>sz. f st = Ret sz \<and> 0 \<le> sz))"

lemma calcMemSize_nonneg: "w256 a \<Longrightarrow> w256 b \<Longrightarrow> 0 \<le> calcMemSize a b"
  by (simp add: calcMemSize_def w256_def)

lemma size_safe_None [simp]: "size_safe None pops"
  by (simp add: size_safe_def)

lemma memory_sizes_safe [simp]:
  "size_safe (Some memorySha3) 2" "size_safe (Some memoryCallDataCopy) 3"
  "size_safe (Some memoryReturnDataCopy) 3" "size_safe (Some memoryCodeCopy) 3"
  "size_safe (Some memoryExtCodeCopy) 4" "size_safe (Some memoryMLoad) 1"
  "size_safe (Some memoryMStore8) 2" "size_safe (Some memoryMStore) 2"
  "size_safe (Some memoryCreate) 3" "size_safe (Some memoryCreate2) 4"
  "size_safe (Some memoryCall) 7" "size_safe (Some memoryDelegateCall) 6"
  "size_safe (Some memoryStaticCall) 6" "size_safe (Some memoryReturn) 2"
  "size_safe (Some memoryRevert) 2" "size_safe (Some memoryLog) (n + 2)"
  unfolding size_safe_def
  by (auto simp: memory_table_defs calcMemSize_nonneg w256_small BigMax_def numeral_eq_Suc Suc_le_length_iff)

lemma op_soundI:
  assumes gas: "gas_safe X is (op_memorySize oper \<noteq> None) (op_writes oper) pops lo (op_gasCost oper)"
    and exec: "exec_safe X rn (op_memorySize oper) (op_writes oper) pops pushes (op_execute oper)"
    and check: "op_validateStack oper = makeStackFunc pops pushes"
    and size: "size_safe (op_memorySize oper) pops"
    and flags: "ends oper \<or> 1 \<le> lo" "code \<noteq> 0 \<or> op_halts oper"
  shows "op_sound X rn B is (code, oper)"
  unfolding op_sound_def prod.case
proof (intro exI conjI allI impI)
  fix fr
  assume ok: "frame_ok X fr" "in_instructions (f_evm fr) = is" "pops \<le> length (f_stack fr)"
    "length (f_stack fr) + pushes \<le> 1024 + pops"
    "static (f_evm fr) \<longrightarrow> \<not> op_writes oper \<and> (code = CALL \<longrightarrow> f_stack fr ! 2 = 0)"
    "code = 0 \<or> unat (f_pc fr) < length (c_Code (f_contract fr))"
  show "yields (body X rn oper fr) (outcome_ok X fr)"
  proof (rule body_ok [where lo = lo and G = "if ends oper then gas_of fr else gas_of fr - 1"])
    show "yields (op_execute oper X rn (paid cost ms fr1))
        (exec_good X (if ends oper then gas_of fr else gas_of fr - 1) pops pushes (paid cost ms fr1))"
      if "priced X fr fr1" "frame_ok X (paid cost ms fr1)" "mem_fits (op_memorySize oper) (paid cost ms fr1)"
        "gas_of (paid cost ms fr1) + unat cost = gas_of fr" "lo \<le> unat cost" for ms cost fr1
    proof -
      have p: "f_stack (paid cost ms fr1) = f_stack fr" "static (f_evm (paid cost ms fr1)) = static (f_evm fr)"
        using that(1) static_same [of "f_evm fr" "f_evm fr1"]
        by (simp_all add: paid_def priced_def evm_rel_def)
      then have "yields (op_execute oper X rn (paid cost ms fr1))
          (exec_good X (gas_of (paid cost ms fr1)) pops pushes (paid cost ms fr1))"
        by (intro exec [unfolded exec_safe_def, rule_format, OF that(2) _ that(3)]) (use ok(3,5) in auto)
      then show ?thesis
        by (rule yields_mono) (use that(4,5) flags(1) in \<open>auto elim!: exec_good_weaken\<close>)
    qed
  qed (use ok gas size flags frame_okD(3) [OF ok(1)] in \<open>auto simp: gas_safe_def size_safe_def\<close>)
qed (rule check)

section \<open>The entries that do not call\<close>

lemma const_sound:
  assumes "exec_safe X rn None False pops pushes ex" "1 \<le> unat g" "code \<noteq> 0"
  shows "op_sound X rn B is (code, plain ex (constGasFunc g) (makeStackFunc pops pushes))"
    "op_sound X rn B is (code, (plain ex (constGasFunc g) (makeStackFunc pops pushes))\<lparr>op_jumps := True\<rparr>)"
  using assms by (auto intro!: op_soundI [where lo = "unat g"] constGasFunc_safe simp: plain_def)

lemma price_sound:
  assumes "exec_safe X rn None False pops pushes ex" "gas_safe X is False False pops lo gf" "1 \<le> lo" "code \<noteq> 0"
  shows "op_sound X rn B is (code, plain ex gf (makeStackFunc pops pushes))"
  using assms by (intro op_soundI [where lo = lo]) (simp_all add: plain_def)

lemma memory_sound:
  assumes "exec_safe X rn (Some mf) False pops pushes ex" "gas_safe X is True False pops lo gf" "1 \<le> lo"
    and "size_safe (Some mf) pops" "code \<noteq> 0"
  shows "op_sound X rn B is (code, (plain ex gf (makeStackFunc pops pushes))\<lparr>op_memorySize := Some mf\<rparr>)"
  using assms by (intro op_soundI [where lo = lo]) (simp_all add: plain_def)

lemma frontier_arith_sound: "\<forall>e \<in> set frontier_arith. op_sound X rn B is e"
proof -
  have "op_sound X rn B is (STOP, (plain opStop (constGasFunc 0) (makeStackFunc 0 0))\<lparr>op_halts := True\<rparr>)"
    by (intro op_soundI [where lo = 0]) (simp_all add: plain_def constGasFunc_safe op_safety)
  moreover have "op_sound X rn B is (EXP, plain opExp gasExp (makeStackFunc 2 1))"
    by (intro price_sound [OF _ gasExp_safe] op_safety) (simp_all add: opcodes)
  ultimately show ?thesis
    by (simp add: frontier_arith_def const_sound op_safety gas_consts opcodes del: One_nat_def)
qed

lemma frontier_env_sound: "\<forall>e \<in> set frontier_env. op_sound X rn B is e"
proof -
  have "op_sound X rn B is (SHA3, (plain opSha3 gasSha3 (makeStackFunc 2 1))\<lparr>op_memorySize := Some memorySha3\<rparr>)"
    "op_sound X rn B is (CALLDATACOPY, (plain opCallDataCopy gasCallDataCopy (makeStackFunc 3 0))
       \<lparr>op_memorySize := Some memoryCallDataCopy\<rparr>)"
    "op_sound X rn B is (CODECOPY, (plain opCodeCopy gasCodeCopy (makeStackFunc 3 0))
       \<lparr>op_memorySize := Some memoryCodeCopy\<rparr>)"
    "op_sound X rn B is (EXTCODECOPY, (plain opExtCodeCopy gasExtCodeCopy (makeStackFunc 4 0))
       \<lparr>op_memorySize := Some memoryExtCodeCopy\<rparr>)"
    by (rule memory_sound, rule op_safety, rule gas_safety, simp, rule memory_sizes_safe, simp add: opcodes)+
  moreover have "op_sound X rn B is (BALANCE, plain opBalance gasBalance (makeStackFunc 1 1))"
    "op_sound X rn B is (EXTCODESIZE, plain opExtCodeSize gasExtCodeSize (makeStackFunc 1 1))"
    by (rule price_sound, rule op_safety, rule gas_safety, simp, simp add: opcodes)+
  ultimately show ?thesis
    by (simp add: frontier_env_def const_sound op_safety gas_consts opcodes del: One_nat_def)
qed

text \<open>The system operations that do not call.\<close>

lemma frontier_sys_sound:
  assumes "crypto_ok X"
  shows "\<forall>e \<in> set frontier_sys. fst e \<notin> {CREATE, CALL, CALLCODE} \<longrightarrow> op_sound X rn B is e"
proof -
  have "op_sound X rn B is (MLOAD, (plain opMload gasMLoad (makeStackFunc 1 1))\<lparr>op_memorySize := Some memoryMLoad\<rparr>)"
    "op_sound X rn B is (MSTORE, (plain opMstore gasMStore (makeStackFunc 2 0))\<lparr>op_memorySize := Some memoryMStore\<rparr>)"
    "op_sound X rn B is (MSTORE8, (plain opMstore8 gasMStore8 (makeStackFunc 2 0))\<lparr>op_memorySize := Some memoryMStore8\<rparr>)"
    by (rule memory_sound, rule op_safety, rule gas_safety, simp, rule memory_sizes_safe, simp add: opcodes)+
  moreover have "op_sound X rn B is (SLOAD, plain opSload gasSLoad (makeStackFunc 1 1))"
    by (rule price_sound, rule op_safety, rule gas_safety, simp, simp add: opcodes)
  moreover have "op_sound X rn B is (SSTORE, (plain opSstore gasSStore (makeStackFunc 2 0))\<lparr>op_writes := True\<rparr>)"
    by (rule op_soundI [where lo = 5000]) (simp_all add: plain_def op_safety gas_safety opcodes)
  moreover have "op_sound X rn B is (RETURN, (plain opReturn gasReturn (makeStackFunc 2 0))
      \<lparr>op_memorySize := Some memoryReturn, op_halts := True\<rparr>)"
    by (rule op_soundI [where lo = 0 and pops = 2 and pushes = 0]) (simp_all add: plain_def op_safety gas_safety)
  moreover have "op_sound X rn B is (SELFDESTRUCT, (plain opSuicide gasSuicide (makeStackFunc 1 0))
      \<lparr>op_halts := True, op_writes := True\<rparr>)"
    by (rule op_soundI [where lo = 0]) (simp_all add: plain_def op_safety gas_safety del: One_nat_def)
  ultimately show ?thesis
    using jumps_safe [OF assms]
    by (simp add: frontier_sys_def const_sound op_safety gas_consts opcodes params del: One_nat_def)
qed

lemma unat_of_nat_u8: "n < 256 \<Longrightarrow> unat (of_nat n :: u8) = n"
  by (simp add: unat_of_nat take_bit_nat_eq_self)

lemma family_code: "0 < k + n \<Longrightarrow> k + n < 256 \<Longrightarrow> of_nat k + of_nat n \<noteq> (0 :: u8)"
  using unat_of_nat_u8 [of "k + n"] by (metis less_irrefl of_nat_add unat_0)

lemma frontier_families_sound:
  "\<forall>e \<in> set frontier_push \<union> set frontier_dup \<union> set frontier_swap \<union> set frontier_log. op_sound X rn B is e"
proof -
  have "op_sound X rn B is (PUSH n, plain (makePush (of_nat n) n) gasPush (makeStackFunc 0 1))" if "n < 33" for n
    using that family_code [of 95 n]
    by (intro price_sound [OF makePush_safe table_gas_safe(5)]) (simp_all add: opcodes)
  moreover have "op_sound X rn B is (DUP n, plain (makeDup n) gasDup (makeDupStackFunc n))" if "0 < n" "n < 17" for n
    using that family_code [of 127 n] unfolding makeDupStackFunc_def
    by (intro price_sound [OF makeDup_safe table_gas_safe(6)]) (simp_all add: opcodes)
  moreover have "op_sound X rn B is (SWAP n, plain (makeSwap n) gasSwap (makeSwapStackFunc (n + 1)))" if "n < 17" for n
    using that family_code [of 143 n] unfolding makeSwapStackFunc_def
    by (intro price_sound [OF makeSwap_safe table_gas_safe(7)]) (simp_all add: opcodes)
  moreover have "op_sound X rn B is (LOG n, (plain (makeLog n) (makeGasLog (of_nat n)) (makeStackFunc (n + 2) 0))
      \<lparr>op_memorySize := Some memoryLog, op_writes := True\<rparr>)" if "n < 5" for n
    using that family_code [of 160 n] makeLog_safe [of X rn n] makeGasLog_safe [of X "is" True n "of_nat n"]
      memory_sizes_safe(16) [of n]
    by (intro op_soundI [where lo = 375 and pops = "n + 2" and pushes = 0]) (simp_all add: plain_def opcodes)
  ultimately show ?thesis
    by (auto simp: frontier_push_def frontier_dup_def frontier_swap_def frontier_log_def)
qed

end
