(* ===== verification/PrecompileSafety.thy ===== *)
theory PrecompileSafety
  imports StepSafety
begin

text \<open>
  The precompiled contracts return on every input, and what they return is bounded. Modular
  exponentiation takes its lengths from the input; only the price, which grows with them, keeps
  them in range.
\<close>

section \<open>Modular exponentiation\<close>

lemma length_modexp_body: "length (modexp_body input) \<le> length input"
  by (simp add: modexp_body_def)

lemma modexp_mult_lower: "1 \<le> g \<Longrightarrow> 1 \<le> modexp_mult g"
  "1024 < g \<Longrightarrow> g * g div 16 \<le> modexp_mult g"
proof -
  show "1 \<le> modexp_mult g" if "1 \<le> g"
  proof -
    have "1 * 1 \<le> g * g"
      using that by (intro mult_mono) simp_all
    moreover have "0 \<le> g * g div 4" "0 \<le> g * g div 16"
      by (simp_all add: pos_imp_zdiv_nonneg_iff)
    ultimately show ?thesis
      by (simp add: modexp_mult_def)
  qed
qed (simp add: modexp_mult_def)

text \<open>If the price is below \<open>2 ^ 62\<close>, the lengths are in range.\<close>

lemma modexp_lengths:
  assumes "modexp_mult m * a div 20 < 2 ^ 62" "1 \<le> m" "1 \<le> a"
  shows "a < 21 * 2 ^ 62" "m < 2 ^ 36"
proof -
  have "p < 20 * 2 ^ 62" if "p div 20 < 2 ^ 62" for p :: int
    using that by linarith
  then have prod: "modexp_mult m * a < 20 * 2 ^ 62"
    using assms(1) by blast
  have "a \<le> modexp_mult m * a"
    using modexp_mult_lower(1) [OF assms(2)] assms(3) by (simp add: mult_le_cancel_right1)
  with prod show "a < 21 * 2 ^ 62" by simp
  have "modexp_mult m \<le> modexp_mult m * a"
    using modexp_mult_lower(1) [OF assms(2)] assms(3) by (simp add: mult_le_cancel_left1)
  with prod have mult: "modexp_mult m < 20 * 2 ^ 62" by simp
  show "m < 2 ^ 36"
  proof (rule ccontr)
    assume "\<not> m < 2 ^ 36"
    then have "2 ^ 36 * 2 ^ 36 \<le> m * m"
      by (intro mult_mono) simp_all
    then have "2 ^ 36 * 2 ^ 36 div 16 \<le> m * m div 16"
      by (rule zdiv_mono1) simp
    with modexp_mult_lower(2) [of m] mult \<open>\<not> m < 2 ^ 36\<close> show False
      by simp
  qed
qed

lemma word_data: "length input \<le> size_limit \<Longrightarrow> \<exists>d. getData input start 32 = Ret d \<and> length d = 32"
  using getData_length [of input 32 start] by simp

lemma modexp_gas_returns:
  assumes "length input \<le> size_limit"
  shows "\<exists>g bl el ml a. bigModExp_RequiredGas input = Ret g
    \<and> getData input 0 32 = Ret bl \<and> getData input 32 32 = Ret el \<and> getData input 64 32 = Ret ml
    \<and> 1 \<le> a \<and> 8 * (SetBytes el - 32) \<le> a
    \<and> (unat g < 2 ^ 62 \<longrightarrow> modexp_mult (BigMax (SetBytes ml) (SetBytes bl)) * a div 20 < 2 ^ 62)"
proof -
  obtain bl el ml where d: "getData input 0 32 = Ret bl" "getData input 32 32 = Ret el" "getData input 64 32 = Ret ml"
    using word_data [OF assms] by metis
  let ?b = "SetBytes bl" and ?e = "SetBytes el" and ?m = "SetBytes ml" and ?inp = "modexp_body input"
  have len: "length ?inp \<le> size_limit"
    using assms length_modexp_body [of input] by simp
  have "\<exists>h. getData ?inp (big_Uint64 ?b) (big_Uint64 ?e) = Ret h" if "\<not> ?e > 32"
  proof -
    have "unat (big_Uint64 ?e) \<le> 32"
      using that big_Uint64_small [of ?e] by simp
    then show ?thesis
      using getData_slice [OF len, of "big_Uint64 ?e" "big_Uint64 ?b"] by auto
  qed
  moreover have "\<exists>h. getData ?inp (big_Uint64 ?b) 32 = Ret h"
    using word_data [OF len] by blast
  ultimately have "\<exists>h. (if int (length ?inp) \<le> ?b then Ret [] else if ?e > 32 then getData ?inp (big_Uint64 ?b) 32
      else getData ?inp (big_Uint64 ?b) (big_Uint64 ?e)) = Ret h"
    by (cases "int (length ?inp) \<le> ?b"; cases "?e > 32") simp_all
  then obtain h where h: "(if int (length ?inp) \<le> ?b then Ret [] else if ?e > 32 then getData ?inp (big_Uint64 ?b) 32
      else getData ?inp (big_Uint64 ?b) (big_Uint64 ?e)) = Ret h"
    by blast
  define msb where "msb = (if BitLen (SetBytes h) > 0 then BitLen (SetBytes h) - 1 else 0)"
  define a where "a = BigMax ((if ?e > 32 then 8 * (?e - 32) else 0) + int msb) 1"
  define gas where "gas = modexp_mult (BigMax ?m ?b) * a div 20"
  have g: "bigModExp_RequiredGas input = Ret (if BitLen gas > 64 then MaxUint64 else big_Uint64 gas)"
    using d h by (simp add: bigModExp_RequiredGas_def Let_def msb_def [symmetric] a_def [symmetric]
        gas_def [symmetric] ModExpQuadCoeffDiv_def)
  have a: "1 \<le> a" "8 * (?e - 32) \<le> a"
    by (auto simp: a_def BigMax_def)
  have "0 \<le> modexp_mult (BigMax ?m ?b)"
    using modexp_mult_lower(1) [of "BigMax ?m ?b"]
    by (cases "BigMax ?m ?b = 0") (auto simp: modexp_mult_def BigMax_def)
  then have "0 \<le> gas"
    using a by (simp add: gas_def pos_imp_zdiv_nonneg_iff)
  then have "gas < 2 ^ 62" if "unat (if BitLen gas > 64 then MaxUint64 else big_Uint64 gas) < 2 ^ 62"
    using that unat_big_Uint64 [of gas] by (auto simp: MaxUint64_def unsigned_minus_1_eq_mask mask_eq_exp_minus_1 nat_less_iff split: if_splits)
  with g d a show ?thesis
    unfolding gas_def by blast
qed

lemma length_big_Bytes: "0 \<le> x \<Longrightarrow> x < 256 ^ n \<Longrightarrow> length (big_Bytes x) \<le> n"
proof -
  assume x: "0 \<le> x" "x < 256 ^ n"
  have "(256 :: int) ^ n = 2 ^ (8 * n)"
    by (simp add: power_mult)
  with x have "BitLen x \<le> 8 * n"
    by (simp add: BitLen_le)
  then show ?thesis
    by (simp add: big_Bytes_def)
qed

lemma modexp_run:
  assumes len: "length input \<le> size_limit" and "bigModExp_RequiredGas input = Ret g" "unat g < 2 ^ 62"
  shows "yields (bigModExp_Run input) (\<lambda>ret. length ret \<le> size_limit)"
proof -
  from modexp_gas_returns [OF len] assms(2,3) obtain bl el ml a where
    d: "getData input 0 32 = Ret bl" "getData input 32 32 = Ret el" "getData input 64 32 = Ret ml"
    and a: "1 \<le> a" "8 * (SetBytes el - 32) \<le> a"
    and price: "modexp_mult (BigMax (SetBytes ml) (SetBytes bl)) * a div 20 < 2 ^ 62"
    by auto
  let ?b = "SetBytes bl" and ?e = "SetBytes el" and ?m = "SetBytes ml" and ?inp = "modexp_body input"
  have inp: "length ?inp \<le> size_limit"
    using len length_modexp_body [of input] by simp
  show ?thesis
  proof (cases "big_Uint64 ?b = 0 \<and> big_Uint64 ?m = 0")
    case True
    then show ?thesis
      using d by (simp add: bigModExp_Run_def Let_def size_limit_def)
  next
    case False
    have "1 \<le> BigMax ?m ?b"
    proof (rule ccontr)
      assume "\<not> 1 \<le> BigMax ?m ?b"
      moreover have "?m \<le> BigMax ?m ?b" "?b \<le> BigMax ?m ?b"
        by (simp_all add: BigMax_def)
      ultimately have "?m = 0 \<and> ?b = 0"
        using SetBytes_nonneg [of ml] SetBytes_nonneg [of bl] by linarith
      with False show False
        by (simp add: big_Uint64_def)
    qed
    from modexp_lengths [OF price this a(1)] have r: "a < 21 * 2 ^ 62" "BigMax ?m ?b < 2 ^ 36" .
    then have m: "?m < 2 ^ 36" "?b < 2 ^ 36" and e: "?e < 2 ^ 64 - 2 ^ 41"
      using a(2) by (auto simp: BigMax_def split: if_splits)
    have u: "unat (big_Uint64 ?m) = nat ?m" "unat (big_Uint64 ?b) = nat ?b" "unat (big_Uint64 ?e) = nat ?e"
      using m e by (simp_all add: big_Uint64_small)
    have "nat ?e < 2 ^ 64 - 2 ^ 41"
      using e by (simp add: nat_less_iff)
    then have "nat ?e + 2 ^ 40 < 2 ^ 64"
      by simp
    then obtain ed where ed: "getData ?inp (big_Uint64 ?b) (big_Uint64 ?e) = Ret ed"
      using getData_slice [OF inp, of "big_Uint64 ?e" "big_Uint64 ?b"] u(3) by auto
    have mn: "nat ?m < 2 ^ 63" "nat ?b < 2 ^ 63" "nat ?m \<le> size_limit"
      using m by (simp_all add: nat_less_iff nat_le_iff size_limit_def)
    obtain bd md where bd: "getData ?inp 0 (big_Uint64 ?b) = Ret bd"
      and md: "getData ?inp (big_Uint64 ?b + big_Uint64 ?e) (big_Uint64 ?m) = Ret md" "length md = nat ?m"
      using getData_length [OF inp, of "big_Uint64 ?b" 0]
        getData_length [OF inp, of "big_Uint64 ?m" "big_Uint64 ?b + big_Uint64 ?e"] mn u by auto
    have s: "nat (sint (big_Uint64 ?m)) = nat ?m"
      using sint_u64 [of "big_Uint64 ?m"] u(1) mn(1) by simp
    let ?v = "SetBytes bd ^ nat (SetBytes ed) mod SetBytes md"
    have "length (big_Bytes ?v) \<le> nat ?m" if "SetBytes md \<noteq> 0"
    proof -
      have "0 < SetBytes md"
        using that SetBytes_nonneg [of md] by linarith
      then have "0 \<le> ?v" "?v < SetBytes md"
        by simp_all
      moreover have "SetBytes md < 256 ^ nat ?m"
        using SetBytes_less [of md] md(2) by simp
      ultimately have "0 \<le> ?v" "?v < 256 ^ nat ?m"
        by linarith+
      then show ?thesis
        by (rule length_big_Bytes)
    qed
    then show ?thesis
      using d False ed bd md mn(3) s
      by (auto simp: bigModExp_Run_def Let_def length_LeftPadBytes)
  qed
qed

section \<open>All contracts\<close>

lemma curve_runs:
  assumes "crypto_ok X" "length input \<le> size_limit"
  shows "yields (bn256Add_Run X input) (\<lambda>(ret, err). length ret \<le> size_limit)"
    and "yields (bn256ScalarMul_Run X input) (\<lambda>(ret, err). length ret \<le> size_limit)"
proof -
  have m: "length (bn256_G1_Marshal X p) \<le> size_limit" for p
  proof -
    have "length (bn256_G1_Marshal X p) \<le> 64"
      using assms(1) by (simp add: crypto_ok_def)
    then show ?thesis
      by (simp add: size_limit_def)
  qed
  obtain d e h where d: "getData input 0 64 = Ret d" "getData input 64 64 = Ret e" "getData input 64 32 = Ret h"
    using getData_length [OF assms(2), of 64 0] getData_length [OF assms(2), of 64 64]
      getData_length [OF assms(2), of 32 64] by auto
  show "yields (bn256Add_Run X input) (\<lambda>(ret, err). length ret \<le> size_limit)"
    using d m by (simp add: bn256Add_Run_def split: sum.splits)
  show "yields (bn256ScalarMul_Run X input) (\<lambda>(ret, err). length ret \<le> size_limit)"
    using d m by (simp add: bn256ScalarMul_Run_def split: sum.splits)
qed

lemma ecrecover_run:
  assumes "crypto_ok X"
  shows "yields (ecrecover_Run X input) (\<lambda>(ret, inp). length ret \<le> size_limit)"
proof -
  have "length (LeftPadBytes (drop 12 (Hash_Bytes h)) 32) \<le> size_limit" for h
    by (simp add: length_LeftPadBytes Hash_Bytes_def size_limit_def)
  moreover have "crypto_Ecrecover X h sig \<noteq> Some []" for h sig
    using assms unfolding crypto_ok_def by blast
  ultimately show ?thesis
    by (simp add: ecrecover_Run_def Let_def append_v_def split: option.splits)
qed

lemma pre_Run_returns:
  assumes "crypto_ok X" "length input \<le> size_limit" "RequiredGas p input = Ret g" "unat g < 2 ^ 62"
  shows "yields (pre_Run X p input) (\<lambda>(ret, err). length ret \<le> size_limit)"
proof (cases p)
  case ecrecover
  then show ?thesis
    using ecrecover_run [OF assms(1), of input] by (auto elim!: yields_mono)
next
  case ripemd160hash
  have "length (ripemd160_Sum X input) \<le> 32"
    using assms(1) by (simp add: crypto_ok_def)
  then show ?thesis
    using ripemd160hash by (simp add: ripemd160hash_Run_def length_LeftPadBytes size_limit_def)
next
  case bigModExp
  then show ?thesis
    using modexp_run [OF assms(2)] assms(3,4) by simp
next
  case bn256Pairing
  have "length true32Byte \<le> size_limit" "length false32Byte \<le> size_limit"
    by (simp_all add: true32Byte_def false32Byte_def size_limit_def)
  then show ?thesis
    using bn256Pairing by (simp add: bn256Pairing_Run_def split: sum.splits prod.splits)
qed (use curve_runs [OF assms(1,2)] assms(2) in
    \<open>simp_all add: sha256hash_Run_def Hash_Bytes_def dataCopy_Run_def size_limit_def\<close>)

lemma RequiredGas_returns: "length input \<le> size_limit \<Longrightarrow> \<exists>g. RequiredGas p input = Ret g"
  using modexp_gas_returns [of input] by (cases p) auto

lemma RunPrecompiledContract_returns:
  assumes "crypto_ok X" "length input \<le> size_limit" "unat (c_Gas c) < 2 ^ 62"
  shows "yields (RunPrecompiledContract X p input c)
    (\<lambda>(ret, err, c'). length ret \<le> size_limit \<and> unat (c_Gas c') \<le> unat (c_Gas c))"
proof -
  obtain g where g: "RequiredGas p input = Ret g"
    using RequiredGas_returns [OF assms(2)] by blast
  show ?thesis
  proof (cases "c_Gas c < g")
    case True
    then show ?thesis
      using g by (simp add: RunPrecompiledContract_def UseGas_def size_limit_def)
  next
    case False
    then have le: "unat g \<le> unat (c_Gas c)"
      by (simp add: word_less_nat_alt)
    with assms(3) have "unat g < 2 ^ 62"
      by simp
    from pre_Run_returns [OF assms(1,2) g this] show ?thesis
      using g False le
      by (auto simp: RunPrecompiledContract_def UseGas_def unat_sub word_le_nat_alt elim!: yields_mono)
  qed
qed

end
