(* ===== verification/CallSafety.thy ===== *)
theory CallSafety
  imports PrecompileSafety
begin

text \<open>
  Calls and contract creation. What they need from the interpreter is the locale \<open>callee\<close>: given less
  than \<open>B\<close> gas it returns, keeps the invariants, and does not return more gas than it got. From that
  contract follow the four calls, creation, and the instructions that perform them.
\<close>

section \<open>Results of calls\<close>

text \<open>Code that runs in \<open>frozen_mode\<close> must not write.\<close>

definition frozen_mode :: "EVM \<Rightarrow> bool \<Rightarrow> bool" where
  "frozen_mode evm ro \<longleftrightarrow> rIsByzantium (chainRules evm) \<and> (readOnly evm \<or> ro)"

definition run_post ::
  "crypto \<Rightarrow> EVM \<Rightarrow> Contract \<Rightarrow> bool \<Rightarrow> bytes \<times> vm_error option \<times> Contract \<times> EVM \<Rightarrow> bool" where
  "run_post X evm c ro r \<longleftrightarrow>
     (case r of (ret, err, c', evm') \<Rightarrow> evm_ok X evm' \<and> evm_rel X (frozen_mode evm ro) evm evm'
        \<and> unat (c_Gas c') \<le> unat (c_Gas c) \<and> length ret \<le> size_limit)"

definition call_post ::
  "crypto \<Rightarrow> bool \<Rightarrow> EVM \<Rightarrow> u64 \<Rightarrow> bytes \<times> u64 \<times> vm_error option \<times> EVM \<Rightarrow> bool" where
  "call_post X ro evm gas r \<longleftrightarrow>
     (case r of (ret, left, err, evm') \<Rightarrow> evm_ok X evm' \<and> evm_rel X ro evm evm'
        \<and> unat left \<le> unat gas \<and> length ret \<le> size_limit
        \<and> (err \<noteq> None \<longrightarrow> view X (sdb evm') = view X (sdb evm)))"

lemma srel_mono: "srel X ro s t \<Longrightarrow> (ro' \<Longrightarrow> ro) \<Longrightarrow> srel X ro' s t"
  by (auto simp: srel_def)

lemma evm_rel_mono: "evm_rel X ro a b \<Longrightarrow> (ro' \<Longrightarrow> ro) \<Longrightarrow> evm_rel X ro' a b"
  by (auto simp: evm_rel_def elim: srel_mono)

lemma frozen_mode_same: "same_setting evm evm' \<Longrightarrow> frozen_mode evm' ro = frozen_mode evm ro"
  by (simp add: frozen_mode_def same_setting_def)

lemma static_frozen: "static evm \<Longrightarrow> frozen_mode evm ro"
  by (simp add: static_def frozen_mode_def)

lemma evm_ok_state: "evm_ok X evm \<Longrightarrow> state_ok X (sdb evm)" "evm_ok X evm \<Longrightarrow> wf_state X (sdb evm)"
  by (simp_all add: evm_ok_def state_ok_def)

lemma call_post_quiet:
  assumes "evm_ok X evm" "quiet X (sdb evm) s" "unat left \<le> unat gas"
  shows "call_post X ro evm gas ([], left, err, evm\<lparr>sdb := s\<rparr>)"
proof -
  have r: "srel X ro (sdb evm) s"
    using assms by (simp add: srel_quiet evm_ok_state)
  then show ?thesis
    using assms evm_ok_sdb [OF assms(1) r] evm_rel_sdb [OF r]
    by (simp add: call_post_def quiet_view size_limit_def)
qed

lemma call_post_same: "evm_ok X evm \<Longrightarrow> call_post X ro evm gas ([], gas, err, evm)"
  using call_post_quiet [of X evm "sdb evm" gas gas ro err] by (simp add: quiet_refl evm_ok_state)

lemma consume_on_le: "unat (c_Gas (consume_on err c)) \<le> unat (c_Gas c)"
  by (simp add: consume_on_def UseGas_def)

text \<open>Going back to the snapshot.\<close>

lemma revert_evm_quiet:
  assumes "evm_ok X evm" "quiet X (sdb evm) s0" "Snapshot s0 = (s1, rid)"
    and "extends X s1 (sdb evm')" "evm_ok X evm'" "same_setting evm evm'"
  shows "\<exists>s3. revert_evm X rid evm' = Ret (evm'\<lparr>sdb := s3\<rparr>) \<and> quiet X (sdb evm) s3
    \<and> evm_ok X (evm'\<lparr>sdb := s3\<rparr>) \<and> evm_rel X ro evm (evm'\<lparr>sdb := s3\<rparr>)"
proof -
  from RevertToSnapshot_restores [OF quiet_wf [OF assms(2)] assms(3,4)]
  obtain s3 where s3: "RevertToSnapshot X rid (sdb evm') = Ret s3" "quiet X s0 s3"
    by blast
  have q: "quiet X (sdb evm) s3"
    using assms(2) s3(2) by (rule quiet_trans)
  then have r: "srel X ro (sdb evm) s3"
    using assms(1) by (simp add: srel_quiet evm_ok_state)
  have "evm_ok X (evm'\<lparr>sdb := s3\<rparr>)"
    using assms(5) srel_ok [OF r] evm_ok_change [OF assms(5), of "evm'\<lparr>sdb := s3\<rparr>"]
    by (simp add: same_setting_def evm_ok_def jumps_ok_def)
  moreover have "evm_rel X ro evm (evm'\<lparr>sdb := s3\<rparr>)"
    using assms(6) r by (simp add: evm_rel_def same_setting_def)
  ultimately show ?thesis
    using s3(1) q unfolding revert_evm_def by (intro exI [of _ s3]) simp
qed

lemma call_end_post:
  assumes ok: "evm_ok X evm" "quiet X (sdb evm) s0" "Snapshot s0 = (s1, rid)"
    and evm2: "srel X ro s1 (sdb evm2)" "same_setting evm evm2" "ro \<Longrightarrow> frozen_mode evm ro'"
    and post: "run_post X evm2 c ro' r"
  shows "yields (call_end X rid r) (call_post X ro evm (c_Gas c))"
proof -
  obtain ret err c' evm' where r: "r = (ret, err, c', evm')"
    by (cases r) auto
  note p = post [unfolded run_post_def r, simplified]
  have s: "srel X ro (sdb evm) s1"
    using srel_trans [OF srel_quiet [OF evm_ok_state(1) [OF ok(1)] ok(2)]]
      Snapshot_srel [OF srel_ok [OF srel_quiet [OF evm_ok_state(1) [OF ok(1)] ok(2)]] ok(3)] by blast
  have r2: "srel X ro (sdb evm2) (sdb evm')" "same_setting evm evm'"
    using p evm2 frozen_mode_same [OF evm2(2)]
    by (auto simp: evm_rel_def intro: srel_mono same_setting_trans)
  have "extends X s1 (sdb evm')"
    using srel_trans [OF evm2(1) r2(1)] by (rule srel_extends)
  from revert_evm_quiet [OF ok this _ r2(2)] p obtain s3 where
    "revert_evm X rid evm' = Ret (evm'\<lparr>sdb := s3\<rparr>)" "quiet X (sdb evm) s3"
    "evm_ok X (evm'\<lparr>sdb := s3\<rparr>)" "evm_rel X ro evm (evm'\<lparr>sdb := s3\<rparr>)"
    by blast
  moreover have "evm_rel X ro evm evm'"
    using srel_trans [OF s srel_trans [OF evm2(1) r2(1)]] r2(2) by (simp add: evm_rel_def)
  ultimately show ?thesis
    using p le_trans [OF consume_on_le, of c' "unat (c_Gas c)"] r
    by (cases err) (simp_all add: call_end_def call_post_def quiet_view)
qed

section \<open>Entering a callee\<close>

text \<open>A new contract before its code is set.\<close>

definition blank :: "u64 \<Rightarrow> Contract \<Rightarrow> bool" where
  "blank gas c \<longleftrightarrow> c_analysis c = None \<and> c_Input c = [] \<and> w256 (c_value c) \<and> c_Gas c = gas"

lemma NewContract_blank:
  assumes "NewContract caller obj val gas evm = (c, evm1)" "w256 val"
  shows "blank gas c" "same_setting evm evm1" "sdb evm1 = sdb evm" "evm_ok X evm \<Longrightarrow> evm_ok X evm1"
proof -
  show s: "blank gas c" "same_setting evm evm1" "sdb evm1 = sdb evm"
    using assms by (auto simp: NewContract_def blank_def same_setting_def split: ContractRef.splits)
  show "evm_ok X evm1" if "evm_ok X evm"
    by (rule evm_ok_change [OF that s(2)])
      (use that assms(1) s(3) in \<open>auto simp: evm_ok_def jumps_ok_def NewContract_def split: ContractRef.splits\<close>)
qed

lemma load_code_ok:
  assumes "load_code X addr c evm = (c2, evm2)" "evm_ok X evm" "blank gas c" "unat gas < 2 ^ 62"
  shows "contract_ok X c2" "c_Gas c2 = gas" "evm_ok X evm2" "same_setting evm evm2" "quiet X (sdb evm) (sdb evm2)"
proof -
  obtain s1 h where h: "GetCodeHash X addr (sdb evm) = (s1, h)" by fastforce
  obtain s2 code where code: "GetCode X addr s1 = (s2, code)" by fastforce
  have q1: "quiet X (sdb evm) s1" "h = codehash_of (view X (sdb evm)) addr"
    using GetCodeHash_spec [OF evm_ok_state(2) [OF assms(2)], of addr] h by simp_all
  have q2: "quiet X s1 s2" "code = vcode_of (view X (sdb evm)) addr"
    using GetCode_spec [OF quiet_wf [OF q1(1)], of addr] code quiet_view [OF q1(1)] by simp_all
  have eq: "c2 = SetCallCode addr h code c" "evm2 = evm\<lparr>sdb := s2\<rparr>"
    using assms(1) h code by (simp_all add: load_code_def)
  show q: "quiet X (sdb evm) (sdb evm2)"
    using quiet_trans [OF q1(1) q2(1)] eq by simp
  show "same_setting evm evm2"
    using eq by (simp add: same_setting_def)
  show "evm_ok X evm2"
    using evm_ok_sdb [OF assms(2) srel_quiet [OF evm_ok_state(1) [OF assms(2)] quiet_trans [OF q1(1) q2(1)]]] eq
    by simp
  show "c_Gas c2 = gas"
    using eq assms(3) by (simp add: SetCallCode_def blank_def)
  show "contract_ok X c2"
    using eq assms(3,4) vcode_codehash [OF evm_ok_state(1) [OF assms(2)], of addr] q1(2) q2(2)
    by (auto simp: contract_ok_def SetCallCode_def blank_def)
qed

section \<open>Transfers\<close>

lemma CanTransfer_spec:
  assumes "wf_state X s" "CanTransfer X a v s = (s1, b)"
  shows "quiet X s s1" "b = (v \<le> balance_of (view X s) a)"
  using GetBalance_spec [OF assms(1), of a] assms(2) by (auto simp: CanTransfer_def split: prod.splits)

lemma Transfer_srel:
  assumes "state_ok X s" "0 \<le> v" "v \<le> balance_of (view X s) a" "ro \<Longrightarrow> v = 0"
  shows "srel X ro s (Transfer X a b v s)"
proof -
  have 1: "extends X s (SubBalance X a v s)" "view X (SubBalance X a v s)
      = upd_account X (stateReader s) a (\<lambda>u. u\<lparr>v_balance := v_balance u - v\<rparr>) (view X s)"
    using SubBalance_refines [of X s a v] assms(1) by (simp_all add: state_ok_def)
  have 2: "extends X (SubBalance X a v s) (Transfer X a b v s)"
    "view X (Transfer X a b v s) = move X (stateReader s) a b v (view X s)"
    using AddBalance_refines [OF extends_wf [OF 1(1)], of b v] extends_reader [OF 1(1)] 1(2)
    by (simp_all add: Transfer_def move_def)
  show ?thesis
    using extends_trans [OF 1(1) 2(1)] 2(2) move_ok [of X "view X s" v a "stateReader s" b]
      move_zero_frozen [of X "stateReader s" "view X s" a b] assms
    by (intro srelI) (auto simp: state_ok_def)
qed

lemma balance_kept:
  assumes "wf_state X s"
  shows "balance_of (view X (SetNonce X a n s)) = balance_of (view X s)"
    "balance_of (view X (CreateAccount X a True s)) = balance_of (view X s)"
    "accounts (view X s) a = None \<Longrightarrow> balance_of (view X (CreateAccount X a False s)) = balance_of (view X s)"
proof -
  show "balance_of (view X (SetNonce X a n s)) = balance_of (view X s)"
    using SetNonce_refines [OF assms, of a n] by (simp add: upd_account_def balance_put balance_get_or_fresh)
  have "v_balance (reset_account X (stateReader s) a (account_at X s a)) = balance_of (view X s) a"
    by (simp add: reset_account_def fresh_account_def balance_of_def accounts_view split: option.splits)
  then show "balance_of (view X (CreateAccount X a True s)) = balance_of (view X s)"
    using CreateAccount_refines [OF assms, of True a] by (simp add: balance_put)
  show "balance_of (view X (CreateAccount X a False s)) = balance_of (view X s)" if "accounts (view X s) a = None"
    using CreateAccount_refines [OF assms, of False a] that
    by (auto simp: reset_account_def accounts_view balance_put fresh_account_def balance_of_def)
qed

text \<open>\<open>Call\<close> up to the transfer: the account exists afterwards, and the value can be moved.\<close>

lemma Call_transfer:
  assumes ok: "state_ok X s" and exist: "Exist X addr s = (s3, ex)"
    and val: "0 \<le> val" "val \<le> balance_of (view X s) a" "ro \<Longrightarrow> val = 0"
  shows "srel X ro s (Transfer X a addr val (if ex then s3 else CreateAccount X addr False s3))"
proof -
  have 3: "quiet X s s3" "ex = (accounts (view X s) addr \<noteq> None)"
    using Exist_spec [of X s addr] exist ok by (simp_all add: state_ok_def)
  have k3: "srel X ro s s3" "view X s3 = view X s"
    using srel_quiet [OF ok 3(1)] quiet_view [OF 3(1)] by simp_all
  then have ok3: "state_ok X s3"
    using srel_ok by blast
  let ?s4 = "if ex then s3 else CreateAccount X addr False s3"
  have 4: "srel X ro s3 ?s4" "balance_of (view X ?s4) = balance_of (view X s)"
    using 3(2) k3 ok3 balance_kept(3) [of X s3 addr] CreateAccount_absent_srel [of X s3 addr]
    by (auto simp: srel_refl state_ok_def)
  have "srel X ro ?s4 (Transfer X a addr val ?s4)"
    using val 4(2) by (intro Transfer_srel srel_ok [OF 4(1)]) simp_all
  then show ?thesis
    using srel_trans [OF k3(1) srel_trans [OF 4(1)]] by blast
qed

section \<open>Creation\<close>

text \<open>After a failed creation the state is as before, up to the creator's nonce. (Before Homestead, code
  that could not be paid for was an error that undid nothing.)\<close>

definition only_nonce :: "crypto \<Rightarrow> StateReader \<Rightarrow> address \<Rightarrow> state_view \<Rightarrow> state_view \<Rightarrow> bool" where
  "only_nonce X r a w w' \<longleftrightarrow>
     w' = w \<or> w' = upd_account X r a (\<lambda>v. v\<lparr>v_nonce := nonce_of w a + 1\<rparr>) w"

definition create_post ::
  "crypto \<Rightarrow> address \<Rightarrow> EVM \<Rightarrow> u64 \<Rightarrow> bytes \<times> address \<times> u64 \<times> vm_error option \<times> EVM \<Rightarrow> bool" where
  "create_post X a evm gas r \<longleftrightarrow>
     (case r of (ret, addr, left, err, evm') \<Rightarrow> evm_ok X evm' \<and> evm_rel X False evm evm'
        \<and> unat left \<le> unat gas \<and> length ret \<le> size_limit
        \<and> (err \<noteq> None \<longrightarrow> err \<noteq> Some ErrCodeStoreOutOfGas \<or> IsHomestead (chainConfig evm) (block_num evm)
             \<longrightarrow> only_nonce X (stateReader (sdb evm)) a (view X (sdb evm)) (view X (sdb evm'))))"

lemma store_code_ok:
  assumes "store_code X addr ret c evm = (err, c', evm')" "evm_ok X evm" "length ret \<le> size_limit"
  shows "evm_ok X evm'" "evm_rel X False evm evm'" "unat (c_Gas c') \<le> unat (c_Gas c)"
    "err \<in> {None, Some ErrCodeStoreOutOfGas}"
proof -
  note r = SetCode_srel [OF evm_ok_state(1) [OF assms(2)] assms(3), of addr]
  show "evm_ok X evm'" "evm_rel X False evm evm'" "unat (c_Gas c') \<le> unat (c_Gas c)"
    "err \<in> {None, Some ErrCodeStoreOutOfGas}"
    using assms evm_ok_sdb [OF assms(2) r] evm_rel_sdb [OF r] evm_rel_refl [OF assms(2)]
    by (auto simp: store_code_def UseGas_def unat_sub not_less word_le_nat_alt split: if_splits)
qed

lemma create_end_post:
  assumes ok: "evm_ok X evm" "evm_ok X (evm\<lparr>sdb := s0\<rparr>)" "srel X False (sdb evm) s0" "Snapshot s0 = (s1, rid)"
    and undone: "only_nonce X (stateReader (sdb evm)) a (view X (sdb evm)) (view X s0)"
    and evm2: "srel X False s1 (sdb evm2)" "same_setting evm evm2"
    and post: "run_post X evm2 c False r"
  shows "yields (create_end X addr rid r) (create_post X a evm (c_Gas c))"
proof -
  obtain ret err0 c0 evm0 where r: "r = (ret, err0, c0, evm0)"
    by (cases r) auto
  note p = post [unfolded run_post_def r, simplified]
  define big where "big = (IsEIP158 (chainConfig evm0) (block_num evm0) \<and> MaxCodeSize < length ret)"
  obtain err c' evm' where st: "(if err0 = None \<and> \<not> big then store_code X addr ret c0 evm0 else (err0, c0, evm0)) = (err, c', evm')"
    by (cases "if err0 = None \<and> \<not> big then store_code X addr ret c0 evm0 else (err0, c0, evm0)") auto
  have s: "evm_ok X evm'" "evm_rel X False evm0 evm'" "unat (c_Gas c') \<le> unat (c_Gas c)"
    using st p store_code_ok [of X addr ret c0 evm0 err c' evm'] evm_rel_refl [of X evm0 False]
    by (auto split: if_splits)
  have same: "same_setting evm evm0" "same_setting evm evm'"
    using p s(2) evm2(2) by (auto simp: evm_rel_def intro: same_setting_trans)
  have rel: "srel X False s1 (sdb evm')"
    using srel_trans [OF evm2(1) srel_trans [OF srel_mono srel_mono]] p s(2) unfolding evm_rel_def by blast
  have "same_setting (evm\<lparr>sdb := s0\<rparr>) evm'"
    using same(2) by (simp add: same_setting_def)
  from revert_evm_quiet [OF ok(2) _ ok(4) srel_extends [OF rel] s(1) this, of False] obtain s3 where
    s3: "revert_evm X rid evm' = Ret (evm'\<lparr>sdb := s3\<rparr>)" "quiet X s0 s3"
      "evm_ok X (evm'\<lparr>sdb := s3\<rparr>)" "evm_rel X False (evm\<lparr>sdb := s0\<rparr>) (evm'\<lparr>sdb := s3\<rparr>)"
    using quiet_refl [OF evm_ok_state(2) [OF ok(2)]] by auto
  have e3: "evm_rel X False evm (evm'\<lparr>sdb := s3\<rparr>)"
    using evm_rel_trans [OF evm_rel_sdb [OF ok(3)] s3(4)] .
  have e': "evm_rel X False evm evm'"
    using srel_trans [OF ok(3) srel_trans [OF Snapshot_srel [OF srel_ok [OF ok(3)] ok(4)] rel]] same(2)
    by (simp add: evm_rel_def)
  have settings: "chainConfig evm0 = chainConfig evm" "block_num evm0 = block_num evm"
    using same(1) by (simp_all add: same_setting_def)
  show ?thesis
    using p s s3 e3 e' undone le_trans [OF consume_on_le s(3), of err] quiet_view [OF s3(2)]
    unfolding create_end_def r prod.case Let_def big_def [symmetric] st
    by (auto simp: create_post_def settings)
qed

text \<open>The new account: it had no code, so that it may be reset; it gets the value.\<close>

lemma new_account_srel:
  assumes "crypto_ok X" "state_ok X s" "codehash_of (view X s) addr \<in> {0, emptyCodeHash X}"
    and "0 \<le> val" "val \<le> balance_of (view X s) a"
  shows "srel X False s (Transfer X a addr val
    (if b then SetNonce X addr 1 (CreateAccount X addr True s) else CreateAccount X addr True s))"
proof -
  have "v_codehash v = emptyCodeHash X" if "accounts (view X s) addr = Some v" for v
  proof -
    have "code_ok X v"
      using that assms(2) by (auto simp: state_ok_def view_ok_def codes_ok_def)
    then have "v_codehash v \<noteq> 0"
      using assms(1) by (simp add: code_ok_def crypto_ok_def)
    then show ?thesis
      using that assms(3) by (simp add: codehash_of_def)
  qed
  then have 7: "srel X False s (CreateAccount X addr True s)"
    by (intro CreateAccount_srel [OF assms(2)]) blast
  let ?s7 = "CreateAccount X addr True s"
  let ?s8 = "if b then SetNonce X addr 1 ?s7 else ?s7"
  have 8: "srel X False ?s7 ?s8"
    using SetNonce_srel [OF srel_ok [OF 7]] srel_refl [OF srel_ok [OF 7]] by simp
  have "balance_of (view X ?s8) = balance_of (view X s)"
    using balance_kept(2) [of X s addr] balance_kept(1) [of X ?s7 addr 1] assms(2) srel_ok [OF 7]
    by (simp add: state_ok_def)
  then have "srel X False ?s8 (Transfer X a addr val ?s8)"
    using assms by (intro Transfer_srel srel_ok [OF 8]) simp_all
  then show ?thesis
    using srel_trans [OF 7 srel_trans [OF 8]] by blast
qed

text \<open>The state in which \<open>create\<close> takes its snapshot.\<close>

lemma create_nonce:
  assumes "state_ok X s" "GetNonce X a s = (s2, nonce)" "GetCodeHash X addr (SetNonce X a (nonce + 1) s2) = (s4, h)"
    and "GetNonce X addr s4 = (s5, n)"
  shows "srel X False s s5" "only_nonce X (stateReader s) a (view X s) (view X s5)"
    "h = codehash_of (view X s5) addr" "balance_of (view X s5) = balance_of (view X s)"
proof -
  have wf: "wf_state X s"
    using assms(1) by (simp add: state_ok_def)
  have 2: "quiet X s s2" "nonce = nonce_of (view X s) a"
    using GetNonce_spec [OF wf, of a] assms(2) by simp_all
  note r2 = srel_quiet [OF assms(1) 2(1)]
  let ?s3 = "SetNonce X a (nonce + 1) s2"
  note r3 = SetNonce_srel [OF srel_ok [OF r2], of a "nonce + 1"]
  have wf3: "wf_state X ?s3"
    using srel_ok [OF r3] by (simp add: state_ok_def)
  have 4: "quiet X ?s3 s4" "h = codehash_of (view X ?s3) addr"
    using GetCodeHash_spec [OF wf3, of addr] assms(3) by simp_all
  have 5: "quiet X s4 s5"
    using GetNonce_spec [OF quiet_wf [OF 4(1)], of addr] assms(4) by simp
  have q: "quiet X ?s3 s5"
    using 4(1) 5 by (rule quiet_trans)
  show "srel X False s s5"
    using srel_trans [OF r2 srel_trans [OF r3 srel_quiet [OF srel_ok [OF r3] q]]] .
  have v: "view X s5 = view X ?s3"
    by (rule quiet_view [OF q])
  then show "h = codehash_of (view X s5) addr"
    using 4(2) by simp
  show "balance_of (view X s5) = balance_of (view X s)"
    using v balance_kept(1) [OF quiet_wf [OF 2(1)]] quiet_view [OF 2(1)] by simp
  show "only_nonce X (stateReader s) a (view X s) (view X s5)"
    using v SetNonce_refines [OF quiet_wf [OF 2(1)], of a "nonce + 1"] quiet_view [OF 2(1)]
      quiet_reader [OF 2(1)] 2(2) by (simp add: only_nonce_def)
qed

lemma create_post_same:
  assumes "evm_ok X evm" "srel X False (sdb evm) s" "unat left \<le> unat gas"
    and "only_nonce X (stateReader (sdb evm)) a (view X (sdb evm)) (view X s)"
  shows "create_post X a evm gas ([], addr, left, err, evm\<lparr>sdb := s\<rparr>)"
  using assms evm_ok_sdb [OF assms(1,2)] evm_rel_sdb [OF assms(2)]
  by (simp add: create_post_def size_limit_def)

lemma CreateAddress_returns: "\<exists>addr. CreateAddress X a n = Ret addr"
proof -
  have short: "length (string_enc b) \<le> length b + 1" "length (list_enc b) \<le> length b + 1"
    if "length b < 56" for b
    using that by (simp_all add: string_enc_def list_enc_def rlp_head_def)
  have "length (big_Bytes (uint n)) \<le> 8"
    using uint_u64_less [of n] by (intro length_big_Bytes) simp_all
  moreover have "length (Address_Bytes a) = 20"
    by (simp add: Address_Bytes_def)
  ultimately have "length (string_enc (Address_Bytes a) @ string_enc (big_Bytes (uint n))) \<le> 30"
    using short(1) [of "Address_Bytes a"] short(1) [of "big_Bytes (uint n)"] by simp
  then have "length (rlp_enc (RList [RBytes (Address_Bytes a), RUint n])) < 2 ^ 64"
    using short(2) [of "string_enc (Address_Bytes a) @ string_enc (big_Bytes (uint n))"] by simp
  then show ?thesis
    unfolding CreateAddress_def by (simp only: EncodeToBytes_eq go_bind.simps, blast)
qed

section \<open>Calls\<close>

text \<open>The contract between calls and the interpreter.\<close>

locale callee =
  fixes X :: crypto and rn :: runner and B :: nat
  assumes runs: "crypto_ok X \<Longrightarrow> evm_ok X evm \<Longrightarrow> contract_ok X c \<Longrightarrow> length input \<le> size_limit
    \<Longrightarrow> unat (c_Gas c) < B \<Longrightarrow> yields (rn evm c input ro) (run_post X evm c ro)"
begin

lemma run_and_end:
  assumes "crypto_ok X" "evm_ok X evm" "quiet X (sdb evm) s0" "Snapshot s0 = (s1, rid)"
    and "srel X ro s1 (sdb evm2)" "same_setting evm evm2" "evm_ok X evm2" "ro \<Longrightarrow> frozen_mode evm ro'"
    and "contract_ok X c" "c_Gas c = gas" "unat gas < B" "length input \<le> size_limit"
  shows "yields (go_bind (rn evm2 c input ro') (call_end X rid)) (call_post X ro evm gas)"
proof -
  have "unat (c_Gas c) < B"
    using assms(10,11) by simp
  from runs [OF assms(1,7,9,12) this] have "yields (rn evm2 c input ro') (run_post X evm2 c ro')" .
  then show ?thesis
    unfolding yields_bind assms(10) [symmetric]
    by (rule yields_mono) (rule call_end_post [OF assms(2,3,4,5,6,8)])
qed

lemma load_and_end:
  assumes "crypto_ok X" "evm_ok X evm" "quiet X (sdb evm) s0" "Snapshot s0 = (s1, rid)"
    and "srel X ro s1 (sdb evm1)" "same_setting evm evm1" "evm_ok X evm1" "ro \<Longrightarrow> frozen_mode evm ro'"
    and "blank gas c1" "unat gas < B" "unat gas < 2 ^ 62" "length input \<le> size_limit"
    and "load_code X addr c1 evm1 = (c2, evm2)"
  shows "yields (go_bind (rn evm2 c2 input ro') (call_end X rid)) (call_post X ro evm gas)"
proof -
  note l = load_code_ok [OF assms(13,7,9,11)]
  have "srel X ro s1 (sdb evm2)"
    using srel_trans [OF assms(5) srel_quiet [OF evm_ok_state(1) [OF assms(7)] l(5)]] .
  from run_and_end [OF assms(1-4) this same_setting_trans [OF assms(6) l(4)] l(3) assms(8) l(1,2) assms(10,12)]
  show ?thesis .
qed

lemma Call_post:
  assumes ok: "crypto_ok X" "evm_ok X evm" "length input \<le> size_limit" "unat gas < B" "unat gas < 2 ^ 62"
    and val: "w256 val" "static evm \<Longrightarrow> val = 0"
  shows "yields (Call X rn caller addr input gas val evm) (call_post X (static evm) evm gas)"
proof -
  obtain s1 can where can: "CanTransfer X (ref_Address caller) val (sdb evm) = (s1, can)" by fastforce
  note 1 = CanTransfer_spec [OF evm_ok_state(2) [OF ok(2)] can]
  note r1 = srel_quiet [OF evm_ok_state(1) [OF ok(2)] 1(1)]
  obtain s2 rid where snap: "Snapshot s1 = (s2, rid)" by fastforce
  note r2 = Snapshot_srel [OF srel_ok [OF r1] snap]
  have v2: "view X s2 = view X (sdb evm)"
    using Snapshot_extends [OF quiet_wf [OF 1(1)] snap] quiet_view [OF 1(1)] by simp
  obtain s3 ex where ex: "Exist X addr s2 = (s3, ex)" by fastforce
  define s5 where "s5 = Transfer X (ref_Address caller) addr val (if ex then s3 else CreateAccount X addr False s3)"
  obtain c1 evm1 where new: "NewContract caller addr val gas (evm\<lparr>sdb := s5\<rparr>) = (c1, evm1)" by fastforce
  obtain c2 evm2 where load: "load_code X addr c1 evm1 = (c2, evm2)" by fastforce
  note n = NewContract_blank [OF new val(1)]
  have main: "yields (go_bind (rn evm2 c2 input False) (call_end X rid)) (call_post X (static evm) evm gas)"
    if can
  proof -
    have r5: "srel X (static evm) s2 s5"
      unfolding s5_def using that 1(2) v2 val by (intro Call_transfer srel_ok [OF r2] ex) (simp_all add: w256_def)
    have "evm_ok X evm1"
      by (rule n(4) [OF evm_ok_sdb [OF ok(2) srel_trans [OF r1 srel_trans [OF r2 r5]]]])
    moreover have "same_setting evm evm1"
      using n(2) by (simp add: same_setting_def)
    ultimately show ?thesis
      using r5 n(3) by (intro load_and_end [OF ok(1,2) 1(1) snap _ _ _ _ n(1) ok(4,5,3) load])
        (simp_all add: static_frozen)
  qed
  have "quiet X s2 s3"
    using Exist_spec [of X s2 addr] ex srel_ok [OF r2] by (simp add: state_ok_def)
  then have "srel X (static evm) (sdb evm) s3"
    using srel_trans [OF r1 srel_trans [OF r2 srel_quiet [OF srel_ok [OF r2]]]] by blast
  then have "call_post X (static evm) evm gas ([], gas, None, evm\<lparr>sdb := s3\<rparr>)"
    using evm_ok_sdb [OF ok(2)] evm_rel_sdb by (simp add: call_post_def size_limit_def)
  then show ?thesis
    using call_post_same [OF ok(2)] call_post_quiet [OF ok(2) 1(1)] main can snap ex new load
    by (cases can) (simp_all add: Call_def Let_def flip: s5_def)
qed

lemma CallCode_post:
  assumes ok: "crypto_ok X" "evm_ok X evm" "length input \<le> size_limit" "unat gas < B" "unat gas < 2 ^ 62"
    and val: "w256 val"
  shows "yields (CallCode X rn caller addr input gas val evm) (call_post X (static evm) evm gas)"
proof -
  obtain s1 can where can: "CanTransfer X (ref_Address caller) val (sdb evm) = (s1, can)" by fastforce
  note 1 = CanTransfer_spec [OF evm_ok_state(2) [OF ok(2)] can]
  note r1 = srel_quiet [OF evm_ok_state(1) [OF ok(2)] 1(1)]
  obtain s2 rid where snap: "Snapshot s1 = (s2, rid)" by fastforce
  note r2 = Snapshot_srel [OF srel_ok [OF r1] snap]
  obtain c1 evm1 where new: "NewContract caller (ref_Address caller) val gas (evm\<lparr>sdb := s2\<rparr>) = (c1, evm1)"
    by fastforce
  obtain c2 evm2 where load: "load_code X addr c1 evm1 = (c2, evm2)" by fastforce
  note n = NewContract_blank [OF new val]
  have "evm_ok X evm1"
    by (rule n(4) [OF evm_ok_sdb [OF ok(2) srel_trans [OF r1 r2]]])
  then have "yields (go_bind (rn evm2 c2 input False) (call_end X rid)) (call_post X (static evm) evm gas)"
    using srel_refl [OF srel_ok [OF r2]] n(2,3)
    by (intro load_and_end [OF ok(1,2) 1(1) snap _ _ _ _ n(1) ok(4,5,3) load])
      (simp_all add: static_frozen same_setting_def)
  then show ?thesis
    using call_post_same [OF ok(2)] call_post_quiet [OF ok(2) 1(1)] can snap new load
    by (cases can) (simp_all add: CallCode_def Let_def)
qed

lemma DelegateCall_post:
  assumes ok: "crypto_ok X" "evm_ok X evm" "length input \<le> size_limit" "unat gas < B" "unat gas < 2 ^ 62"
    and val: "w256 (c_value parent)"
  shows "yields (DelegateCall X rn (ParentRef parent) addr input gas evm) (call_post X (static evm) evm gas)"
proof -
  obtain s2 rid where snap: "Snapshot (sdb evm) = (s2, rid)" by fastforce
  note r2 = Snapshot_srel [OF evm_ok_state(1) [OF ok(2)] snap]
  obtain c0 evm1 where new: "NewContract (ParentRef parent) (self_addr parent) 0 gas (evm\<lparr>sdb := s2\<rparr>) = (c0, evm1)"
    by fastforce
  note n = NewContract_blank [OF new w256_0]
  define c1 where "c1 = c0\<lparr>CallerAddress := CallerAddress parent, c_value := c_value parent\<rparr>"
  have b: "blank gas c1"
    using n(1) val by (simp add: blank_def c1_def)
  obtain c2 evm2 where load: "load_code X addr c1 evm1 = (c2, evm2)" by fastforce
  have "evm_ok X evm1"
    by (rule n(4) [OF evm_ok_sdb [OF ok(2) r2]])
  then have "yields (go_bind (rn evm2 c2 input False) (call_end X rid)) (call_post X (static evm) evm gas)"
    using srel_refl [OF srel_ok [OF r2]] n(2,3)
    by (intro load_and_end [OF ok(1,2) quiet_refl [OF evm_ok_state(2) [OF ok(2)]] snap _ _ _ _ b ok(4,5,3) load])
      (simp_all add: static_frozen same_setting_def)
  then show ?thesis
    using call_post_same [OF ok(2)] snap new load
    by (simp add: DelegateCall_def Let_def AsDelegate_def c1_def [symmetric])
qed

lemma StaticCall_post:
  assumes ok: "crypto_ok X" "evm_ok X evm" "length input \<le> size_limit" "unat gas < B" "unat gas < 2 ^ 62"
  shows "yields (StaticCall X rn caller addr input gas evm) (call_post X (rIsByzantium (chainRules evm)) evm gas)"
proof -
  let ?ro = "rIsByzantium (chainRules evm)"
  obtain s2 rid where snap: "Snapshot (sdb evm) = (s2, rid)" by fastforce
  note r2 = Snapshot_srel [OF evm_ok_state(1) [OF ok(2)] snap]
  obtain c1 evm1 where new: "NewContract caller addr 0 gas (evm\<lparr>sdb := s2\<rparr>) = (c1, evm1)" by fastforce
  note n = NewContract_blank [OF new w256_0]
  obtain c2 evm2 where load: "load_code X addr c1 evm1 = (c2, evm2)" by fastforce
  have e1: "evm_ok X evm1"
    by (rule n(4) [OF evm_ok_sdb [OF ok(2) r2]])
  note l = load_code_ok [OF load e1 n(1) ok(5)]
  have "quiet X s2 (sdb evm2)"
    using l(5) n(3) by simp
  note r3 = srel_quiet [OF srel_ok [OF r2] this]
  note r4 = AddBalance_zero_srel [OF srel_ok [OF r3], of _ addr]
  have "same_setting evm (evm2\<lparr>sdb := AddBalance X addr 0 (sdb evm2)\<rparr>)"
    using same_setting_trans [OF n(2) l(4)] by (simp add: same_setting_def)
  moreover have "srel X ?ro s2 (AddBalance X addr 0 (sdb evm2))"
    using srel_trans [OF r3 r4] .
  ultimately have "yields (go_bind (rn (evm2\<lparr>sdb := AddBalance X addr 0 (sdb evm2)\<rparr>) c2 input True) (call_end X rid))
      (call_post X ?ro evm gas)"
    by (intro run_and_end [OF ok(1,2) quiet_refl [OF evm_ok_state(2) [OF ok(2)]] snap _ _
          evm_ok_sdb [OF l(3) r4] _ l(1,2) ok(4,3)]) (simp_all add: frozen_mode_def)
  then show ?thesis
    using call_post_same [OF ok(2)] snap new load by (simp add: StaticCall_def Let_def)
qed

lemma create_returns:
  assumes ok: "crypto_ok X" "evm_ok X evm" "length (ch_code ch) \<le> size_limit" "unat gas < B" "unat gas < 2 ^ 62"
    and val: "w256 val" and hash: "ch_hash ch \<noteq> 0 \<Longrightarrow> ch_hash ch = Keccak256 X (ch_code ch)"
  shows "yields (create X rn caller ch gas val addr evm) (create_post X (ref_Address caller) evm gas)"
proof -
  let ?a = "ref_Address caller"
  note k = evm_ok_state [OF ok(2)]
  obtain s1 can where can: "CanTransfer X ?a val (sdb evm) = (s1, can)" by fastforce
  note 1 = CanTransfer_spec [OF k(2) can]
  note r1 = srel_quiet [OF k(1) 1(1)]
  obtain s2 nonce where 2: "GetNonce X ?a s1 = (s2, nonce)" by fastforce
  obtain s4 h where 4: "GetCodeHash X addr (SetNonce X ?a (nonce + 1) s2) = (s4, h)" by fastforce
  obtain s5 n where 5: "GetNonce X addr s4 = (s5, n)" by fastforce
  note c = create_nonce [OF srel_ok [OF r1] 2 4 5]
  have r5: "srel X False (sdb evm) s5"
    using srel_trans [OF r1 c(1)] .
  have u5: "only_nonce X (stateReader (sdb evm)) ?a (view X (sdb evm)) (view X s5)"
    using c(2) quiet_view [OF 1(1)] quiet_reader [OF 1(1)] by simp
  obtain s6 rid where 6: "Snapshot s5 = (s6, rid)" by fastforce
  define s9 where "s9 = Transfer X ?a addr val
    (if IsEIP158 (chainConfig evm) (block_num evm) then SetNonce X addr 1 (CreateAccount X addr True s6)
     else CreateAccount X addr True s6)"
  obtain c1 evm1 where new: "NewContract caller addr val gas (evm\<lparr>sdb := s9\<rparr>) = (c1, evm1)" by fastforce
  note nc = NewContract_blank [OF new val]
  have main: "create_post X ?a evm gas ([], addr, gas, None, evm1)"
    "yields (go_bind (rn evm1 (SetCodeOptionalHash addr ch c1) [] False) (create_end X addr rid))
       (create_post X ?a evm gas)"
    if "can" "h = 0 \<or> h = emptyCodeHash X"
  proof -
    have v6: "view X s6 = view X s5"
      using Snapshot_extends [OF _ 6, of X] srel_ok [OF r5] by (simp add: state_ok_def)
    note r6 = Snapshot_srel [OF srel_ok [OF r5] 6]
    have r9: "srel X False s6 s9"
      unfolding s9_def using that 1 c(3,4) v6 quiet_view [OF 1(1)] val
      by (intro new_account_srel ok(1) srel_ok [OF r6]) (auto simp: w256_def)
    have all: "srel X False (sdb evm) s9"
      using srel_trans [OF r5 srel_trans [OF r6 r9]] .
    have e1: "evm_ok X evm1" "same_setting evm evm1"
      using nc(2) nc(4) [OF evm_ok_sdb [OF ok(2) all]] by (simp_all add: same_setting_def)
    then show "create_post X ?a evm gas ([], addr, gas, None, evm1)"
      using all nc(3) by (simp add: create_post_def evm_rel_def size_limit_def)
    let ?c = "SetCodeOptionalHash addr ch c1"
    have "contract_ok X ?c" "c_Gas ?c = gas"
      using nc(1) ok(3,5) hash by (auto simp: contract_ok_def SetCodeOptionalHash_def blank_def size_limit_def)
    then have "yields (rn evm1 ?c [] False) (run_post X evm1 ?c False)"
      using ok(4) by (intro runs ok(1) e1(1)) (simp_all add: size_limit_def)
    then show "yields (go_bind (rn evm1 ?c [] False) (create_end X addr rid)) (create_post X ?a evm gas)"
      unfolding yields_bind using r9 nc(3) \<open>c_Gas ?c = gas\<close>
      by (elim yields_mono) (use create_end_post [OF ok(2) evm_ok_sdb [OF ok(2) r5] r5 6 u5 _ e1(2)] in auto)
  qed
  have fail: "create_post X ?a evm gas ([], 0, gas, err, evm)"
    "create_post X ?a evm gas ([], 0, gas, err, evm\<lparr>sdb := s1\<rparr>)"
    "create_post X ?a evm gas ([], 0, 0, err, evm\<lparr>sdb := s5\<rparr>)" for err
    using create_post_same [OF ok(2) srel_refl [OF k(1)], of gas gas ?a 0 err]
      create_post_same [OF ok(2) r1, of gas gas ?a 0 err] create_post_same [OF ok(2) r5, of 0 gas ?a 0 err] u5
      quiet_view [OF 1(1)]
    by (simp_all add: only_nonce_def)
  show ?thesis
    using fail main can 2 4 5 6 new
    by (cases can) (auto simp: create_def Let_def simp flip: s9_def)
qed

lemma Create_post:
  assumes ok: "crypto_ok X" "evm_ok X evm" "length code \<le> size_limit" "unat gas < B" "unat gas < 2 ^ 62" "w256 val"
  shows "yields (Create X rn caller code gas val evm) (create_post X (ref_Address caller) evm gas)"
proof -
  obtain s1 nonce where 1: "GetNonce X (ref_Address caller) (sdb evm) = (s1, nonce)" by fastforce
  obtain addr where a: "CreateAddress X (ref_Address caller) nonce = Ret addr"
    using CreateAddress_returns by blast
  have q: "quiet X (sdb evm) s1"
    using GetNonce_spec [OF evm_ok_state(2) [OF ok(2)], of "ref_Address caller"] 1 by simp
  note r = srel_quiet [OF evm_ok_state(1) [OF ok(2)] q]
  have "yields (create X rn caller \<lparr>ch_code = code, ch_hash = 0\<rparr> gas val addr (evm\<lparr>sdb := s1\<rparr>))
      (create_post X (ref_Address caller) (evm\<lparr>sdb := s1\<rparr>) gas)"
    using ok by (intro create_returns evm_ok_sdb [OF ok(2) r]) simp_all
  moreover have "create_post X (ref_Address caller) evm gas x"
    if "create_post X (ref_Address caller) (evm\<lparr>sdb := s1\<rparr>) gas x" for x
    using that evm_rel_trans [OF evm_rel_sdb [OF r]] quiet_view [OF q] quiet_reader [OF q]
    by (auto simp: create_post_def)
  ultimately show ?thesis
    using 1 a by (auto simp: Create_def elim: yields_mono)
qed

lemma Create2_post:
  assumes ok: "crypto_ok X" "evm_ok X evm" "length code \<le> size_limit" "unat gas < B" "unat gas < 2 ^ 62" "w256 val"
  shows "yields (Create2 X rn caller code gas val salt evm) (create_post X (ref_Address caller) evm gas)"
  unfolding Create2_def Let_def
  by (rule create_returns [OF ok(1,2) _ ok(4,5,6)]) (use ok(3) in \<open>simp_all add: codeAndHash_Hash_def split: if_splits\<close>)

end

end
