(* ===== verification/CallOps.thy ===== *)
theory CallOps
  imports CallSafety
begin

text \<open>
  The instructions that call and create, and with them all four instruction sets: in every frame that
  has passed the checks, a round of the loop keeps the invariants and burns gas.
\<close>

section \<open>After a call\<close>

text \<open>Between the gas that is left in the frame and what the callee may return, \<open>G\<close> is not exceeded.\<close>

lemma add_gas_ok:
  assumes "contract_ok X c" "unat (c_Gas c) + unat left \<le> G" "G < 2 ^ 62"
  shows "contract_ok X (add_gas left c)" "unat (c_Gas (add_gas left c)) \<le> G" "contract_rel c (add_gas left c)"
proof -
  have "unat (c_Gas c + left) = unat (c_Gas c) + unat left"
    using assms(2,3) by (intro unat_add_no_wrap) simp
  then show "contract_ok X (add_gas left c)" "unat (c_Gas (add_gas left c)) \<le> G" "contract_rel c (add_gas left c)"
    using assms by (simp_all add: add_gas_def contract_ok_def contract_rel_def)
qed

lemma after_call_good:
  assumes ok: "frame_ok X fr" and post: "call_post X (static (f_evm fr)) (f_evm fr) g r"
    and gas: "gas_of fr + unat g \<le> G" "G < 2 ^ 62"
    and mem: "covers (f_mem fr) retOffset retSize"
    and st: "list_all w256 st" "length st + pops \<le> length (f_stack fr)"
  shows "yields (after_call fr st retOffset retSize r) (exec_good X G pops 1 fr)"
proof -
  obtain ret left err evm where r: "r = (ret, left, err, evm)"
    by (cases r) auto
  note p = post [unfolded call_post_def r, simplified]
  have "gas_of fr + unat left \<le> G"
    using p gas(1) by linarith
  note c = add_gas_ok [OF frame_okD(2) [OF ok] this gas(2)]
  obtain m where m: "mem_Set (big_Uint64 retOffset) (big_Uint64 retSize) ret (f_mem fr) = Ret m"
    "length (store m) = length (store (f_mem fr))"
    using mem_Set_covers [OF mem frame_okD(4) [OF ok]] by blast
  then have "mem_ok m"
    using mem_ok_same [OF frame_okD(4) [OF ok]] by blast
  then show ?thesis
    using p c m(1) st frame_okD(4) [OF ok] r by (simp add: after_call_def exec_good_def)
qed

lemma BigMax_covers:
  assumes "BigMax (calcMemSize a b) (calcMemSize c d) \<le> int (length (store m))" "w256 a" "w256 b" "w256 c" "w256 d"
  shows "covers m a b" "covers m c d"
  using assms by (auto simp: BigMax_def w256_def intro!: calcMemSize_covers split: if_splits)

lemma mem_Get_args:
  assumes "frame_ok X fr" "covers (f_mem fr) off sz"
  shows "\<exists>args. mem_Get (big_Int64 off) (big_Int64 sz) (f_mem fr) = Ret args \<and> length args \<le> size_limit"
  using mem_Get_covers [OF assms(2) frame_okD(4) [OF assms(1)]]
    length_covered [OF assms(2) frame_okD(4) [OF assms(1)]] by simp

text \<open>The callee's gas: with a value, the stipend comes on top of what was reserved.\<close>

lemma stipend_bound:
  assumes "w256 v" "gas + (if v \<noteq> 0 then 9000 else 0) + 40 + unat temp \<le> G" "G < 2 ^ 62"
  shows "unat (with_stipend (U256 v) temp) < G" "gas + unat (with_stipend (U256 v) temp) \<le> G - 1"
proof -
  have "U256 v = v"
    using assms(1) by (simp add: U256_id w256_def)
  moreover have "unat (temp + CallStipend) = unat temp + 2300" if "v \<noteq> 0"
    using assms(2,3) that by (subst unat_add_no_wrap) (simp_all add: params)
  ultimately show "unat (with_stipend (U256 v) temp) < G" "gas + unat (with_stipend (U256 v) temp) \<le> G - 1"
    using assms(2) by (auto simp: with_stipend_def)
qed

lemma call_then_good:
  assumes "frame_ok X fr" "yields m (call_post X (static (f_evm fr)) (f_evm fr) g)"
    and "gas_of fr + unat g \<le> G" "G < 2 ^ 62" "covers (f_mem fr) retOffset retSize"
    and "list_all w256 st" "length st + pops \<le> length (f_stack fr)"
  shows "yields (go_bind m (after_call fr st retOffset retSize)) (exec_good X G pops 1 fr)"
  unfolding yields_bind using assms(2)
  by (rule yields_mono) (rule after_call_good [OF assms(1) _ assms(3-7)])

lemma call_args7:
  assumes ok: "frame_ok X fr" "7 \<le> length (f_stack fr)" "mem_fits (Some memoryCall) fr"
  shows "\<exists>g addr v io isz ro rs st args. f_stack fr = g # addr # v # io # isz # ro # rs # st
    \<and> w256 v \<and> list_all w256 st \<and> covers (f_mem fr) ro rs
    \<and> mem_Get (big_Int64 io) (big_Int64 isz) (f_mem fr) = Ret args \<and> length args \<le> size_limit"
proof -
  obtain g addr v io isz ro rs st where st: "f_stack fr = g # addr # v # io # isz # ro # rs # st"
    using stack_shape(6) [OF ok(2)] by blast
  then have w: "w256 v" "w256 io" "w256 isz" "w256 ro" "w256 rs" "list_all w256 st"
    using frame_okD(3) [OF ok(1)] by simp_all
  have "covers (f_mem fr) ro rs" "covers (f_mem fr) io isz"
    using ok(3) st BigMax_covers [OF _ w(4,5,2,3), of "f_mem fr"] by (simp_all add: memoryCall_def)
  then show ?thesis
    using mem_Get_args [OF ok(1)] st w by blast
qed

lemma call_args6:
  assumes ok: "frame_ok X fr" "6 \<le> length (f_stack fr)" "mem_fits (Some memoryDelegateCall) fr"
  shows "\<exists>g addr io isz ro rs st args. f_stack fr = g # addr # io # isz # ro # rs # st
    \<and> list_all w256 st \<and> covers (f_mem fr) ro rs
    \<and> mem_Get (big_Int64 io) (big_Int64 isz) (f_mem fr) = Ret args \<and> length args \<le> size_limit"
proof -
  obtain g addr io isz ro rs st where st: "f_stack fr = g # addr # io # isz # ro # rs # st"
    using stack_shape(5) [OF ok(2)] by blast
  then have w: "w256 io" "w256 isz" "w256 ro" "w256 rs" "list_all w256 st"
    using frame_okD(3) [OF ok(1)] by simp_all
  have "covers (f_mem fr) ro rs" "covers (f_mem fr) io isz"
    using ok(3) st BigMax_covers [OF _ w(3,4,1,2), of "f_mem fr"] by (simp_all add: memoryDelegateCall_def)
  then show ?thesis
    using mem_Get_args [OF ok(1)] st w by blast
qed

context callee
begin

text \<open>A call instruction in a frame that has paid: the frame's gas, what is reserved for the callee and
  the least price \<open>lo\<close> add up to at most \<open>G\<close>, the gas before the payment.\<close>

definition call_exec :: "memorySizeFunc \<Rightarrow> nat \<Rightarrow> (frame \<Rightarrow> nat) \<Rightarrow> bool \<Rightarrow> executionFunc \<Rightarrow> bool" where
  "call_exec mf pops lo w ex \<longleftrightarrow>
     (\<forall>fr G. crypto_ok X \<longrightarrow> frame_ok X fr \<longrightarrow> pops \<le> length (f_stack fr) \<longrightarrow> mem_fits (Some mf) fr
        \<longrightarrow> (w \<longrightarrow> static (f_evm fr) \<longrightarrow> f_stack fr ! 2 = 0)
        \<longrightarrow> gas_of fr + lo fr + unat (callGasTemp (f_evm fr)) \<le> G \<longrightarrow> G \<le> B \<longrightarrow> G < 2 ^ 62
        \<longrightarrow> yields (ex X rn fr) (exec_good X (G - 1) pops 1 fr))"

lemma opCall_exec:
  "call_exec memoryCall 7 call_min True opCall" "call_exec memoryCall 7 call_min False opCallCode"
proof -
  have "yields (opCallCode X rn fr) (exec_good X (G - 1) 7 1 fr)
      \<and> ((static (f_evm fr) \<longrightarrow> f_stack fr ! 2 = 0) \<longrightarrow> yields (opCall X rn fr) (exec_good X (G - 1) 7 1 fr))"
    if ok: "crypto_ok X" "frame_ok X fr" "7 \<le> length (f_stack fr)" "mem_fits (Some memoryCall) fr"
      "gas_of fr + call_min fr + unat (callGasTemp (f_evm fr)) \<le> G" "G \<le> B" "G < 2 ^ 62" for fr G
  proof -
    obtain g addr v io isz ro rs st args where st: "f_stack fr = g # addr # v # io # isz # ro # rs # st"
      and w: "w256 v" "list_all w256 st" and cov: "covers (f_mem fr) ro rs"
      and args: "mem_Get (big_Int64 io) (big_Int64 isz) (f_mem fr) = Ret args" "length args \<le> size_limit"
      using call_args7 [OF ok(2-4)] by blast
    have "gas_of fr + (if v \<noteq> 0 then 9000 else 0) + 40 + unat (callGasTemp (f_evm fr)) \<le> G"
      using ok(5) st by (simp add: call_min_def)
    note s = stipend_bound [OF w(1) this ok(7)]
    have b: "unat (with_stipend (U256 v) (callGasTemp (f_evm fr))) < B"
      "unat (with_stipend (U256 v) (callGasTemp (f_evm fr))) < 2 ^ 62" "G - 1 < 2 ^ 62"
      using s(1) ok(6,7) by linarith+
    have u: "U256 v = v"
      using w(1) by (simp add: U256_id w256_def)
    note good = call_then_good [OF ok(2) _ s(2) b(3) cov w(2), of _ 7]
    show ?thesis
      using st args(1) good [OF Call_post [OF ok(1) frame_okD(1) [OF ok(2)] args(2) b(1,2)]]
        good [OF CallCode_post [OF ok(1) frame_okD(1) [OF ok(2)] args(2) b(1,2)]] w(1) u
      by (simp add: opCall_def opCallCode_def Let_def del: One_nat_def)
  qed
  then show "call_exec memoryCall 7 call_min True opCall" "call_exec memoryCall 7 call_min False opCallCode"
    unfolding call_exec_def by blast+
qed

lemma opDelegateCall_exec:
  "call_exec memoryDelegateCall 6 (\<lambda>fr. 40) False opDelegateCall"
  "call_exec memoryStaticCall 6 (\<lambda>fr. 40) False opStaticCall"
proof -
  have "yields (opDelegateCall X rn fr) (exec_good X (G - 1) 6 1 fr)
      \<and> yields (opStaticCall X rn fr) (exec_good X (G - 1) 6 1 fr)"
    if ok: "crypto_ok X" "frame_ok X fr" "6 \<le> length (f_stack fr)" "mem_fits (Some memoryDelegateCall) fr"
      "gas_of fr + 40 + unat (callGasTemp (f_evm fr)) \<le> G" "G \<le> B" "G < 2 ^ 62" for fr G
  proof -
    obtain g addr io isz ro rs st args where st: "f_stack fr = g # addr # io # isz # ro # rs # st"
      and w: "list_all w256 st" and cov: "covers (f_mem fr) ro rs"
      and args: "mem_Get (big_Int64 io) (big_Int64 isz) (f_mem fr) = Ret args" "length args \<le> size_limit"
      using call_args6 [OF ok(2-4)] by blast
    have b: "unat (callGasTemp (f_evm fr)) < B" "unat (callGasTemp (f_evm fr)) < 2 ^ 62" "G - 1 < 2 ^ 62"
      "gas_of fr + unat (callGasTemp (f_evm fr)) \<le> G - 1"
      using ok(5-7) by linarith+
    have val: "w256 (c_value (f_contract fr))"
      using frame_okD(2) [OF ok(2)] by (simp add: contract_ok_def)
    note good = call_then_good [OF ok(2) _ b(4,3) cov w, of _ 6]
    have "yields (StaticCall X rn (ParentRef (f_contract fr)) (BigToAddress addr) args (callGasTemp (f_evm fr)) (f_evm fr))
        (call_post X (static (f_evm fr)) (f_evm fr) (callGasTemp (f_evm fr)))"
      using StaticCall_post [OF ok(1) frame_okD(1) [OF ok(2)] args(2) b(1,2)]
      by (rule yields_mono) (auto simp: call_post_def static_def elim: evm_rel_mono)
    from good [OF this] show ?thesis
      using st args(1) good [OF DelegateCall_post [OF ok(1) frame_okD(1) [OF ok(2)] args(2) b(1,2) val]]
      by (simp add: opDelegateCall_def opStaticCall_def Let_def del: One_nat_def)
  qed
  moreover have "memoryStaticCall = memoryDelegateCall"
    by (intro ext) (simp add: memoryStaticCall_def memoryDelegateCall_def)
  ultimately show "call_exec memoryDelegateCall 6 (\<lambda>fr. 40) False opDelegateCall"
    "call_exec memoryStaticCall 6 (\<lambda>fr. 40) False opStaticCall"
    unfolding call_exec_def by auto
qed

text \<open>Creation passes on most or all of the gas that is left after the payment.\<close>

lemma create_then_good:
  assumes ok: "frame_ok X fr" "\<not> static (f_evm fr)"
    and post: "create_post X (self_addr (f_contract fr)) (f_evm fr) gas (res, addr, left, err, evm1)"
    and gas: "unat gas \<le> gas_of fr"
    and st: "w256 t" "list_all w256 st" "length st + pops \<le> length (f_stack fr)"
  shows "exec_good X (gas_of fr) pops 1 fr (create_result_of err res, None,
    fr\<lparr>f_stack := t # st, f_contract := add_gas left (fst (UseGas gas (f_contract fr))), f_evm := evm1\<rparr>)"
proof -
  note p = post [unfolded create_post_def, simplified]
  let ?c = "fst (UseGas gas (f_contract fr))"
  have c: "unat (c_Gas ?c) = gas_of fr - unat gas" "contract_rel (f_contract fr) ?c"
    using gas by (simp_all add: UseGas_def word_less_nat_alt unat_sub word_le_nat_alt contract_rel_def)
  have g: "gas_of fr < 2 ^ 62"
    using frame_okD(2) [OF ok(1)] by (simp add: contract_ok_def)
  have "contract_ok X ?c"
    using frame_okD(2) [OF ok(1)] c(1) g by (auto simp: contract_ok_def UseGas_def)
  moreover have "unat (c_Gas ?c) + unat left \<le> gas_of fr"
    using c(1) p gas by linarith
  ultimately have a: "contract_ok X (add_gas left ?c)" "unat (c_Gas (add_gas left ?c)) \<le> gas_of fr"
    "contract_rel ?c (add_gas left ?c)"
    using add_gas_ok g by blast+
  show ?thesis
    using p a contract_rel_trans [OF c(2) a(3)] ok frame_okD(4) [OF ok(1)] st
    by (simp add: exec_good_def create_result_of_def size_limit_def)
qed

lemma creation_gas: "unat (g - g div 64) \<le> unat g" for g :: u64
  by (simp add: unat_sub word_le_nat_alt unat_div)

lemma opCreate_exec:
  assumes ok: "crypto_ok X" "frame_ok X fr" "3 \<le> length (f_stack fr)" "mem_fits (Some memoryCreate) fr"
    "\<not> static (f_evm fr)" "gas_of fr < B"
  shows "yields (opCreate X rn fr) (exec_good X (gas_of fr) 3 1 fr)"
proof -
  obtain val off sz st where st: "f_stack fr = val # off # sz # st"
    using stack_shape(3) [OF ok(3)] by blast
  then have w: "w256 val" "w256 off" "w256 sz" "list_all w256 st"
    using frame_okD(3) [OF ok(2)] by simp_all
  have "covers (f_mem fr) off sz"
    using ok(4) st w by (intro calcMemSize_covers) (simp_all add: memoryCreate_def w256_def)
  then obtain input where input: "mem_Get (big_Int64 off) (big_Int64 sz) (f_mem fr) = Ret input"
    "length input \<le> size_limit"
    using mem_Get_args [OF ok(2)] by blast
  define gas where "gas = (if IsEIP150 (chainConfig (f_evm fr)) (block_num (f_evm fr))
    then c_Gas (f_contract fr) - c_Gas (f_contract fr) div 64 else c_Gas (f_contract fr))"
  have le: "unat gas \<le> gas_of fr"
    using creation_gas by (simp add: gas_def)
  have "gas_of fr < 2 ^ 62"
    using frame_okD(2) [OF ok(2)] by (simp add: contract_ok_def)
  with le ok(6) have g: "unat gas < B" "unat gas < 2 ^ 62"
    by linarith+
  let ?c = "fst (UseGas gas (f_contract fr))"
  have "ref_Address (ParentRef ?c) = self_addr (f_contract fr)"
    by (simp add: UseGas_def)
  with Create_post [OF ok(1) frame_okD(1) [OF ok(2)] input(2) g w(1), of "ParentRef ?c"]
  have "yields (Create X rn (ParentRef ?c) input gas val (f_evm fr))
      (create_post X (self_addr (f_contract fr)) (f_evm fr) gas)"
    by simp
  then show ?thesis
    using st input(1) unfolding opCreate_def
    by (auto simp: gas_def [symmetric] Let_def simp del: One_nat_def elim!: yields_mono
        intro!: create_then_good [OF ok(2,5) _ le _ w(4)] simp: Address_Big_eq)
qed

lemma opCreate2_exec:
  assumes ok: "crypto_ok X" "frame_ok X fr" "4 \<le> length (f_stack fr)" "mem_fits (Some memoryCreate2) fr"
    "\<not> static (f_evm fr)" "gas_of fr < B"
  shows "yields (opCreate2 X rn fr) (exec_good X (gas_of fr) 4 1 fr)"
proof -
  obtain val off sz salt st where st: "f_stack fr = val # off # sz # salt # st"
    using stack_shape(4) [OF ok(3)] by blast
  then have w: "w256 val" "w256 off" "w256 sz" "list_all w256 st"
    using frame_okD(3) [OF ok(2)] by simp_all
  have "covers (f_mem fr) off sz"
    using ok(4) st w by (intro calcMemSize_covers) (simp_all add: memoryCreate2_def w256_def)
  then obtain input where input: "mem_Get (big_Int64 off) (big_Int64 sz) (f_mem fr) = Ret input"
    "length input \<le> size_limit"
    using mem_Get_args [OF ok(2)] by blast
  define gas where "gas = c_Gas (f_contract fr) - c_Gas (f_contract fr) div 64"
  have le: "unat gas \<le> gas_of fr"
    using creation_gas by (simp add: gas_def)
  have "gas_of fr < 2 ^ 62"
    using frame_okD(2) [OF ok(2)] by (simp add: contract_ok_def)
  with le ok(6) have g: "unat gas < B" "unat gas < 2 ^ 62"
    by linarith+
  let ?c = "fst (UseGas gas (f_contract fr))"
  have "ref_Address (ParentRef ?c) = self_addr (f_contract fr)"
    by (simp add: UseGas_def)
  with Create2_post [OF ok(1) frame_okD(1) [OF ok(2)] input(2) g w(1), of "ParentRef ?c" salt]
  have "yields (Create2 X rn (ParentRef ?c) input gas val salt (f_evm fr))
      (create_post X (self_addr (f_contract fr)) (f_evm fr) gas)"
    by simp
  then show ?thesis
    using st input(1) unfolding opCreate2_def
    by (auto simp: gas_def [symmetric] Let_def simp del: One_nat_def elim!: yields_mono
        intro!: create_then_good [OF ok(2,5) _ le _ w(4)] simp: Address_Big_eq)
qed

section \<open>Rounds that call\<close>

lemma call_sound:
  assumes crypto: "crypto_ok X" and exec: "call_exec mf pops lo w ex" and gas: "call_safe X pops lo gf"
    and lo: "\<And>fr. 1 \<le> lo fr" "\<And>fr fr'. f_stack fr' = f_stack fr \<Longrightarrow> lo fr' = lo fr"
    and size: "size_safe (Some mf) pops" and w: "w \<Longrightarrow> code = CALL" and code: "code \<noteq> 0"
  shows "op_sound X rn B is (code,
    (plain ex gf (makeStackFunc pops 1))\<lparr>op_memorySize := Some mf, op_returns := True\<rparr>)"
    (is "op_sound X rn B is (code, ?oper)")
  unfolding op_sound_def prod.case
proof (rule exI [of _ pops], rule exI [of _ 1], intro conjI allI impI)
  fix fr
  assume ok: "frame_ok X fr" "in_instructions (f_evm fr) = is" "gas_of fr \<le> B" "pops \<le> length (f_stack fr)"
    "length (f_stack fr) + 1 \<le> 1024 + pops"
    "static (f_evm fr) \<longrightarrow> \<not> op_writes ?oper \<and> (code = CALL \<longrightarrow> f_stack fr ! 2 = 0)"
    "code = 0 \<or> unat (f_pc fr) < length (c_Code (f_contract fr))"
  have g62: "gas_of fr < 2 ^ 62"
    using frame_okD(2) [OF ok(1)] by (simp add: contract_ok_def)
  show "yields (body X rn ?oper fr) (outcome_ok X fr)"
  proof (rule body_ok [where lo = "lo fr" and G = "gas_of fr - 1"])
    show "yields (op_gasCost ?oper X (in_gasTable (f_evm fr)) ms fr) (gas_good X fr ms (lo fr))" for ms
      using yields_mono [OF gas [unfolded call_safe_def, rule_format, OF ok(1,4), of ms] call_good_gas]
      by (simp add: plain_def)
    show "yields (op_execute ?oper X rn (paid cost ms fr1)) (exec_good X (gas_of fr - 1) pops 1 (paid cost ms fr1))"
      if "op_gasCost ?oper X (in_gasTable (f_evm fr)) ms fr = Ret (Inr cost, fr1)" "priced X fr fr1"
        "frame_ok X (paid cost ms fr1)" "mem_fits (op_memorySize ?oper) (paid cost ms fr1)"
        "gas_of (paid cost ms fr1) + unat cost = gas_of fr" for ms cost fr1
    proof -
      let ?fr = "paid cost ms fr1"
      have p: "f_stack ?fr = f_stack fr" "f_evm ?fr = f_evm fr1" "static (f_evm ?fr) = static (f_evm fr)"
        using that(2) static_same [of "f_evm fr" "f_evm fr1"] by (simp_all add: paid_def priced_def evm_rel_def)
      have "call_good X fr ms (lo fr) (Inr cost, fr1)"
        using gas [unfolded call_safe_def, rule_format, OF ok(1,4), of ms] that(1) by (simp add: plain_def)
      then have "lo fr + unat (callGasTemp (f_evm fr1)) \<le> unat cost"
        by (simp add: call_good_def)
      then have "gas_of ?fr + lo ?fr + unat (callGasTemp (f_evm ?fr)) \<le> gas_of fr"
        using that(5) lo(2) [OF p(1)] p(2) by simp
      then show ?thesis
        using exec [unfolded call_exec_def, rule_format, OF crypto that(3)] that(4) p ok(3,4,6) w g62
        by (simp add: plain_def)
    qed
    show "lo fr \<le> gas_of fr \<Longrightarrow> ends ?oper \<or> gas_of fr - 1 < gas_of fr"
      using lo(1) [of fr] by linarith
  qed (use ok size code frame_okD(3) [OF ok(1)] in \<open>auto simp: size_safe_def plain_def\<close>)
qed (simp add: plain_def)

lemma create_sound:
  assumes exec: "\<And>fr. frame_ok X fr \<Longrightarrow> pops \<le> length (f_stack fr) \<Longrightarrow> mem_fits (Some mf) fr
      \<Longrightarrow> \<not> static (f_evm fr) \<Longrightarrow> gas_of fr < B \<Longrightarrow> yields (ex X rn fr) (exec_good X (gas_of fr) pops 1 fr)"
    and gas: "gas_safe X is True True pops 32000 gf" and size: "size_safe (Some mf) pops" and code: "code \<noteq> 0"
  shows "op_sound X rn B is (code, (plain ex gf (makeStackFunc pops 1))
    \<lparr>op_memorySize := Some mf, op_writes := True, op_returns := True\<rparr>)"
    (is "op_sound X rn B is (code, ?oper)")
  unfolding op_sound_def prod.case
proof (rule exI [of _ pops], rule exI [of _ 1], intro conjI allI impI)
  fix fr
  assume ok: "frame_ok X fr" "in_instructions (f_evm fr) = is" "gas_of fr \<le> B" "pops \<le> length (f_stack fr)"
    "length (f_stack fr) + 1 \<le> 1024 + pops"
    "static (f_evm fr) \<longrightarrow> \<not> op_writes ?oper \<and> (code = CALL \<longrightarrow> f_stack fr ! 2 = 0)"
    "code = 0 \<or> unat (f_pc fr) < length (c_Code (f_contract fr))"
  have st: "\<not> static (f_evm fr)"
    using ok(6) by (simp add: plain_def)
  show "yields (body X rn ?oper fr) (outcome_ok X fr)"
  proof (rule body_ok [where lo = 32000 and G = "gas_of fr - 32000"])
    show "yields (op_gasCost ?oper X (in_gasTable (f_evm fr)) ms fr) (gas_good X fr ms 32000)" for ms
      using gas ok(1,2,4) st by (simp add: gas_safe_def plain_def)
    show "yields (op_execute ?oper X rn (paid cost ms fr1)) (exec_good X (gas_of fr - 32000) pops 1 (paid cost ms fr1))"
      if "priced X fr fr1" "frame_ok X (paid cost ms fr1)" "mem_fits (op_memorySize ?oper) (paid cost ms fr1)"
        "gas_of (paid cost ms fr1) + unat cost = gas_of fr" "32000 \<le> unat cost" for ms cost fr1
    proof -
      let ?fr = "paid cost ms fr1"
      have p: "f_stack ?fr = f_stack fr" "static (f_evm ?fr) = static (f_evm fr)"
        using that(1) static_same [of "f_evm fr" "f_evm fr1"] by (simp_all add: paid_def priced_def evm_rel_def)
      have "gas_of ?fr < B" "gas_of ?fr \<le> gas_of fr - 32000"
        using that(4,5) ok(3) by linarith+
      then have "yields (ex X rn ?fr) (exec_good X (gas_of ?fr) pops 1 ?fr)"
        using that(2,3) p ok(4) st by (intro exec) (simp_all add: plain_def)
      then show ?thesis
        using \<open>gas_of ?fr \<le> gas_of fr - 32000\<close>
        by (auto simp: plain_def elim!: yields_mono exec_good_weaken)
    qed
  qed (use ok size code frame_okD(3) [OF ok(1)] in \<open>auto simp: size_safe_def plain_def\<close>)
qed (simp add: plain_def)

section \<open>The instruction sets\<close>

lemma frontier_sound:
  assumes "crypto_ok X"
  shows "\<forall>e \<in> set newFrontierInstructionSet. op_sound X rn B is e"
proof -
  have "op_sound X rn B is e" if "e \<in> set frontier_sys" for e
  proof (cases "fst e \<in> {CREATE, CALL, CALLCODE}")
    case True
    have "op_sound X rn B is (CREATE, (plain opCreate gasCreate (makeStackFunc 3 1))
        \<lparr>op_memorySize := Some memoryCreate, op_writes := True, op_returns := True\<rparr>)"
      by (rule create_sound) (simp_all add: opCreate_exec assms gas_safety opcodes del: One_nat_def)
    moreover have "op_sound X rn B is (CALL, (plain opCall gasCall (makeStackFunc 7 1))
        \<lparr>op_memorySize := Some memoryCall, op_returns := True\<rparr>)"
      by (rule call_sound [OF assms opCall_exec(1) gasCall_safe]) (simp_all add: call_min_def opcodes)
    moreover have "op_sound X rn B is (CALLCODE, (plain opCallCode gasCallCode (makeStackFunc 7 1))
        \<lparr>op_memorySize := Some memoryCall, op_returns := True\<rparr>)"
      by (rule call_sound [OF assms opCall_exec(2) gasCallCode_safe]) (simp_all add: call_min_def opcodes)
    ultimately show ?thesis
      using True that by (auto simp: frontier_sys_def opcodes)
  qed (use frontier_sys_sound [OF assms] that in blast)
  then show ?thesis
    using frontier_arith_sound frontier_env_sound frontier_families_sound
    unfolding newFrontierInstructionSet_def by auto
qed

lemma homestead_sound:
  assumes "crypto_ok X"
  shows "\<forall>e \<in> set newHomesteadInstructionSet. op_sound X rn B is e"
proof -
  have "op_sound X rn B is (DELEGATECALL, (plain opDelegateCall gasDelegateCall (makeStackFunc 6 1))
      \<lparr>op_memorySize := Some memoryDelegateCall, op_returns := True\<rparr>)"
    by (rule call_sound [OF assms opDelegateCall_exec(1) delegate_price_safe(1)]) (simp_all add: opcodes)
  then show ?thesis
    using frontier_sound [OF assms] by (simp add: newHomesteadInstructionSet_def)
qed

lemma byzantium_sound:
  assumes "crypto_ok X"
  shows "\<forall>e \<in> set newByzantiumInstructionSet. op_sound X rn B is e"
proof -
  have "op_sound X rn B is (STATICCALL, (plain opStaticCall gasStaticCall (makeStackFunc 6 1))
      \<lparr>op_memorySize := Some memoryStaticCall, op_returns := True\<rparr>)"
    by (rule call_sound [OF assms opDelegateCall_exec(2) delegate_price_safe(2)]) (simp_all add: opcodes)
  moreover have "op_sound X rn B is (RETURNDATACOPY, (plain opReturnDataCopy gasReturnDataCopy (makeStackFunc 3 0))
      \<lparr>op_memorySize := Some memoryReturnDataCopy\<rparr>)"
    by (rule memory_sound, rule op_safety, rule gas_safety, simp, rule memory_sizes_safe, simp add: opcodes)
  moreover have "op_sound X rn B is (REVERT, (plain opRevert gasRevert (makeStackFunc 2 0))
      \<lparr>op_memorySize := Some memoryRevert, op_reverts := True, op_returns := True\<rparr>)"
    by (rule op_soundI [where lo = 0 and pops = 2 and pushes = 0]) (simp_all add: plain_def op_safety gas_safety opcodes)
  ultimately show ?thesis
    using homestead_sound [OF assms]
    by (simp add: newByzantiumInstructionSet_def const_sound op_safety gas_consts opcodes del: One_nat_def)
qed

lemma constantinople_sound:
  assumes "crypto_ok X"
  shows "\<forall>e \<in> set newConstantinopleInstructionSet. op_sound X rn B Constantinople e"
proof -
  have "op_sound X rn B Constantinople (EXTCODEHASH, plain opExtCodeHash gasExtCodeHash (makeStackFunc 1 1))"
    by (rule price_sound, rule op_safety, rule gas_safety, simp, simp add: opcodes)
  moreover have "op_sound X rn B Constantinople (CREATE2, (plain opCreate2 gasCreate2 (makeStackFunc 4 1))
      \<lparr>op_memorySize := Some memoryCreate2, op_writes := True, op_returns := True\<rparr>)"
  proof (rule create_sound)
    have "gas_safe X Constantinople True True 3 32000 gasCreate2"
      by (rule gas_safety)
    then show "gas_safe X Constantinople True True 4 32000 gasCreate2"
      by (simp add: gas_safe_def)
  qed (simp_all add: opCreate2_exec assms opcodes del: One_nat_def)
  ultimately show ?thesis
    using byzantium_sound [OF assms]
    by (simp add: newConstantinopleInstructionSet_def const_sound op_safety gas_consts opcodes del: One_nat_def)
qed

lemma table_sound:
  assumes "crypto_ok X" "e \<in> set (JumpTable_of is)"
  shows "op_sound X rn B is e"
  using assms frontier_sound homestead_sound byzantium_sound constantinople_sound
  by (cases "is") auto

end

end
