(* ===== verification/Termination.thy ===== *)
theory Termination
  imports CallOps
begin

text \<open>
  The interpreter as a whole. A round keeps the invariants and burns gas; so the loop returns when
  the fuel exceeds the gas, and the interpreter meets the contract that calls rely on.
\<close>

section \<open>A step\<close>

text \<open>The operand that is checked for a call in static mode is on the stack.\<close>

lemma call_entry:
  "(CALL, oper) \<in> set (JumpTable_of is) \<Longrightarrow> op_validateStack oper = makeStackFunc 7 1"
proof -
  have f: "PUSH n \<noteq> CALL" if "n < 33" for n
    using that word_unat_eq_iff [of "PUSH n" CALL] unat_of_nat_u8 [of "95 + n"] by (simp add: opcodes)
  have d: "DUP n \<noteq> CALL" if "n < 17" for n
    using that word_unat_eq_iff [of "DUP n" CALL] unat_of_nat_u8 [of "127 + n"] by (simp add: opcodes)
  have s: "SWAP n \<noteq> CALL" if "n < 17" for n
    using that word_unat_eq_iff [of "SWAP n" CALL] unat_of_nat_u8 [of "143 + n"] by (simp add: opcodes)
  have l: "LOG n \<noteq> CALL" if "n < 5" for n
    using that word_unat_eq_iff [of "LOG n" CALL] unat_of_nat_u8 [of "160 + n"] by (simp add: opcodes)
  have fam: "(CALL, oper) \<notin> set frontier_push \<union> set frontier_dup \<union> set frontier_swap \<union> set frontier_log"
    using f d s l by (fastforce simp: frontier_push_def frontier_dup_def frontier_swap_def frontier_log_def)
  have "(CALL, oper) \<in> set newFrontierInstructionSet \<Longrightarrow> op_validateStack oper = makeStackFunc 7 1"
    using fam unfolding newFrontierInstructionSet_def
    by (auto simp: frontier_arith_def frontier_env_def frontier_sys_def opcodes plain_def)
  then show "(CALL, oper) \<in> set (JumpTable_of is) \<Longrightarrow> op_validateStack oper = makeStackFunc 7 1"
    by (cases "is") (auto simp: newHomesteadInstructionSet_def newByzantiumInstructionSet_def
        newConstantinopleInstructionSet_def opcodes plain_def)
qed

lemma makeStackFunc_None:
  "makeStackFunc pops pushes st = None \<longleftrightarrow> pops \<le> length st \<and> length st + pushes \<le> 1024 + pops"
  by (auto simp: makeStackFunc_def require_def params)

text \<open>An operation that passes the restrictions does not write in static mode.\<close>

lemma restrictions_ok:
  assumes "(op, oper) \<in> set (JumpTable_of is)" "op_validateStack oper st = None"
  shows "yields (enforceRestrictions op oper st evm) (\<lambda>r. r = None \<longrightarrow>
    (static evm \<longrightarrow> \<not> op_writes oper \<and> (op = CALL \<longrightarrow> st ! 2 = 0)))"
proof -
  have "3 \<le> length st" if "op = CALL"
    using call_entry [of oper "is"] assms that by (simp add: makeStackFunc_None)
  then show ?thesis
    by (auto simp: enforceRestrictions_def static_def go_index_def BitLen_eq_0)
qed

context callee
begin

lemma step_ok:
  assumes "crypto_ok X" "frame_ok X fr" "gas_of fr \<le> B"
  shows "yields (step X rn fr) (outcome_ok X fr)"
proof -
  let ?op = "GetByte (f_pc fr) (f_contract fr)" and ?is = "in_instructions (f_evm fr)"
  note halt = halt_same [OF assms(2)]
  show ?thesis
  proof (cases "map_of (JumpTable_of ?is) ?op")
    case None
    then show ?thesis
      using halt by (simp add: step_body)
  next
    case (Some oper)
    then have mem: "(?op, oper) \<in> set (JumpTable_of ?is)"
      by (rule map_of_SomeD)
    from table_sound [OF assms(1) mem] obtain pops pushes where
      v: "op_validateStack oper = makeStackFunc pops pushes"
      and sound: "\<And>fr'. frame_ok X fr' \<Longrightarrow> in_instructions (f_evm fr') = ?is \<Longrightarrow> gas_of fr' \<le> B
        \<Longrightarrow> pops \<le> length (f_stack fr') \<Longrightarrow> length (f_stack fr') + pushes \<le> 1024 + pops
        \<Longrightarrow> (static (f_evm fr') \<longrightarrow> \<not> op_writes oper \<and> (?op = CALL \<longrightarrow> f_stack fr' ! 2 = 0))
        \<Longrightarrow> (?op = 0 \<or> unat (f_pc fr') < length (c_Code (f_contract fr')))
        \<Longrightarrow> yields (body X rn oper fr') (outcome_ok X fr')"
      unfolding op_sound_def prod.case by blast
    show ?thesis
    proof (cases "makeStackFunc pops pushes (f_stack fr)")
      case (Some err)
      with v \<open>map_of _ _ = Some oper\<close> halt show ?thesis
        by (simp add: step_body)
    next
      case None
      then have st: "pops \<le> length (f_stack fr)" "length (f_stack fr) + pushes \<le> 1024 + pops"
        by (simp_all add: makeStackFunc_None)
      have e: "yields (enforceRestrictions ?op oper (f_stack fr) (f_evm fr)) (\<lambda>r. r = None \<longrightarrow>
          (static (f_evm fr) \<longrightarrow> \<not> op_writes oper \<and> (?op = CALL \<longrightarrow> f_stack fr ! 2 = 0)))"
        using restrictions_ok [OF mem] v None by simp
      have pc: "?op = 0 \<or> unat (f_pc fr) < length (c_Code (f_contract fr))"
        by (simp add: GetByte_def)
      have "yields (case r of None \<Rightarrow> body X rn oper fr | Some err \<Rightarrow> Ret (Halt [] (Some err) fr)) (outcome_ok X fr)"
        if "r = None \<longrightarrow> (static (f_evm fr) \<longrightarrow> \<not> op_writes oper \<and> (?op = CALL \<longrightarrow> f_stack fr ! 2 = 0))" for r
        using that halt sound [OF assms(2) refl assms(3) st _ pc] by (cases r) auto
      from yields_mono [OF e this] show ?thesis
        using \<open>map_of _ _ = Some oper\<close> v None by (simp add: step_body)
    qed
  qed
qed

end

section \<open>The loop\<close>

definition loop_post :: "crypto \<Rightarrow> frame \<Rightarrow> bytes \<times> vm_error option \<times> frame \<Rightarrow> bool" where
  "loop_post X fr r \<longleftrightarrow> (case r of (ret, err, fr') \<Rightarrow> outcome_ok X fr (Halt ret err fr'))"

lemma outcome_ok_trans:
  assumes "outcome_ok X fr (Next fr1)" "outcome_ok X fr1 (Halt ret err fr2)"
  shows "outcome_ok X fr (Halt ret err fr2)"
  using assms static_same [of "f_evm fr" "f_evm fr1"]
  by (auto simp: outcome_ok_def evm_rel_def intro: same_setting_trans srel_trans contract_rel_trans)

lemma enter_ok:
  assumes "evm_ok X evm"
  shows "evm_ok X (enter ro evm)" "static (enter ro evm) = frozen_mode evm ro"
  using assms by (auto simp: enter_def evm_ok_def settled_def jumps_ok_def static_def frozen_mode_def size_limit_def)

lemma leave_ok:
  assumes "evm_ok X evm'" "evm_rel X f (enter ro evm) evm'"
  shows "evm_ok X (leave ro evm evm')" "evm_rel X f evm (leave ro evm evm')"
  using assms by (auto simp: leave_def enter_def evm_ok_def settled_def jumps_ok_def evm_rel_def same_setting_def)

lemma Run_post:
  assumes loop: "\<And>fr. frame_ok X fr \<Longrightarrow> gas_of fr < n \<Longrightarrow> yields (loop fr) (loop_post X fr)"
    and ok: "evm_ok X evm" "contract_ok X c" "length input \<le> size_limit" "unat (c_Gas c) < n"
  shows "yields (Run loop evm c input ro) (run_post X evm c ro)"
proof (cases "c_Code c = []")
  case True
  then show ?thesis
    using leave_ok [OF enter_ok(1) [OF ok(1)] evm_rel_refl [OF enter_ok(1) [OF ok(1)]]]
    by (simp add: Run_def Let_def run_post_def size_limit_def)
next
  case False
  let ?fr = "\<lparr>f_pc = 0, f_contract = c\<lparr>c_Input := input\<rparr>, f_mem = NewMemory, f_stack = [], f_evm = enter ro evm\<rparr>"
  have "frame_ok X ?fr"
    using ok enter_ok(1) [OF ok(1)] by (simp add: frame_ok_def contract_ok_def stack_ok_def mem_ok_def NewMemory_def)
  moreover have "gas_of ?fr < n"
    using ok(4) by simp
  ultimately obtain ret err fr' where r: "loop ?fr = Ret (ret, err, fr')" "loop_post X ?fr (ret, err, fr')"
    using loop [of ?fr] by (auto elim: yieldsE)
  then have "evm_ok X (f_evm fr')" "evm_rel X (frozen_mode evm ro) (enter ro evm) (f_evm fr')"
    using enter_ok(2) [OF ok(1)] by (simp_all add: loop_post_def outcome_ok_def)
  from leave_ok [OF this] show ?thesis
    using False r by (simp add: Run_def Let_def run_post_def loop_post_def outcome_ok_def)
qed

lemma evm_run_callee:
  assumes loop: "\<And>fr. crypto_ok X \<Longrightarrow> frame_ok X fr \<Longrightarrow> gas_of fr < n \<Longrightarrow> yields (loop fr) (loop_post X fr)"
  shows "callee X (evm_run X (Run loop)) n"
proof
  fix evm c and input :: bytes and ro
  assume ok: "crypto_ok X" "evm_ok X evm" "contract_ok X c" "length input \<le> size_limit" "unat (c_Gas c) < n"
  show "yields (evm_run X (Run loop) evm c input ro) (run_post X evm c ro)"
  proof (cases "Option.bind (c_CodeAddr c) (precompiles_of evm)")
    case None
    then show ?thesis
      using Run_post [OF loop [OF ok(1)] ok(2-5)] by (simp add: evm_run_def)
  next
    case (Some p)
    have "unat (c_Gas c) < 2 ^ 62"
      using ok(3) by (simp add: contract_ok_def)
    from RunPrecompiledContract_returns [OF ok(1,4) this, of p] show ?thesis
      using Some ok(2) evm_rel_refl by (auto simp: evm_run_def run_post_def elim!: yields_mono)
  qed
qed

text \<open>Fuel above the gas is enough: a round that goes on has burnt gas, and a callee gets less than its
  caller had.\<close>

lemma run_loop_ok:
  "crypto_ok X \<Longrightarrow> frame_ok X fr \<Longrightarrow> gas_of fr < n \<Longrightarrow> yields (run_loop X n fr) (loop_post X fr)"
proof (induction n arbitrary: fr)
  case (Suc n)
  have rn: "callee X (evm_run X (Run (run_loop X n))) n"
    using Suc.IH by (rule evm_run_callee)
  have step: "yields (step X (evm_run X (Run (run_loop X n))) fr) (outcome_ok X fr)"
    using callee.step_ok [OF rn Suc.prems(1,2)] Suc.prems(3) by simp
  have "yields (case r of Halt ret err fr1 \<Rightarrow> Ret (ret, err, fr1) | Next fr1 \<Rightarrow> run_loop X n fr1) (loop_post X fr)"
    if "outcome_ok X fr r" for r
  proof (cases r)
    case (Next fr1)
    then have "yields (run_loop X n fr1) (loop_post X fr1)"
      using that Suc.prems by (intro Suc.IH) (simp_all add: outcome_ok_def)
    then show ?thesis
      using Next that outcome_ok_trans [of X fr fr1] by (auto simp: loop_post_def elim!: yields_mono)
  qed (use that in \<open>simp add: loop_post_def\<close>)
  then have "yields (go_bind (step X (evm_run X (Run (run_loop X n))) fr)
      (\<lambda>r. case r of Halt ret err fr1 \<Rightarrow> Ret (ret, err, fr1) | Next fr1 \<Rightarrow> run_loop X n fr1)) (loop_post X fr)"
    unfolding yields_bind using step by (auto elim: yields_mono)
  moreover have "loop_post X fr ([], None, fr)"
    using halt_same [OF Suc.prems(2)] by (simp add: loop_post_def)
  ultimately show ?case
    by simp
qed simp

text \<open>The interpreter of the model meets the contract of a callee.\<close>

interpretation run: callee X "runner_of X n" n for X n
  unfolding runner_of_def by (rule evm_run_callee) (rule run_loop_ok)

end
