(* ===== verification/Fuel.thy ===== *)
theory Fuel
  imports Termination
begin

text \<open>
  The fuel of the interpreter is a device of the model only: more fuel never changes a result. With the
  termination theorem, every amount of fuel above the gas gives the same one.
\<close>

section \<open>Results up to fuel\<close>

definition go_le :: "'a go \<Rightarrow> 'a go \<Rightarrow> bool" where
  "go_le m m' \<longleftrightarrow> m = OutOfFuel \<or> m = m'"

lemma go_le_refl [simp]: "go_le m m"
  and go_le_OutOfFuel [simp]: "go_le OutOfFuel m"
  by (simp_all add: go_le_def)

lemma go_le_bind:
  "go_le m m' \<Longrightarrow> (\<And>x. m = Ret x \<Longrightarrow> go_le (f x) (f' x)) \<Longrightarrow> go_le (go_bind m f) (go_bind m' f')"
  by (cases m) (auto simp: go_le_def)

lemma go_le_yields: "go_le m m' \<Longrightarrow> yields m P \<Longrightarrow> m' = m"
  by (auto simp: go_le_def)

definition runner_le :: "runner \<Rightarrow> runner \<Rightarrow> bool" where
  "runner_le rn rn' \<longleftrightarrow> (\<forall>evm c input ro. go_le (rn evm c input ro) (rn' evm c input ro))"

named_theorems fuel_mono \<open>operations that keep results when there is more fuel\<close>

lemma run_mono [fuel_mono]: "runner_le rn rn' \<Longrightarrow> go_le (rn evm c input ro) (rn' evm c input ro)"
  by (simp add: runner_le_def)

section \<open>Calls\<close>

lemma calls_mono [fuel_mono]:
  assumes "runner_le rn rn'"
  shows "go_le (Call X rn caller addr input gas val evm) (Call X rn' caller addr input gas val evm)"
    "go_le (CallCode X rn caller addr input gas val evm) (CallCode X rn' caller addr input gas val evm)"
    "go_le (DelegateCall X rn caller addr input gas evm) (DelegateCall X rn' caller addr input gas evm)"
    "go_le (StaticCall X rn caller addr input gas evm) (StaticCall X rn' caller addr input gas evm)"
  using assms
  by (auto simp: Call_def CallCode_def DelegateCall_def StaticCall_def Let_def fuel_mono
      intro!: go_le_bind split: prod.splits bool.splits)

lemma create_mono [fuel_mono]:
  assumes "runner_le rn rn'"
  shows "go_le (create X rn caller ch gas val addr evm) (create X rn' caller ch gas val addr evm)"
    "go_le (Create X rn caller code gas val evm) (Create X rn' caller code gas val evm)"
    "go_le (Create2 X rn caller code gas val salt evm) (Create2 X rn' caller code gas val salt evm)"
proof -
  show c: "go_le (create X rn caller ch gas val addr evm) (create X rn' caller ch gas val addr evm)"
    for ch addr evm
    using assms by (auto simp: create_def Let_def fuel_mono intro!: go_le_bind split: prod.splits bool.splits)
  show "go_le (Create X rn caller code gas val evm) (Create X rn' caller code gas val evm)"
    "go_le (Create2 X rn caller code gas val salt evm) (Create2 X rn' caller code gas val salt evm)"
    using c by (auto simp: Create_def Create2_def Let_def intro!: go_le_bind split: prod.splits)
qed

section \<open>Instructions\<close>

lemma call_ops_mono [fuel_mono]:
  assumes "runner_le rn rn'"
  shows "go_le (opCreate X rn fr) (opCreate X rn' fr)" "go_le (opCreate2 X rn fr) (opCreate2 X rn' fr)"
    "go_le (opCall X rn fr) (opCall X rn' fr)" "go_le (opCallCode X rn fr) (opCallCode X rn' fr)"
    "go_le (opDelegateCall X rn fr) (opDelegateCall X rn' fr)" "go_le (opStaticCall X rn fr) (opStaticCall X rn' fr)"
  using assms
  by (auto simp: opCreate_def opCreate2_def opCall_def opCallCode_def opDelegateCall_def opStaticCall_def Let_def
      fuel_mono intro!: go_le_bind split: list.splits)

text \<open>The other instructions do not use the interpreter.\<close>

lemmas silent_defs = opAdd_def opSub_def opMul_def opDiv_def opSdiv_def opMod_def opSmod_def opExp_def
  opSignExtend_def opNot_def opLt_def opGt_def opSlt_def opSgt_def opEq_def opIszero_def opAnd_def opOr_def
  opXor_def opByte_def opAddmod_def opMulmod_def opSHL_def opSHR_def opSAR_def opSha3_def opAddress_def
  opBalance_def opOrigin_def opCaller_def opCallValue_def opCallDataLoad_def opCallDataSize_def
  opCallDataCopy_def opReturnDataSize_def opReturnDataCopy_def opExtCodeSize_def opCodeSize_def opCodeCopy_def
  opExtCodeCopy_def opExtCodeHash_def opGasprice_def opBlockhash_def opCoinbase_def opTimestamp_def opNumber_def
  opDifficulty_def opGasLimit_def opPop_def opMload_def opMstore_def opMstore8_def opSload_def opSstore_def
  opJump_def opJumpi_def opJumpdest_def opPc_def opMsize_def opGas_def opReturn_def opRevert_def opStop_def
  opSuicide_def makePush_def makeDup_def makeSwap_def makeLog_def

definition op_mono :: "crypto \<Rightarrow> u8 \<times> operation \<Rightarrow> bool" where
  "op_mono X e \<longleftrightarrow> (\<forall>rn rn' fr. runner_le rn rn'
     \<longrightarrow> go_le (op_execute (snd e) X rn fr) (op_execute (snd e) X rn' fr))"

lemma op_monoI:
  "(\<And>rn rn' fr. runner_le rn rn' \<Longrightarrow> go_le (op_execute oper X rn fr) (op_execute oper X rn' fr)) \<Longrightarrow> op_mono X (code, oper)"
  by (simp add: op_mono_def)

lemma frontier_mono: "\<forall>e \<in> set newFrontierInstructionSet. op_mono X e"
proof -
  have "\<forall>e \<in> set frontier_arith. op_mono X e" "\<forall>e \<in> set frontier_env. op_mono X e"
    by (simp_all add: frontier_arith_def frontier_env_def op_monoI plain_def silent_defs)
  moreover have "\<forall>e \<in> set frontier_sys. op_mono X e"
    by (simp add: frontier_sys_def op_monoI plain_def silent_defs fuel_mono)
  moreover have "\<forall>e \<in> set frontier_push \<union> set frontier_dup \<union> set frontier_swap \<union> set frontier_log. op_mono X e"
    by (auto simp: frontier_push_def frontier_dup_def frontier_swap_def frontier_log_def op_mono_def plain_def silent_defs)
  ultimately show ?thesis
    unfolding newFrontierInstructionSet_def by auto
qed

lemma table_mono: "e \<in> set (JumpTable_of is) \<Longrightarrow> op_mono X e"
proof -
  have h: "\<forall>e \<in> set newHomesteadInstructionSet. op_mono X e"
    using frontier_mono by (simp add: newHomesteadInstructionSet_def op_monoI plain_def fuel_mono)
  then have b: "\<forall>e \<in> set newByzantiumInstructionSet. op_mono X e"
    by (simp add: newByzantiumInstructionSet_def op_monoI plain_def fuel_mono silent_defs)
  then have c: "\<forall>e \<in> set newConstantinopleInstructionSet. op_mono X e"
    by (simp add: newConstantinopleInstructionSet_def op_monoI plain_def fuel_mono silent_defs)
  show "e \<in> set (JumpTable_of is) \<Longrightarrow> op_mono X e"
    using frontier_mono [of X] h b c by (cases "is") simp_all
qed

section \<open>The loop\<close>

lemma step_mono:
  assumes "runner_le rn rn'"
  shows "go_le (step X rn fr) (step X rn' fr)"
proof (cases "map_of (JumpTable_of (in_instructions (f_evm fr))) (GetByte (f_pc fr) (f_contract fr))")
  case (Some oper)
  have "go_le (op_execute oper X rn fr1) (op_execute oper X rn' fr1)" for fr1
    using table_mono [OF map_of_SomeD [OF Some], of X] assms by (simp add: op_mono_def)
  then show ?thesis
    using Some by (auto simp: step_def Let_def intro!: go_le_bind split: option.splits sum.splits)
qed (simp add: step_def)

lemma evm_run_mono: "(\<And>fr. go_le (loop fr) (loop' fr)) \<Longrightarrow> runner_le (evm_run X (Run loop)) (evm_run X (Run loop'))"
  by (auto simp: runner_le_def evm_run_def Run_def Let_def intro!: go_le_bind split: option.splits)

lemma run_loop_mono: "n \<le> m \<Longrightarrow> go_le (run_loop X n fr) (run_loop X m fr)"
proof (induction n arbitrary: m fr)
  case (Suc n)
  then obtain m' where m: "m = Suc m'" "n \<le> m'"
    by (cases m) auto
  then have le: "go_le (run_loop X n fr') (run_loop X m' fr')" for fr'
    using Suc.IH by blast
  then show ?case
    using m(1) step_mono [OF evm_run_mono [OF le]] by (auto intro!: go_le_bind split: outcome.splits)
qed simp

lemma runner_of_mono: "n \<le> m \<Longrightarrow> runner_le (runner_of X n) (runner_of X m)"
  unfolding runner_of_def by (intro evm_run_mono run_loop_mono)

end
