(* ===== verification/EvmCorrect.thy ===== *)
theory EvmCorrect
  imports Fuel
begin

text \<open>
  What the virtual machine guarantees, at its entry points \<open>Call\<close>, \<open>CallCode\<close>, \<open>StaticCall\<close>,
  \<open>Create\<close> and \<open>Create2\<close>, with the interpreter in place.
\<close>

section \<open>Consequences of the postconditions\<close>

lemma yields_returns: "yields m P \<Longrightarrow> returns m"
  by (auto simp: yields_def)

lemma yieldsD: "yields m P \<Longrightarrow> m = Ret x \<Longrightarrow> P x"
  by simp

lemma go_le_equal: "go_le m m' \<Longrightarrow> returns m \<Longrightarrow> m' = m"
  by (auto simp: go_le_def)

lemma entry_mono:
  assumes "n \<le> m"
  shows "go_le (Call X (runner_of X n) caller addr input gas val evm) (Call X (runner_of X m) caller addr input gas val evm)"
    "go_le (CallCode X (runner_of X n) caller addr input gas val evm) (CallCode X (runner_of X m) caller addr input gas val evm)"
    "go_le (StaticCall X (runner_of X n) caller addr input gas evm) (StaticCall X (runner_of X m) caller addr input gas evm)"
    "go_le (Create X (runner_of X n) caller input gas val evm) (Create X (runner_of X m) caller input gas val evm)"
    "go_le (Create2 X (runner_of X n) caller input gas val salt evm) (Create2 X (runner_of X m) caller input gas val salt evm)"
  using runner_of_mono [OF assms, of X] by (rule fuel_mono)+

lemma entries_yield:
  assumes "crypto_ok X" "evm_ok X evm" "length input \<le> size_limit" "unat gas < n" "unat gas < 2 ^ 62"
    and "w256 val" "static evm \<longrightarrow> val = 0"
  shows "yields (Call X (runner_of X n) caller addr input gas val evm) (call_post X (static evm) evm gas)"
    "yields (CallCode X (runner_of X n) caller addr input gas val evm) (call_post X (static evm) evm gas)"
    "yields (StaticCall X (runner_of X n) caller addr input gas evm) (call_post X (rIsByzantium (chainRules evm)) evm gas)"
    "yields (Create X (runner_of X n) caller input gas val evm) (create_post X (ref_Address caller) evm gas)"
    "yields (Create2 X (runner_of X n) caller input gas val salt evm) (create_post X (ref_Address caller) evm gas)"
  using assms
  by (simp_all add: run.Call_post run.CallCode_post run.StaticCall_post run.Create_post run.Create2_post)

lemma entries_return:
  assumes "crypto_ok X" "evm_ok X evm" "length input \<le> size_limit" "unat gas < n" "unat gas < 2 ^ 62"
    and "w256 val" "static evm \<longrightarrow> val = 0"
  shows "returns (Call X (runner_of X n) caller addr input gas val evm)"
    "returns (CallCode X (runner_of X n) caller addr input gas val evm)"
    "returns (StaticCall X (runner_of X n) caller addr input gas evm)"
    "returns (Create X (runner_of X n) caller input gas val evm)"
    "returns (Create2 X (runner_of X n) caller input gas val salt evm)"
  using entries_yield [OF assms] yields_returns by blast+

lemma entries_equal:
  assumes "n \<le> m" and ok: "crypto_ok X" "evm_ok X evm" "length input \<le> size_limit" "unat gas < n"
    "unat gas < 2 ^ 62" "w256 val" "static evm \<longrightarrow> val = 0"
  shows "Call X (runner_of X m) caller addr input gas val evm = Call X (runner_of X n) caller addr input gas val evm"
    "CallCode X (runner_of X m) caller addr input gas val evm = CallCode X (runner_of X n) caller addr input gas val evm"
    "StaticCall X (runner_of X m) caller addr input gas evm = StaticCall X (runner_of X n) caller addr input gas evm"
    "Create X (runner_of X m) caller input gas val evm = Create X (runner_of X n) caller input gas val evm"
    "Create2 X (runner_of X m) caller input gas val salt evm = Create2 X (runner_of X n) caller input gas val salt evm"
  by (rule go_le_equal, rule entry_mono [OF assms(1)], rule entries_return [OF ok])+

text \<open>A concrete world: Constantinople rules, no accounts.\<close>

lemma length_crypto_ok: "crypto_ok length_crypto"
proof -
  have u: "unat (of_nat m :: hash) = m" if "m < 2 ^ 41" for m
    using that by (simp add: unat_of_nat take_bit_nat_eq_self)
  have k: "unat (Keccak256 length_crypto c) = length c + 1" if "length c \<le> size_limit" for c
    using u [of "length c + 1"] that by (simp add: length_crypto_def size_limit_def add.commute)
  have "length c = length d" if "length c \<le> size_limit" "length d \<le> size_limit"
    "Keccak256 length_crypto c = Keccak256 length_crypto d" for c d
    using k [OF that(1)] k [OF that(2)] that(3) by simp
  moreover have "Keccak256 length_crypto c \<noteq> 0" if "length c \<le> size_limit" for c
    using k [OF that] by (metis add_is_0 unat_0 zero_neq_one)
  moreover have "crypto_Ecrecover length_crypto h sig = None" "length (ripemd160_Sum length_crypto b) \<le> 32"
    "length (bn256_G1_Marshal length_crypto p) \<le> 64" for h sig b p
    by (simp_all add: length_crypto_def)
  ultimately show ?thesis
    unfolding crypto_ok_def by simp
qed

lemma New_ok: "state_ok X (New empty_reader)"
proof -
  have "accounts (view X (New empty_reader)) a = None" for a
    by (simp add: view_simps account_at_def New_def reader_account_def empty_reader_def)
  then show ?thesis
    by (simp add: state_ok_def wf_New view_ok_def codes_ok_def solvent_def ether_def balance_of_def)
qed

lemma idle_evm_ok: "evm_ok X idle_evm" "\<not> static idle_evm"
proof -
  have "settled idle_evm"
    by (simp add: settled_def idle_evm_def instructions_of_def IsConstantinople_def IsPetersburg_def
        MainnetChainConfig_def Rules_of_def w256_def)
  then show "evm_ok X idle_evm"
    using New_ok by (simp add: evm_ok_def jumps_ok_def idle_evm_def size_limit_def)
  show "\<not> static idle_evm"
    by (simp add: static_def idle_evm_def)
qed

lemmas idle_ok = length_crypto_ok idle_evm_ok

section \<open>Properties\<close>

text \<open>C1: the virtual machine terminates and never panics. In a sound world, with gas below \<open>2 ^ 62\<close>
  and any fuel above the gas, every call and every creation returns a result, whatever code runs,
  however deep it calls, whatever runs out or fails on the way.\<close>

theorem evm_returns:
  assumes "crypto_ok X" "evm_ok X evm" "length input \<le> size_limit" "w256 val" "static evm \<longrightarrow> val = 0"
    and "unat gas < 2 ^ 62" "unat gas < n"
  shows "returns (Call X (runner_of X n) caller addr input gas val evm)
    \<and> returns (CallCode X (runner_of X n) caller addr input gas val evm)
    \<and> returns (StaticCall X (runner_of X n) caller addr input gas evm)
    \<and> returns (Create X (runner_of X n) caller input gas val evm)
    \<and> returns (Create2 X (runner_of X n) caller input gas val salt evm)"
  using entries_return [OF assms(1-3,7,6,4,5)] by blast

theorem evm_returns_witness:
  "returns (Call length_crypto (runner_of length_crypto 100001) (AccountRef 1) 2 [1, 2] 100000 0 idle_evm)
   \<and> returns (Create length_crypto (runner_of length_crypto 100001) (AccountRef 1) [1, 2] 100000 0 idle_evm)"
  using evm_returns [of length_crypto idle_evm "[1, 2]" 0 100000 100001 "AccountRef 1" 2]
  by (simp add: idle_ok size_limit_def)



lemma call_end_consumes:
  assumes "call_end X rid r = Ret (ret, left, Some e, evm')" "e \<noteq> errExecutionReverted"
  shows "left = 0"
proof -
  obtain ret1 err1 c evm1 where r: "r = (ret1, err1, c, evm1)"
    by (cases r) auto
  then obtain e1 where e1: "err1 = Some e1"
    using assms(1) by (cases err1) (simp_all add: call_end_def)
  then obtain evm2 where "revert_evm X rid evm1 = Ret evm2"
    using assms(1) r by (cases "revert_evm X rid evm1") (simp_all add: call_end_def)
  then show ?thesis
    using assms r e1 by (simp add: call_end_def consume_on_def UseGas_def split: if_splits)
qed

lemma Call_consumes:
  assumes "Call X rn caller addr input gas val evm = Ret (ret, left, Some e, evm')"
    and "e \<notin> {errExecutionReverted, ErrDepth, ErrInsufficientBalance}"
  shows "left = 0"
proof -
  obtain s1 can where can: "CanTransfer X (ref_Address caller) val (sdb evm) = (s1, can)" by fastforce
  obtain s2 rid where snap: "Snapshot s1 = (s2, rid)" by fastforce
  obtain s3 ex where ex: "Exist X addr s2 = (s3, ex)" by fastforce
  define s5 where "s5 = Transfer X (ref_Address caller) addr val (if ex then s3 else CreateAccount X addr False s3)"
  obtain c1 evm1 where new: "NewContract caller addr val gas (evm\<lparr>sdb := s5\<rparr>) = (c1, evm1)" by fastforce
  obtain c2 evm2 where load: "load_code X addr c1 evm1 = (c2, evm2)" by fastforce
  have "go_bind (rn evm2 c2 input False) (call_end X rid) = Ret (ret, left, Some e, evm')"
    using assms can snap ex new load by (cases can) (auto simp: Call_def Let_def simp flip: s5_def split: if_splits)
  then show ?thesis
    using assms(2) by (auto simp: go_simps dest: call_end_consumes)
qed

text \<open>C10: gas is not made. What a call leaves over is at most what it was given; a call that fails other
  than by a revert, or before it begins, leaves nothing.\<close>

theorem Call_gas:
  assumes "crypto_ok X" "evm_ok X evm" "length input \<le> size_limit" "w256 val" "static evm \<longrightarrow> val = 0"
    and "unat gas < 2 ^ 62" "unat gas < n"
    and "Call X (runner_of X n) caller addr input gas val evm = Ret (ret, left, err, evm')"
  shows "left \<le> gas
    \<and> (err \<notin> {None, Some errExecutionReverted, Some ErrDepth, Some ErrInsufficientBalance} \<longrightarrow> left = 0)"
proof (rule conjI)
  show "left \<le> gas"
    using yieldsD [OF entries_yield(1) [OF assms(1-3,7,6,4,5)] assms(8)]
    by (simp add: call_post_def word_le_nat_alt)
  show "err \<notin> {None, Some errExecutionReverted, Some ErrDepth, Some ErrInsufficientBalance} \<longrightarrow> left = 0"
    using assms(8) Call_consumes by (cases err) fastforce+
qed

theorem Call_gas_witness:
  "\<exists>ret left err evm'. Call length_crypto (runner_of length_crypto 100001) (AccountRef 1) 2 [] 100000 0 idle_evm
     = Ret (ret, left, err, evm') \<and> left \<le> 100000"
proof -
  obtain ret left err evm' where
    "Call length_crypto (runner_of length_crypto 100001) (AccountRef 1) 2 [] 100000 0 idle_evm = Ret (ret, left, err, evm')"
    using entries_return(1) [of length_crypto idle_evm "[]" 100000 100001 0 "AccountRef 1" 2]
    by (auto simp: idle_ok size_limit_def returns_def)
  then show ?thesis
    using Call_gas [of length_crypto idle_evm "[]" 0 100000 100001 "AccountRef 1" 2]
    by (auto simp: idle_ok size_limit_def)
qed


text \<open>A call that fails: the caller cannot pay.\<close>

lemma poor_Call: "Call X rn (AccountRef 1) 2 [] gas 1 idle_evm
   = Ret ([], gas, Some ErrInsufficientBalance, idle_evm\<lparr>sdb := fst (GetBalance X 1 (New empty_reader))\<rparr>)"
proof -
  have "accounts (view X (New empty_reader)) 1 = None"
    by (simp add: view_simps account_at_def New_def reader_account_def empty_reader_def)
  then have "snd (GetBalance X 1 (New empty_reader)) = 0"
    using GetBalance_spec [OF wf_New, of X empty_reader 1] by (simp add: balance_of_def)
  then have "CanTransfer X 1 1 (New empty_reader) = (fst (GetBalance X 1 (New empty_reader)), False)"
    by (simp add: CanTransfer_def case_prod_unfold)
  moreover have "\<not> no_recursion idle_evm" "\<not> too_deep idle_evm" "sdb idle_evm = New empty_reader"
    by (simp_all add: no_recursion_def too_deep_def idle_evm_def)
  ultimately show ?thesis
    by (simp add: Call_def)
qed


lemma frozenD:
  "frozen X r w w' \<Longrightarrow> accounts w a = Some v \<Longrightarrow> accounts w' a = Some v"
  "frozen X r w w' \<Longrightarrow> accounts w a = None \<Longrightarrow> accounts w' a = None \<or> accounts w' a = Some (fresh_account X r a)"
  unfolding frozen_def by (drule conjunct1, drule spec [where x = a], simp)+








lemma poor_Create: "\<exists>evm'. Create X rn (AccountRef 1) [] gas 1 idle_evm
   = Ret ([], 0, gas, Some ErrInsufficientBalance, evm')"
proof -
  obtain s1 nonce where 1: "GetNonce X 1 (New empty_reader) = (s1, nonce)" by fastforce
  have q: "quiet X (New empty_reader) s1"
    using GetNonce_spec [OF wf_New, of X empty_reader 1] 1 by simp
  have "accounts (view X (New empty_reader)) 1 = None"
    by (simp add: view_simps account_at_def New_def reader_account_def empty_reader_def)
  then have "snd (GetBalance X 1 s1) = 0"
    using GetBalance_spec [OF quiet_wf [OF q], of 1] quiet_view [OF q] by (simp add: balance_of_def)
  then have "CanTransfer X 1 1 s1 = (fst (GetBalance X 1 s1), False)"
    by (simp add: CanTransfer_def case_prod_unfold)
  moreover have "\<not> too_deep (idle_evm\<lparr>sdb := s1\<rparr>)" "sdb idle_evm = New empty_reader"
    by (simp_all add: too_deep_def idle_evm_def)
  moreover obtain addr where "CreateAddress X 1 nonce = Ret addr"
    using CreateAddress_returns by blast
  ultimately show ?thesis
    using 1 by (simp add: Create_def create_def)
qed


section \<open>Frames\<close>

text \<open>The frames of an execution: from the first one, round by round.\<close>

definition first_frame :: "EVM \<Rightarrow> Contract \<Rightarrow> bytes \<Rightarrow> bool \<Rightarrow> frame" where
  "first_frame evm c input ro =
     \<lparr>f_pc = 0, f_contract = c\<lparr>c_Input := input\<rparr>, f_mem = NewMemory, f_stack = [], f_evm = enter ro evm\<rparr>"

inductive reaches :: "crypto \<Rightarrow> runner \<Rightarrow> frame \<Rightarrow> frame \<Rightarrow> bool" for X rn where
  here: "reaches X rn fr fr"
| round: "reaches X rn fr fr1 \<Longrightarrow> step X rn fr1 = Ret (Next fr2) \<Longrightarrow> reaches X rn fr fr2"

lemma first_frame_ok:
  assumes "evm_ok X evm" "contract_ok X c" "length input \<le> size_limit"
  shows "frame_ok X (first_frame evm c input ro)" "gas_of (first_frame evm c input ro) = unat (c_Gas c)"
  using assms enter_ok(1) [OF assms(1)]
  by (simp_all add: first_frame_def frame_ok_def contract_ok_def stack_ok_def mem_ok_def NewMemory_def)

lemma reaches_ok:
  assumes "reaches X (runner_of X n) fr fr'" "crypto_ok X" "frame_ok X fr" "gas_of fr \<le> n"
  shows "frame_ok X fr' \<and> gas_of fr' \<le> gas_of fr"
  using assms
proof induction
  case (round fr fr1 fr2)
  then have "yields (step X (runner_of X n) fr1) (outcome_ok X fr1)"
    by (intro run.step_ok) auto
  with round show ?case
    by (simp add: outcome_ok_def)
qed simp

text \<open>C8: no frame ever gets into a bad state. Every frame reached while code runs has at most 1024 words
  on its stack, all between 0 and \<open>2 ^ 256\<close>, a memory of whole words within the bound the gas cost
  implies, and no more gas than it started with; and its next round does not panic.\<close>

theorem reachable_frames:
  assumes "crypto_ok X" "evm_ok X evm" "contract_ok X c" "length input \<le> size_limit" "unat (c_Gas c) \<le> n"
    and "reaches X (runner_of X n) (first_frame evm c input ro) fr"
  shows "length (f_stack fr) \<le> 1024 \<and> (\<forall>x \<in> set (f_stack fr). 0 \<le> x \<and> x < 2 ^ 256)
    \<and> 32 dvd length (store (f_mem fr)) \<and> length (store (f_mem fr)) \<le> 0xffffffffe0
    \<and> unat (c_Gas (f_contract fr)) \<le> unat (c_Gas c)
    \<and> (\<exists>out. step X (runner_of X n) fr = Ret out)"
proof -
  note f = first_frame_ok [OF assms(2-4), of ro]
  have r: "frame_ok X fr" "gas_of fr \<le> unat (c_Gas c)"
    using reaches_ok [OF assms(6,1) f(1)] assms(5) f(2) by simp_all
  then have "yields (step X (runner_of X n) fr) (outcome_ok X fr)"
    using assms(1,5) by (intro run.step_ok) auto
  then have "\<exists>out. step X (runner_of X n) fr = Ret out"
    by (auto elim: yieldsE)
  then show ?thesis
    using r by (simp add: frame_ok_def stack_ok_def mem_ok_def mem_limit_def list_all_iff w256_def)
qed

theorem reachable_frames_witness:
  "\<exists>out. step length_crypto (runner_of length_crypto 7) (first_frame idle_evm push_contract [] False) = Ret out"
proof -
  have "contract_ok length_crypto push_contract" "unat (c_Gas push_contract) \<le> 7"
    by (simp_all add: contract_ok_def push_contract_def size_limit_def)
  then show ?thesis
    using reachable_frames [OF idle_ok(1,2), of push_contract "[]" 7 False "first_frame idle_evm push_contract [] False"]
      reaches.here [of length_crypto "runner_of length_crypto 7" "first_frame idle_evm push_contract [] False"]
    by (simp add: size_limit_def)
qed



end
