(* ===== verification/TransitionCorrect.thy ===== *)
theory TransitionCorrect
  imports StateTransition EvmCorrect
begin

text \<open>
  What applying a message guarantees: it returns, gas and ether are accounted for exactly, and a message
  that fails its checks changes nothing.
\<close>

section \<open>The gas pool\<close>

lemma AddGas_eq:
  "AddGas amount gp = (if unat gp + unat amount < 2 ^ 64 then Ret (gp + amount) else Panic)"
  using SafeAdd_flag [of amount gp] by (simp add: AddGas_def SafeAdd_def not_less [symmetric] add.commute)

section \<open>Intrinsic gas\<close>

text \<open>One charge of \<open>n\<close> units at \<open>price\<close> on top of \<open>gas\<close>, with the check for overflow.\<close>

lemma charge_units:
  fixes gas price :: u64
  assumes "n < 2 ^ 64" "0 < unat price"
  shows "(MaxUint64 - gas) div price < of_nat n \<longleftrightarrow> 2 ^ 64 \<le> unat gas + n * unat price"
    and "unat gas + n * unat price < 2 ^ 64 \<Longrightarrow> unat (gas + of_nat n * price) = unat gas + n * unat price"
proof -
  have m: "unat (MaxUint64 - gas) = 2 ^ 64 - 1 - unat gas"
    by (simp add: MaxUint64_def unat_sub unsigned_minus_1_eq_mask mask_eq_exp_minus_1)
  have u: "unat (of_nat n :: u64) = n"
    using assms(1) by (rule unat_of_nat_u64)
  have "(MaxUint64 - gas) div price < of_nat n \<longleftrightarrow> 2 ^ 64 - 1 - unat gas < n * unat price"
    using assms(2) m u by (simp only: word_less_nat_alt unat_div div_less_iff_less_mult)
  also have "\<dots> \<longleftrightarrow> 2 ^ 64 \<le> unat gas + n * unat price"
    using unat_u64_less [of gas] by simp linarith
  finally show "(MaxUint64 - gas) div price < of_nat n \<longleftrightarrow> 2 ^ 64 \<le> unat gas + n * unat price" .
  show "unat (gas + of_nat n * price) = unat gas + n * unat price" if "unat gas + n * unat price < 2 ^ 64"
    using that u by (simp add: unat_add_no_wrap unat_mult_no_wrap)
qed

definition data_gas :: "bytes \<Rightarrow> bool \<Rightarrow> bool \<Rightarrow> nat" where
  "data_gas data contractCreation homestead =
     (if contractCreation \<and> homestead then 53000 else 21000)
     + 68 * length (filter (\<lambda>b. b \<noteq> 0) data) + 4 * length (filter (\<lambda>b. b = 0) data)"

lemma IntrinsicGas_eq:
  assumes "length data < 2 ^ 64"
  shows "IntrinsicGas data creation homestead =
    (if data_gas data creation homestead < 2 ^ 64 then Inr (of_nat (data_gas data creation homestead)) else Inl ErrOutOfGas)"
proof -
  define gas where "gas = (if creation \<and> homestead then TxGasContractCreation else TxGas)"
  define nz where "nz = length (filter (\<lambda>b. b \<noteq> 0) data)"
  define z where "z = length (filter (\<lambda>b. b = 0) data)"
  have len: "length data = nz + z"
    using sum_length_filter_compl [of "\<lambda>b. b \<noteq> 0" data] by (simp add: nz_def z_def)
  have g: "unat gas = (if creation \<and> homestead then 53000 else 21000)"
    by (simp add: gas_def params)
  have total: "data_gas data creation homestead = unat gas + nz * 68 + z * 4"
    by (simp add: data_gas_def g nz_def z_def)
  have lt: "nz < 2 ^ 64" "z < 2 ^ 64"
    using assms len by simp_all
  let ?gas1 = "gas + of_nat nz * TxDataNonZeroGas"
  have zz: "of_nat (length data) - of_nat nz = (of_nat z :: u64)"
    by (simp add: len)
  note c1 = charge_units [OF lt(1), of TxDataNonZeroGas gas]
  note c2 = charge_units [OF lt(2), of TxDataZeroGas ?gas1]
  have I: "IntrinsicGas data creation homestead =
    (if length data > 0 then
       if (MaxUint64 - gas) div TxDataNonZeroGas < of_nat nz then Inl ErrOutOfGas
       else if (MaxUint64 - ?gas1) div TxDataZeroGas < of_nat z then Inl ErrOutOfGas
       else Inr (?gas1 + of_nat z * TxDataZeroGas)
     else Inr gas)"
    unfolding IntrinsicGas_def Let_def nz_def [symmetric] gas_def [symmetric] zz ..
  have w: "of_nat (unat gas + nz * 68 + z * 4) = ?gas1 + of_nat z * TxDataZeroGas"
    by (simp add: params)
  show ?thesis
  proof (cases "2 ^ 64 \<le> unat gas + nz * 68")
    case True
    then have "nz > 0" using g by (cases nz) (auto split: if_splits)
    with True show ?thesis
      using c1 len total by (simp add: I params)
  next
    case False
    then have "unat ?gas1 = unat gas + nz * 68"
      using c1 by (simp add: params)
    then show ?thesis
      using False c1 c2 total w len unat_u64_less [of gas]
      by (auto simp add: I params)
  qed
qed

section \<open>Paying\<close>

lemma AddBalance_ok:
  assumes "state_ok X s" "0 \<le> v" "ether (view X s) + v < 2 ^ 256"
  shows "state_ok X (AddBalance X a v s)" "ether (view X (AddBalance X a v s)) = ether (view X s) + v"
proof -
  have r: "extends X s (AddBalance X a v s)" "view X (AddBalance X a v s)
      = upd_account X (stateReader s) a (\<lambda>u. u\<lparr>v_balance := v_balance u + v\<rparr>) (view X s)"
    using AddBalance_refines [of X s a v] assms(1) by (simp_all add: state_ok_def)
  show e: "ether (view X (AddBalance X a v s)) = ether (view X s) + v"
    unfolding r(2) ether_upd [where g = "\<lambda>x. x + v"] by simp
  have "balance_of (view X (AddBalance X a v s)) = (balance_of (view X s))(a := balance_of (view X s) a + v)"
    unfolding r(2) by (rule balance_upd)
  moreover have "codes_ok X (view X (AddBalance X a v s))"
    unfolding r(2) using assms(1) by (intro codes_upd_balance) (simp add: state_ok_def view_ok_def)
  ultimately show "state_ok X (AddBalance X a v s)"
    using assms e extends_wf [OF r(1)] by (simp add: state_ok_def view_ok_def solvent_def)
qed

lemma SubBalance_ok:
  assumes "state_ok X s" "0 \<le> v" "v \<le> balance_of (view X s) a"
  shows "state_ok X (SubBalance X a v s)" "ether (view X (SubBalance X a v s)) = ether (view X s) - v"
proof -
  have r: "extends X s (SubBalance X a v s)" "view X (SubBalance X a v s)
      = upd_account X (stateReader s) a (\<lambda>u. u\<lparr>v_balance := v_balance u - v\<rparr>) (view X s)"
    using SubBalance_refines [of X s a v] assms(1) by (simp_all add: state_ok_def)
  show e: "ether (view X (SubBalance X a v s)) = ether (view X s) - v"
    unfolding r(2) ether_upd [where g = "\<lambda>x. x - v"] by simp
  have "balance_of (view X (SubBalance X a v s)) = (balance_of (view X s))(a := balance_of (view X s) a - v)"
    unfolding r(2) by (rule balance_upd)
  moreover have "codes_ok X (view X (SubBalance X a v s))"
    unfolding r(2) using assms(1) by (intro codes_upd_balance) (simp add: state_ok_def view_ok_def)
  ultimately show "state_ok X (SubBalance X a v s)"
    using assms e extends_wf [OF r(1)] by (simp add: state_ok_def view_ok_def solvent_def)
qed

lemma evm_ok_state_upd: "evm_ok X evm \<Longrightarrow> state_ok X s \<Longrightarrow> evm_ok X (evm\<lparr>sdb := s\<rparr>)"
  using evm_ok_change [of X evm "evm\<lparr>sdb := s\<rparr>"] by (simp add: same_setting_def evm_ok_def jumps_ok_def)

section \<open>Buying gas\<close>

text \<open>\<open>bought\<close>: the transition after its checks have passed.\<close>

definition bought :: "crypto \<Rightarrow> EVM \<Rightarrow> Message \<Rightarrow> GasPool \<Rightarrow> StateTransition \<Rightarrow> bool" where
  "bought X evm msg gp st \<longleftrightarrow> evm_ok X (st_evm st) \<and> same_setting evm (st_evm st)
     \<and> ether (view X (st_state st)) = ether (view X (sdb evm)) - uint (msg_Gas msg) * msg_GasPrice msg
     \<and> msg_Gas msg \<le> gp \<and> st_gp st = gp - msg_Gas msg \<and> st_gas st = msg_Gas msg \<and> initialGas st = msg_Gas msg
     \<and> st_msg st = msg \<and> st_gasPrice st = msg_GasPrice msg \<and> st_value st = msg_Value msg \<and> st_data st = msg_Data msg"

lemma buyGas_spec:
  assumes ok: "evm_ok X evm" "quiet X (sdb evm) s" "0 \<le> msg_GasPrice msg"
    and buy: "buyGas X (set_state s (NewStateTransition evm msg gp)) = (err, st)"
  shows "case err of
      None \<Rightarrow> bought X evm msg gp st
    | Some e \<Rightarrow> view X (st_state st) = view X (sdb evm) \<and> st_gp st = gp \<and> evm_ok X (st_evm st)
        \<and> same_setting evm (st_evm st)"
proof -
  obtain s1 bal where 1: "GetBalance X (From msg) s = (s1, bal)" by fastforce
  have q: "quiet X (sdb evm) s1" "bal = balance_of (view X (sdb evm)) (From msg)"
    using GetBalance_spec [OF quiet_wf [OF ok(2)], of "From msg"] 1 quiet_trans [OF ok(2)] quiet_view [OF ok(2)]
    by simp_all
  have s1: "state_ok X s1"
    using srel_ok [OF srel_quiet [OF evm_ok_state(1) [OF ok(1)] q(1)]] .
  let ?v = "uint (msg_Gas msg) * msg_GasPrice msg"
  have v: "0 \<le> ?v"
    using ok(3) by simp
  show ?thesis
  proof (cases "bal < ?v \<or> gp < msg_Gas msg")
    case True
    then have "st = set_state s1 (NewStateTransition evm msg gp)" "err \<noteq> None"
      using buy 1 by (auto simp: buyGas_def Let_def set_state_def NewStateTransition_def SubGas_def split: if_splits)
    then show ?thesis
      using quiet_view [OF q(1)] evm_ok_state_upd [OF ok(1) s1]
      by (auto simp: set_state_def NewStateTransition_def same_setting_def)
  next
    case False
    then have st: "err = None" "st = (set_state (SubBalance X (From msg) ?v s1) (NewStateTransition evm msg gp))
        \<lparr>st_gp := gp - msg_Gas msg, st_gas := msg_Gas msg, initialGas := msg_Gas msg\<rparr>"
      using buy 1 by (auto simp: buyGas_def Let_def set_state_def NewStateTransition_def SubGas_def)
    have "?v \<le> balance_of (view X s1) (From msg)"
      using False q quiet_view [OF q(1)] by simp
    note sub = SubBalance_ok [OF s1 v this]
    then show ?thesis
      using st False evm_ok_state_upd [OF ok(1) sub(1)] quiet_view [OF q(1)]
      by (simp add: bought_def set_state_def NewStateTransition_def same_setting_def not_less)
  qed
qed

lemma preCheck_spec:
  assumes ok: "evm_ok X evm" "0 \<le> msg_GasPrice msg"
    and check: "preCheck X (NewStateTransition evm msg gp) = (err, st)"
  shows "case err of
      None \<Rightarrow> bought X evm msg gp st \<and> (CheckNonce msg \<longrightarrow> nonce_of (view X (sdb evm)) (From msg) = msg_Nonce msg)
    | Some e \<Rightarrow> view X (st_state st) = view X (sdb evm) \<and> st_gp st = gp \<and> evm_ok X (st_evm st)
        \<and> same_setting evm (st_evm st)"
proof -
  note k = evm_ok_state [OF ok(1)]
  have same: "set_state (sdb evm) (NewStateTransition evm msg gp) = NewStateTransition evm msg gp"
    by (simp add: set_state_def NewStateTransition_def)
  obtain s1 nonce where 1: "GetNonce X (From msg) (sdb evm) = (s1, nonce)" by fastforce
  have q: "quiet X (sdb evm) s1" "nonce = nonce_of (view X (sdb evm)) (From msg)"
    using GetNonce_spec [OF k(2), of "From msg"] 1 by simp_all
  have s1: "state_ok X s1"
    using srel_ok [OF srel_quiet [OF k(1) q(1)]] .
  have new: "st_msg (NewStateTransition evm msg gp) = msg" "st_state (NewStateTransition evm msg gp) = sdb evm"
    by (simp_all add: NewStateTransition_def)
  show ?thesis
  proof (cases "CheckNonce msg")
    case False
    then show ?thesis
      using check buyGas_spec [OF ok(1) quiet_refl [OF k(2)] ok(2), of gp err st] same
      by (simp add: preCheck_def Let_def new split: option.splits)
  next
    case True
    show ?thesis
    proof (cases "nonce = msg_Nonce msg")
      case eq: True
      then show ?thesis
        using check 1 q(2) True buyGas_spec [OF ok(1) q(1) ok(2), of gp err st]
        by (simp add: preCheck_def Let_def new split: option.splits)
    next
      case False
      then have "err \<noteq> None" "st = set_state s1 (NewStateTransition evm msg gp)"
        using check 1 True by (auto simp: preCheck_def Let_def new split: if_splits)
      then show ?thesis
        using quiet_view [OF q(1)] evm_ok_state_upd [OF ok(1) s1]
        by (auto simp: set_state_def NewStateTransition_def same_setting_def)
    qed
  qed
qed

section \<open>Running and selling back\<close>

lemma run_message_spec:
  assumes ok: "crypto_ok X" "evm_ok X (st_evm st)" "\<not> static (st_evm st)" "w256 (st_value st)"
    "length (st_data st) \<le> size_limit" "unat (st_gas st) < n" "unat (st_gas st) < 2 ^ 62"
  shows "yields (run_message X (runner_of X n) st) (\<lambda>(ret, vmerr, st').
    initialGas st' = initialGas st \<and> st_gasPrice st' = st_gasPrice st \<and> st_gp st' = st_gp st
    \<and> evm_ok X (st_evm st') \<and> same_setting (st_evm st) (st_evm st')
    \<and> ether (view X (st_state st')) \<le> ether (view X (st_state st)) \<and> st_gas st' \<le> st_gas st)"
proof (cases "To (st_msg st)")
  case None
  from run.Create_post [OF ok(1,2,5,6,7,4), of "AccountRef (From (st_msg st))"] show ?thesis
    using None by (auto simp: run_message_def Let_def create_post_def evm_rel_def srel_def word_le_nat_alt
        elim!: yields_mono)
next
  case (Some a)
  obtain s1 nonce where 1: "GetNonce X (From (st_msg st)) (st_state st) = (s1, nonce)" by fastforce
  have "quiet X (st_state st) s1"
    using GetNonce_spec [OF evm_ok_state(2) [OF ok(2)], of "From (st_msg st)"] 1 by simp
  note r1 = srel_quiet [OF evm_ok_state(1) [OF ok(2)] this]
  note r2 = srel_trans [OF r1 SetNonce_srel [OF srel_ok [OF r1]], of "From (st_msg st)" "nonce + 1"]
  define evm1 where "evm1 = (st_evm st)\<lparr>sdb := SetNonce X (From (st_msg st)) (nonce + 1) s1\<rparr>"
  have e1: "evm_ok X evm1" "\<not> static evm1" "same_setting (st_evm st) evm1"
    "ether (view X (sdb evm1)) \<le> ether (view X (st_state st))"
    using evm_ok_sdb [OF ok(2) r2] ok(3) r2 by (simp_all add: evm1_def static_def same_setting_def srel_def)
  have "yields (Call X (runner_of X n) (AccountRef (From (st_msg st))) a (st_data st) (st_gas st) (st_value st) evm1)
      (call_post X (static evm1) evm1 (st_gas st))"
    using e1 ok by (intro run.Call_post) simp_all
  then show ?thesis
    using Some 1 e1
    by (auto simp: run_message_def Let_def set_state_def st_to_def evm1_def [symmetric] call_post_def evm_rel_def
        srel_def word_le_nat_alt elim!: yields_mono intro: same_setting_trans)
qed

lemma refundGas_spec:
  assumes ok: "evm_ok X (st_evm st)" "st_gas st \<le> initialGas st" "0 \<le> st_gasPrice st"
    and pool: "unat (st_gp st) + unat (initialGas st) < 2 ^ 64"
    and money: "ether (view X (st_state st)) + uint (initialGas st) * st_gasPrice st < 2 ^ 256"
  shows "\<exists>gas s. refundGas X st = Ret (st\<lparr>st_gp := st_gp st + gas, st_gas := gas, st_evm := (st_evm st)\<lparr>sdb := s\<rparr>\<rparr>)
    \<and> unat (initialGas st) - unat (st_gas st) \<le> 2 * (unat (initialGas st) - unat gas)
    \<and> gas \<le> initialGas st \<and> state_ok X s
    \<and> ether (view X s) = ether (view X (st_state st)) + uint gas * st_gasPrice st"
proof -
  define r where "r = (if st_gasUsed st div 2 > GetRefund (st_state st) then GetRefund (st_state st) else st_gasUsed st div 2)"
  let ?G = "unat (initialGas st)" and ?g = "unat (st_gas st)"
  have le: "?g \<le> ?G"
    using ok(2) by (simp add: word_le_nat_alt)
  have "unat (st_gasUsed st) = ?G - ?g"
    using ok(2) by (simp add: st_gasUsed_def unat_sub)
  then have r: "unat r \<le> (?G - ?g) div 2"
    by (simp add: r_def word_less_nat_alt unat_div)
  have u: "unat (st_gas st + r) = ?g + unat r"
    using le r unat_u64_less [of "initialGas st"] by (intro unat_add_no_wrap) linarith
  then have gas: "st_gas st + r \<le> initialGas st" "?G - ?g \<le> 2 * (?G - unat (st_gas st + r))"
    using le r by (simp_all add: word_le_nat_alt)
  have "int (unat (st_gas st + r)) \<le> int ?G"
    using gas(1) by (simp only: word_le_nat_alt of_nat_le_iff)
  then have "uint (st_gas st + r) * st_gasPrice st \<le> uint (initialGas st) * st_gasPrice st"
    using ok(3) by (intro mult_right_mono) simp_all
  with money have m: "ether (view X (st_state st)) + uint (st_gas st + r) * st_gasPrice st < 2 ^ 256"
    by linarith
  have "AddGas (st_gas st + r) (st_gp st) = Ret (st_gp st + (st_gas st + r))"
    using pool gas(1) by (simp add: AddGas_eq word_le_nat_alt)
  then have "refundGas X st = Ret (st\<lparr>st_gp := st_gp st + (st_gas st + r), st_gas := st_gas st + r,
      st_evm := (st_evm st)\<lparr>sdb := AddBalance X (From (st_msg st)) (uint (st_gas st + r) * st_gasPrice st) (st_state st)\<rparr>\<rparr>)"
    by (simp add: refundGas_def Let_def set_state_def r_def [symmetric])
  moreover note AddBalance_ok [OF evm_ok_state(1) [OF ok(1)] _ m, of "From (st_msg st)"]
  ultimately show ?thesis
    using gas ok(3)
    by (intro exI [of _ "st_gas st + r"]
        exI [of _ "AddBalance X (From (st_msg st)) (uint (st_gas st + r) * st_gasPrice st) (st_state st)"]) simp
qed

section \<open>The whole transition\<close>

definition applied :: "crypto \<Rightarrow> EVM \<Rightarrow> Message \<Rightarrow> GasPool
    \<Rightarrow> bytes \<times> u64 \<times> bool \<times> tx_error option \<times> StateTransition \<Rightarrow> bool" where
  "applied X evm msg gp r \<longleftrightarrow>
     (case r of (ret, used, failed, err, st) \<Rightarrow> evm_ok X (st_evm st) \<and> same_setting evm (st_evm st)
        \<and> ether (view X (st_state st)) \<le> ether (view X (sdb evm))
        \<and> (if err = None
           then unat used \<le> unat (msg_Gas msg) \<and> unat used \<le> unat gp \<and> st_gp st = gp - used
             \<and> data_gas (msg_Data msg) (To msg = None) (IsHomestead (chainConfig evm) (block_num evm)) \<le> 2 * unat used
           else used = 0))"

text \<open>The end of a transition: gas is sold back, the miner is paid.\<close>

definition settle :: "crypto \<Rightarrow> bytes \<Rightarrow> vm_error option \<Rightarrow> StateTransition \<Rightarrow> transition_result" where
  "settle X ret vmerr st2 =
     go_bind (refundGas X st2)
       (\<lambda>st3.
         (let fee = uint (st_gasUsed st3) * st_gasPrice st3;
              st4 = set_state (AddBalance X (Coinbase (ctx (st_evm st3))) fee (st_state st3)) st3
          in Ret (ret, st_gasUsed st4, vmerr \<noteq> None, None, st4)))"

lemma settle_spec:
  assumes ok: "evm_ok X (st_evm st)" "same_setting evm (st_evm st)" "st_gas st \<le> msg_Gas msg" "0 \<le> msg_GasPrice msg"
    and st: "initialGas st = msg_Gas msg" "st_gasPrice st = msg_GasPrice msg" "msg_Gas msg \<le> gp" "st_gp st = gp - msg_Gas msg"
    and money: "ether (view X (st_state st)) + uint (msg_Gas msg) * msg_GasPrice msg \<le> ether (view X (sdb evm))"
      "evm_ok X evm"
    and used: "data_gas (msg_Data msg) (To msg = None) (IsHomestead (chainConfig evm) (block_num evm))
      \<le> unat (msg_Gas msg) - unat (st_gas st)"
  shows "yields (settle X ret vmerr st) (applied X evm msg gp)"
proof -
  let ?G = "msg_Gas msg" and ?p = "msg_GasPrice msg"
  have e: "ether (view X (sdb evm)) < 2 ^ 256"
    using evm_ok_state(1) [OF money(2)] by (simp add: state_ok_def view_ok_def solvent_def)
  have pool: "unat (st_gp st) + unat ?G < 2 ^ 64"
    using st(3,4) unat_u64_less [of gp] by (simp add: unat_sub word_le_nat_alt)
  have "ether (view X (st_state st)) + uint ?G * ?p < 2 ^ 256"
    using money(1) e by linarith
  then obtain gas s where r: "refundGas X st = Ret (st\<lparr>st_gp := st_gp st + gas, st_gas := gas, st_evm := (st_evm st)\<lparr>sdb := s\<rparr>\<rparr>)"
    "unat ?G - unat (st_gas st) \<le> 2 * (unat ?G - unat gas)" "gas \<le> ?G" "state_ok X s"
    "ether (view X s) = ether (view X (st_state st)) + uint gas * ?p"
    using refundGas_spec [OF ok(1)] ok(3,4) st pool by auto
  have "uint (?G - gas) = uint ?G - uint gas"
    using r(3) by (simp add: uint_sub_lem [THEN iffD1] word_le_def)
  then have fee: "ether (view X s) + uint (?G - gas) * ?p = ether (view X (st_state st)) + uint ?G * ?p"
    using r(5) by (simp add: left_diff_distrib)
  with money(1) have le: "ether (view X s) + uint (?G - gas) * ?p \<le> ether (view X (sdb evm))"
    by simp
  note a = AddBalance_ok [OF r(4) _ le_less_trans [OF le e], of "Coinbase (ctx (st_evm st))"]
  have u: "unat (?G - gas) = unat ?G - unat gas"
    using r(3) by (simp add: unat_sub)
  have g: "?G \<le> gp"
    by (rule st(3))
  have "gp - ?G + gas = gp - (?G - gas)"
    by simp
  then show ?thesis
    using r a u g le st ok(4) used evm_ok_state_upd [OF ok(1)] ok(2)
    by (simp add: settle_def Let_def set_state_def st_gasUsed_def applied_def same_setting_def word_le_nat_alt)
qed

lemma run_and_settle:
  assumes ok: "crypto_ok X" "evm_ok X evm" "\<not> static evm" "length (msg_Data msg) \<le> size_limit"
    "w256 (msg_Value msg)" "0 \<le> msg_GasPrice msg" "unat (msg_Gas msg) < n" "unat (msg_Gas msg) < 2 ^ 62"
    and b: "bought X evm msg gp st"
    and d: "d = data_gas (msg_Data msg) (To msg = None) (IsHomestead (chainConfig evm) (block_num evm))"
      "d \<le> unat (msg_Gas msg)"
  shows "yields (go_bind (run_message X (runner_of X n) (st\<lparr>st_gas := msg_Gas msg - of_nat d\<rparr>))
      (\<lambda>(ret, vmerr, st2). if vmerr = Some ErrInsufficientBalance
         then Ret ([], 0, False, Some (VmError ErrInsufficientBalance), st2) else settle X ret vmerr st2))
    (applied X evm msg gp)"
proof -
  note bd = b [unfolded bought_def]
  define st1 where "st1 = st\<lparr>st_gas := msg_Gas msg - of_nat d\<rparr>"
  have "unat (of_nat d :: u64) = d"
    using d(2) ok(8) by (intro unat_of_nat_u64) simp
  then have g1: "unat (st_gas st1) = unat (msg_Gas msg) - d"
    using d(2) by (simp add: st1_def unat_sub word_le_nat_alt)
  have "\<not> static (st_evm st)"
    using bd ok(3) static_same [of evm "st_evm st"] by simp
  then have "yields (run_message X (runner_of X n) st1) (\<lambda>(ret, vmerr, st').
      initialGas st' = initialGas st1 \<and> st_gasPrice st' = st_gasPrice st1 \<and> st_gp st' = st_gp st1
      \<and> evm_ok X (st_evm st') \<and> same_setting (st_evm st1) (st_evm st')
      \<and> ether (view X (st_state st')) \<le> ether (view X (st_state st1)) \<and> st_gas st' \<le> st_gas st1)"
    using bd ok g1 by (intro run_message_spec) (simp_all add: st1_def)
  then obtain ret vmerr st2 where run: "run_message X (runner_of X n) st1 = Ret (ret, vmerr, st2)"
    and st2: "initialGas st2 = initialGas st1" "st_gasPrice st2 = st_gasPrice st1" "st_gp st2 = st_gp st1"
      "evm_ok X (st_evm st2)" "same_setting (st_evm st1) (st_evm st2)"
      "ether (view X (st_state st2)) \<le> ether (view X (st_state st1))" "st_gas st2 \<le> st_gas st1"
    by (auto elim!: yieldsE)
  have f: "initialGas st2 = msg_Gas msg" "st_gasPrice st2 = msg_GasPrice msg" "st_gp st2 = gp - msg_Gas msg"
    "same_setting evm (st_evm st2)" "unat (st_gas st2) \<le> unat (msg_Gas msg) - d"
    using st2 bd g1 same_setting_trans [of evm "st_evm st" "st_evm st2"] by (simp_all add: st1_def word_le_nat_alt)
  have m: "ether (view X (st_state st2)) + uint (msg_Gas msg) * msg_GasPrice msg \<le> ether (view X (sdb evm))"
    using st2(6) bd by (simp add: st1_def)
  have "0 \<le> uint (msg_Gas msg) * msg_GasPrice msg"
    using ok(6) by simp
  with m have early: "applied X evm msg gp ([], 0, False, Some er, st2)" for er
    using st2(4) f(4) by (simp add: applied_def)
  have "yields (settle X ret vmerr st2) (applied X evm msg gp)"
    using f d bd by (intro settle_spec [OF st2(4) f(4) _ ok(6) f(1,2) _ f(3) m ok(2)]) (simp_all add: word_le_nat_alt)
  then show ?thesis
    using run early by (simp add: st1_def [symmetric])
qed

lemma TransitionDb_settle:
  "TransitionDb X rn st0 =
     (case preCheck X st0 of
        (Some err, st) \<Rightarrow> Ret ([], 0, False, Some err, st)
      | (None, st) \<Rightarrow>
          (case IntrinsicGas (st_data st) (To (st_msg st) = None)
                  (IsHomestead (chainConfig (st_evm st)) (block_num (st_evm st))) of
             Inl err \<Rightarrow> Ret ([], 0, False, Some (VmError err), st)
           | Inr gas \<Rightarrow>
               (case st_useGas gas st of
                  Inl err \<Rightarrow> Ret ([], 0, False, Some err, st)
                | Inr st1 \<Rightarrow>
                    go_bind (run_message X rn st1)
                      (\<lambda>(ret, vmerr, st2). if vmerr = Some ErrInsufficientBalance
                         then Ret ([], 0, False, Some (VmError ErrInsufficientBalance), st2)
                         else settle X ret vmerr st2))))"
  unfolding TransitionDb_def settle_def Let_def ..

lemma ApplyMessage_applied:
  assumes ok: "crypto_ok X" "evm_ok X evm" "\<not> static evm" "length (msg_Data msg) \<le> size_limit"
    "w256 (msg_Value msg)" "0 \<le> msg_GasPrice msg" "unat (msg_Gas msg) < n" "unat (msg_Gas msg) < 2 ^ 62"
  shows "yields (ApplyMessage X (runner_of X n) evm msg gp) (applied X evm msg gp)"
proof -
  obtain err st where pre: "preCheck X (NewStateTransition evm msg gp) = (err, st)" by fastforce
  note spec = preCheck_spec [OF ok(2,6) pre]
  show ?thesis
  proof (cases err)
    case (Some e)
    then show ?thesis
      using spec pre by (simp add: ApplyMessage_def TransitionDb_settle applied_def)
  next
    case None
    then have b: "bought X evm msg gp st"
      using spec by simp
    note bd = b [unfolded bought_def]
    have "0 \<le> uint (msg_Gas msg) * msg_GasPrice msg"
      using ok(6) by simp
    then have early: "applied X evm msg gp ([], 0, False, Some er, st)" for er
      using bd by (simp add: applied_def)
    have same: "chainConfig (st_evm st) = chainConfig evm" "block_num (st_evm st) = block_num evm"
      using bd by (simp_all add: same_setting_def)
    define d where "d = data_gas (msg_Data msg) (To msg = None) (IsHomestead (chainConfig evm) (block_num evm))"
    have I: "IntrinsicGas (st_data st) (To (st_msg st) = None) (IsHomestead (chainConfig (st_evm st)) (block_num (st_evm st)))
        = (if d < 2 ^ 64 then Inr (of_nat d) else Inl ErrOutOfGas)"
      using IntrinsicGas_eq [of "msg_Data msg"] ok(4) bd same by (simp add: d_def size_limit_def)
    have U: "st_useGas (of_nat d) st
        = (if unat (msg_Gas msg) < d then Inl (VmError ErrOutOfGas) else Inr (st\<lparr>st_gas := msg_Gas msg - of_nat d\<rparr>))"
      if "d < 2 ^ 64"
      using bd unat_of_nat_u64 [OF that] by (simp add: st_useGas_def word_less_nat_alt)
    show ?thesis
      using pre None I U early run_and_settle [OF ok b d_def] ok(8)
      by (cases "d \<le> unat (msg_Gas msg)") (auto simp: ApplyMessage_def TransitionDb_settle simp del: yields_bind)
  qed
qed

section \<open>Properties\<close>


text \<open>A message to nobody, in a world without accounts; gas is free.\<close>

definition free_message :: Message where
  "free_message = \<lparr>From = 1, To = Some 2, msg_GasPrice = 0, msg_Gas = 50000, msg_Value = 0, msg_Nonce = 0,
     CheckNonce = True, msg_Data = [1, 0]\<rparr>"

lemma free_message_ok: "length (msg_Data free_message) \<le> size_limit" "w256 (msg_Value free_message)"
  "0 \<le> msg_GasPrice free_message" "unat (msg_Gas free_message) = 50000"
  by (simp_all add: free_message_def size_limit_def)






text \<open>C17: intrinsic gas is 21000, or 53000 for a creation from Homestead on, plus 68 for every nonzero and 4 for
  every zero byte of data; the error is returned exactly if that is not a 64 bit number.\<close>

theorem IntrinsicGas_correct:
  assumes "length data < 2 ^ 64"
  shows "IntrinsicGas data creation homestead =
    (let total = (if creation \<and> homestead then 53000 else 21000)
       + 68 * length (filter (\<lambda>b. b \<noteq> 0) data) + 4 * length (filter (\<lambda>b. b = 0) data)
     in if total < 2 ^ 64 then Inr (of_nat total) else Inl ErrOutOfGas)"
  using IntrinsicGas_eq [OF assms] by (simp add: data_gas_def Let_def)

theorem IntrinsicGas_correct_witness: "IntrinsicGas [0, 1, 0] True True = Inr 53076"
  using IntrinsicGas_correct [of "[0, 1, 0]" True True] by simp

text \<open>C28: the gas pool. Gas that was taken can be put back; taking fails exactly if there is too little,
  putting panics exactly if the pool would exceed 64 bits.\<close>

theorem GasPool_roundtrip:
  "(case SubGas amount gp of
      Inl err \<Rightarrow> gp < amount \<and> err = ErrGasLimitReached
    | Inr gp' \<Rightarrow> amount \<le> gp \<and> unat gp' = unat gp - unat amount \<and> AddGas amount gp' = Ret gp)
   \<and> (AddGas amount gp = Panic \<longleftrightarrow> 2 ^ 64 \<le> unat gp + unat amount)"
proof -
  have "unat (gp - amount) = unat gp - unat amount" if "amount \<le> gp"
    using that by (simp add: unat_sub)
  then show ?thesis
    using unat_u64_less [of gp] by (auto simp: SubGas_def AddGas_eq word_le_nat_alt not_less)
qed

end
