(* ===== verification/Spec2Isabelle.thy ===== *)
theory Spec2Isabelle
  imports TransitionCorrect
begin

text \<open>
  A verification development for turbo-geth: the execution layer, from machine arithmetic and the
  journalled state database to the virtual machine that runs contracts on it.

  \<^bold>\<open>Parts of the program and their theories.\<close>

  \<^item> \<^bold>\<open>Prelude\<close>: machine types (\<open>u8\<close>, \<open>u64\<close>, addresses and hashes as words), the outcomes of a Go call
    (\<open>Ret\<close>, \<open>Panic\<close>, \<open>OutOfFuel\<close>), indexing and slicing, big-endian byte strings.
  \<^item> \<^bold>\<open>BigMath\<close>: \<open>common/math\<close> (\<open>U256\<close>, \<open>S256\<close>, \<open>Exp\<close>, \<open>Byte\<close>, \<open>PaddedBigBytes\<close>, \<open>SafeAdd\<close>, ...),
    \<open>common/bytes.go\<close>, conversions of \<open>common/types.go\<close>. Go's \<open>big.Int\<close> is \<open>int\<close>.
  \<^item> \<^bold>\<open>Params\<close>: \<open>params\<close>: protocol constants, gas tables, chain configurations, fork rules, and the
    compatibility check of configurations.
  \<^item> \<^bold>\<open>State\<close>: \<open>core/state\<close>: state objects, the journal with every kind of entry, the \<open>StateDB\<close> within a
    transaction. The database below it is a parameter, the record \<open>StateReader\<close>; hash and curve functions
    are the record \<open>crypto\<close>. \<^bold>\<open>StateView\<close> defines what a client can observe (\<open>view\<close>) and shows that getters
    keep it and setters change it by the abstract operation, \<^bold>\<open>StateRevert\<close> that undoing journal entries
    restores it, \<^bold>\<open>StateActions\<close> that nested snapshots implement nested transactions, \<^bold>\<open>Ledger\<close> the
    invariants of the world state (code hashes, balances) and which operations may create or move ether.
  \<^item> \<^bold>\<open>Rlp\<close> and \<^bold>\<open>RlpCorrect\<close>: the encoder of \<open>rlp/encode.go\<close> with its buffer and list headers and the
    splitting functions of \<open>rlp/raw.go\<close>; against the definition of RLP.
  \<^item> \<^bold>\<open>Vm\<close>: \<open>core/vm\<close>: opcodes, errors, stack, memory, jump destination analysis, contracts, the EVM object.
    \<^bold>\<open>VmGas\<close>: \<open>gas.go\<close>, \<open>gas_table.go\<close>, \<open>memory_table.go\<close>. \<^bold>\<open>Precompiles\<close>: \<open>contracts.go\<close>. \<^bold>\<open>Evm\<close>:
    \<open>evm.go\<close>, calls and creation, over an argument \<open>rn\<close> that runs code. \<^bold>\<open>Instructions\<close> and
    \<^bold>\<open>JumpTable\<close>: one definition per instruction, the tables of the four forks. \<^bold>\<open>Interpreter\<close>:
    \<open>interpreter.go\<close>, which ties calls and the loop together. \<^bold>\<open>Analysis\<close>: correctness of the jump
    destination analysis.
  \<^item> \<^bold>\<open>Machine\<close>, \<^bold>\<open>OpSafety\<close>, \<^bold>\<open>GasSafety\<close>, \<^bold>\<open>StepSafety\<close>, \<^bold>\<open>PrecompileSafety\<close>, \<^bold>\<open>CallSafety\<close>,
    \<^bold>\<open>CallOps\<close>, \<^bold>\<open>Termination\<close>: the invariants of the machine and that every instruction, gas function,
    precompiled contract, call and round of the loop keeps them. \<open>CallSafety\<close> has the locale \<open>callee\<close>, the
    contract between calls and the interpreter; \<open>Termination\<close> proves it of the interpreter by induction on
    fuel. \<^bold>\<open>Fuel\<close>: more fuel never changes a result. \<^bold>\<open>EvmCorrect\<close>: what follows at the entry points.
  \<^item> \<^bold>\<open>StateTransition\<close> and \<^bold>\<open>TransitionCorrect\<close>: \<open>core/state_transition.go\<close> and \<open>core/gaspool.go\<close>, how a
    message buys gas, runs and gets refunds; on top of \<open>EvmCorrect\<close>, the accounts of gas and ether.

  \<^bold>\<open>Fuel.\<close> The loop takes one unit of fuel per round, and a callee runs on what is left. Every round that
  goes on burns at least one unit of gas and a callee gets less gas than its caller had, so fuel above the
  gas is enough; the theorems state it as such.

  \<^bold>\<open>Assumptions.\<close> \<open>crypto_ok\<close>: hashes of codes of different lengths differ, no code hashes to zero, a
  recovered key is not empty, results have their documented sizes. \<open>evm_ok\<close>: the state is well formed
  (\<open>state_ok\<close>), the settings are those of \<open>NewEVM\<close>, and the net gas metering of the blocks between
  Constantinople and Petersburg is not active. Gas is below \<open>2 ^ 62\<close>, byte strings are at most
  \<open>2 ^ 40\<close> long.

  \<^bold>\<open>Not modelled.\<close> Writing the state to tries and the database (\<open>Finalise\<close>, \<open>Commit\<close>), the tracer, the
  pool of big integers and other sharing of buffers that is not observable, reflection over Go types and the
  streaming decoder of \<open>rlp\<close>, and the parts of the program around the execution layer: block processing and the
  transaction pool, networking, consensus, accounts, user interfaces.
\<close>

end
